theory Spec2Isabelle
  imports Complex_Main "HOL-Library.Sublist" "HOL-Library.AList" "HOL-Library.Multiset" "HOL-Library.List_Lexorder" "HOL-Library.Char_ord" "HOL-Library.Product_Lexorder"
begin

section \<open>Python strings\<close>

text \<open>
  A Python \<open>str\<close> is modelled as a \<open>string\<close>: the list of the bytes of its UTF-8 encoding.
  Substring search, equality and lexicographic comparison on the bytes agree with the same
  operations on code points. \<open>lower\<close> changes the 26 ASCII capital letters and keeps every
  other byte, which is what \<open>str.lower()\<close> does on texts whose characters outside ASCII
  have no lowercase mapping (the typographic apostrophe U+2019 of the hedge phrases and the
  dotless i U+0131 are such characters). \<open>upper\<close>, defined below from the full table of
  uppercase mappings, is \<open>str.upper()\<close> on every text; \<open>upper_char\<close> is what it does to an
  ASCII character. \<open>is_space\<close> holds of the ASCII characters on which \<open>str.isspace()\<close> is
  true.
\<close>

definition lower_char :: "char \<Rightarrow> char" where
  "lower_char c = (let n = (of_char c :: nat) in if 65 \<le> n \<and> n \<le> 90 then char_of (n + 32) else c)"

definition upper_char :: "char \<Rightarrow> char" where
  "upper_char c = (let n = (of_char c :: nat) in if 97 \<le> n \<and> n \<le> 122 then char_of (n - 32) else c)"

definition lower :: "string \<Rightarrow> string" where
  "lower s = map lower_char s"

text \<open>
  \<open>code_points\<close> reads the code points of a text from its UTF-8 bytes and \<open>utf8\<close> writes
  them back (a Python \<open>str\<close> is always well formed; a byte that starts no sequence is
  passed on as it is).
\<close>

fun code_points :: "string \<Rightarrow> nat list" where
  "code_points [] = []"
| "code_points (c # cs) =
     (let b = (of_char c :: nat)
      in if b < 0xC0 then b # code_points cs
         else if b < 0xE0 then
           (case cs of
              c1 # r \<Rightarrow> ((b - 0xC0) * 64 + (of_char c1 - 0x80)) # code_points r
            | [] \<Rightarrow> [b])
         else if b < 0xF0 then
           (case cs of
              c1 # c2 # r \<Rightarrow>
                ((b - 0xE0) * 4096 + (of_char c1 - 0x80) * 64 + (of_char c2 - 0x80)) # code_points r
            | _ \<Rightarrow> [b])
         else
           (case cs of
              c1 # c2 # c3 # r \<Rightarrow>
                ((b - 0xF0) * 262144 + (of_char c1 - 0x80) * 4096 + (of_char c2 - 0x80) * 64
                  + (of_char c3 - 0x80)) # code_points r
            | _ \<Rightarrow> [b]))"

definition encode_cp :: "nat \<Rightarrow> string" where
  "encode_cp n =
    (if n < 0x80 then [char_of n]
     else if n < 0x800 then [char_of (0xC0 + n div 64), char_of (0x80 + n mod 64)]
     else if n < 0x10000 then
       [char_of (0xE0 + n div 4096), char_of (0x80 + n div 64 mod 64), char_of (0x80 + n mod 64)]
     else
       [char_of (0xF0 + n div 262144), char_of (0x80 + n div 4096 mod 64),
        char_of (0x80 + n div 64 mod 64), char_of (0x80 + n mod 64)])"

definition utf8 :: "nat list \<Rightarrow> string" where
  "utf8 cps = concat (map encode_cp cps)"

definition upper_table_1 :: "(nat \<times> nat list) list" where
  "upper_table_1 =
    [(0xB5, [0x39C]), (0xDF, [0x53, 0x53]), (0xE0, [0xC0]), (0xE1, [0xC1]), (0xE2, [0xC2]),
     (0xE3, [0xC3]), (0xE4, [0xC4]), (0xE5, [0xC5]), (0xE6, [0xC6]), (0xE7, [0xC7]),
     (0xE8, [0xC8]), (0xE9, [0xC9]), (0xEA, [0xCA]), (0xEB, [0xCB]), (0xEC, [0xCC]),
     (0xED, [0xCD]), (0xEE, [0xCE]), (0xEF, [0xCF]), (0xF0, [0xD0]), (0xF1, [0xD1]),
     (0xF2, [0xD2]), (0xF3, [0xD3]), (0xF4, [0xD4]), (0xF5, [0xD5]), (0xF6, [0xD6]),
     (0xF8, [0xD8]), (0xF9, [0xD9]), (0xFA, [0xDA]), (0xFB, [0xDB]), (0xFC, [0xDC]),
     (0xFD, [0xDD]), (0xFE, [0xDE]), (0xFF, [0x178]), (0x101, [0x100]), (0x103, [0x102]),
     (0x105, [0x104]), (0x107, [0x106]), (0x109, [0x108]), (0x10B, [0x10A]), (0x10D, [0x10C]),
     (0x10F, [0x10E]), (0x111, [0x110]), (0x113, [0x112]), (0x115, [0x114]), (0x117, [0x116]),
     (0x119, [0x118]), (0x11B, [0x11A]), (0x11D, [0x11C]), (0x11F, [0x11E]), (0x121, [0x120]),
     (0x123, [0x122]), (0x125, [0x124]), (0x127, [0x126]), (0x129, [0x128]), (0x12B, [0x12A]),
     (0x12D, [0x12C]), (0x12F, [0x12E]), (0x131, [0x49]), (0x133, [0x132]), (0x135, [0x134]),
     (0x137, [0x136]), (0x13A, [0x139]), (0x13C, [0x13B]), (0x13E, [0x13D]), (0x140, [0x13F]),
     (0x142, [0x141]), (0x144, [0x143]), (0x146, [0x145]), (0x148, [0x147]),
     (0x149, [0x2BC, 0x4E]), (0x14B, [0x14A]), (0x14D, [0x14C]), (0x14F, [0x14E]),
     (0x151, [0x150]), (0x153, [0x152]), (0x155, [0x154]), (0x157, [0x156]), (0x159, [0x158]),
     (0x15B, [0x15A]), (0x15D, [0x15C]), (0x15F, [0x15E]), (0x161, [0x160]), (0x163, [0x162]),
     (0x165, [0x164]), (0x167, [0x166]), (0x169, [0x168]), (0x16B, [0x16A]), (0x16D, [0x16C]),
     (0x16F, [0x16E]), (0x171, [0x170]), (0x173, [0x172]), (0x175, [0x174]), (0x177, [0x176]),
     (0x17A, [0x179]), (0x17C, [0x17B]), (0x17E, [0x17D]), (0x17F, [0x53]), (0x180, [0x243]),
     (0x183, [0x182]), (0x185, [0x184])]"

definition upper_table_2 :: "(nat \<times> nat list) list" where
  "upper_table_2 =
    [(0x188, [0x187]), (0x18C, [0x18B]), (0x192, [0x191]), (0x195, [0x1F6]), (0x199, [0x198]),
     (0x19A, [0x23D]), (0x19E, [0x220]), (0x1A1, [0x1A0]), (0x1A3, [0x1A2]), (0x1A5, [0x1A4]),
     (0x1A8, [0x1A7]), (0x1AD, [0x1AC]), (0x1B0, [0x1AF]), (0x1B4, [0x1B3]), (0x1B6, [0x1B5]),
     (0x1B9, [0x1B8]), (0x1BD, [0x1BC]), (0x1BF, [0x1F7]), (0x1C5, [0x1C4]), (0x1C6, [0x1C4]),
     (0x1C8, [0x1C7]), (0x1C9, [0x1C7]), (0x1CB, [0x1CA]), (0x1CC, [0x1CA]), (0x1CE, [0x1CD]),
     (0x1D0, [0x1CF]), (0x1D2, [0x1D1]), (0x1D4, [0x1D3]), (0x1D6, [0x1D5]), (0x1D8, [0x1D7]),
     (0x1DA, [0x1D9]), (0x1DC, [0x1DB]), (0x1DD, [0x18E]), (0x1DF, [0x1DE]), (0x1E1, [0x1E0]),
     (0x1E3, [0x1E2]), (0x1E5, [0x1E4]), (0x1E7, [0x1E6]), (0x1E9, [0x1E8]), (0x1EB, [0x1EA]),
     (0x1ED, [0x1EC]), (0x1EF, [0x1EE]), (0x1F0, [0x4A, 0x30C]), (0x1F2, [0x1F1]),
     (0x1F3, [0x1F1]), (0x1F5, [0x1F4]), (0x1F9, [0x1F8]), (0x1FB, [0x1FA]), (0x1FD, [0x1FC]),
     (0x1FF, [0x1FE]), (0x201, [0x200]), (0x203, [0x202]), (0x205, [0x204]), (0x207, [0x206]),
     (0x209, [0x208]), (0x20B, [0x20A]), (0x20D, [0x20C]), (0x20F, [0x20E]), (0x211, [0x210]),
     (0x213, [0x212]), (0x215, [0x214]), (0x217, [0x216]), (0x219, [0x218]), (0x21B, [0x21A]),
     (0x21D, [0x21C]), (0x21F, [0x21E]), (0x223, [0x222]), (0x225, [0x224]), (0x227, [0x226]),
     (0x229, [0x228]), (0x22B, [0x22A]), (0x22D, [0x22C]), (0x22F, [0x22E]), (0x231, [0x230]),
     (0x233, [0x232]), (0x23C, [0x23B]), (0x23F, [0x2C7E]), (0x240, [0x2C7F]), (0x242, [0x241]),
     (0x247, [0x246]), (0x249, [0x248]), (0x24B, [0x24A]), (0x24D, [0x24C]), (0x24F, [0x24E]),
     (0x250, [0x2C6F]), (0x251, [0x2C6D]), (0x252, [0x2C70]), (0x253, [0x181]), (0x254, [0x186]),
     (0x256, [0x189]), (0x257, [0x18A]), (0x259, [0x18F]), (0x25B, [0x190]), (0x25C, [0xA7AB]),
     (0x260, [0x193]), (0x261, [0xA7AC]), (0x263, [0x194]), (0x265, [0xA78D]), (0x266, [0xA7AA]),
     (0x268, [0x197])]"

definition upper_table_3 :: "(nat \<times> nat list) list" where
  "upper_table_3 =
    [(0x269, [0x196]), (0x26A, [0xA7AE]), (0x26B, [0x2C62]), (0x26C, [0xA7AD]), (0x26F, [0x19C]),
     (0x271, [0x2C6E]), (0x272, [0x19D]), (0x275, [0x19F]), (0x27D, [0x2C64]), (0x280, [0x1A6]),
     (0x282, [0xA7C5]), (0x283, [0x1A9]), (0x287, [0xA7B1]), (0x288, [0x1AE]), (0x289, [0x244]),
     (0x28A, [0x1B1]), (0x28B, [0x1B2]), (0x28C, [0x245]), (0x292, [0x1B7]), (0x29D, [0xA7B2]),
     (0x29E, [0xA7B0]), (0x345, [0x399]), (0x371, [0x370]), (0x373, [0x372]), (0x377, [0x376]),
     (0x37B, [0x3FD]), (0x37C, [0x3FE]), (0x37D, [0x3FF]), (0x390, [0x399, 0x308, 0x301]),
     (0x3AC, [0x386]), (0x3AD, [0x388]), (0x3AE, [0x389]), (0x3AF, [0x38A]),
     (0x3B0, [0x3A5, 0x308, 0x301]), (0x3B1, [0x391]), (0x3B2, [0x392]), (0x3B3, [0x393]),
     (0x3B4, [0x394]), (0x3B5, [0x395]), (0x3B6, [0x396]), (0x3B7, [0x397]), (0x3B8, [0x398]),
     (0x3B9, [0x399]), (0x3BA, [0x39A]), (0x3BB, [0x39B]), (0x3BC, [0x39C]), (0x3BD, [0x39D]),
     (0x3BE, [0x39E]), (0x3BF, [0x39F]), (0x3C0, [0x3A0]), (0x3C1, [0x3A1]), (0x3C2, [0x3A3]),
     (0x3C3, [0x3A3]), (0x3C4, [0x3A4]), (0x3C5, [0x3A5]), (0x3C6, [0x3A6]), (0x3C7, [0x3A7]),
     (0x3C8, [0x3A8]), (0x3C9, [0x3A9]), (0x3CA, [0x3AA]), (0x3CB, [0x3AB]), (0x3CC, [0x38C]),
     (0x3CD, [0x38E]), (0x3CE, [0x38F]), (0x3D0, [0x392]), (0x3D1, [0x398]), (0x3D5, [0x3A6]),
     (0x3D6, [0x3A0]), (0x3D7, [0x3CF]), (0x3D9, [0x3D8]), (0x3DB, [0x3DA]), (0x3DD, [0x3DC]),
     (0x3DF, [0x3DE]), (0x3E1, [0x3E0]), (0x3E3, [0x3E2]), (0x3E5, [0x3E4]), (0x3E7, [0x3E6]),
     (0x3E9, [0x3E8]), (0x3EB, [0x3EA]), (0x3ED, [0x3EC]), (0x3EF, [0x3EE]), (0x3F0, [0x39A]),
     (0x3F1, [0x3A1]), (0x3F2, [0x3F9]), (0x3F3, [0x37F]), (0x3F5, [0x395]), (0x3F8, [0x3F7]),
     (0x3FB, [0x3FA]), (0x430, [0x410]), (0x431, [0x411]), (0x432, [0x412]), (0x433, [0x413]),
     (0x434, [0x414]), (0x435, [0x415]), (0x436, [0x416]), (0x437, [0x417]), (0x438, [0x418]),
     (0x439, [0x419]), (0x43A, [0x41A]), (0x43B, [0x41B])]"

definition upper_table_4 :: "(nat \<times> nat list) list" where
  "upper_table_4 =
    [(0x43C, [0x41C]), (0x43D, [0x41D]), (0x43E, [0x41E]), (0x43F, [0x41F]), (0x440, [0x420]),
     (0x441, [0x421]), (0x442, [0x422]), (0x443, [0x423]), (0x444, [0x424]), (0x445, [0x425]),
     (0x446, [0x426]), (0x447, [0x427]), (0x448, [0x428]), (0x449, [0x429]), (0x44A, [0x42A]),
     (0x44B, [0x42B]), (0x44C, [0x42C]), (0x44D, [0x42D]), (0x44E, [0x42E]), (0x44F, [0x42F]),
     (0x450, [0x400]), (0x451, [0x401]), (0x452, [0x402]), (0x453, [0x403]), (0x454, [0x404]),
     (0x455, [0x405]), (0x456, [0x406]), (0x457, [0x407]), (0x458, [0x408]), (0x459, [0x409]),
     (0x45A, [0x40A]), (0x45B, [0x40B]), (0x45C, [0x40C]), (0x45D, [0x40D]), (0x45E, [0x40E]),
     (0x45F, [0x40F]), (0x461, [0x460]), (0x463, [0x462]), (0x465, [0x464]), (0x467, [0x466]),
     (0x469, [0x468]), (0x46B, [0x46A]), (0x46D, [0x46C]), (0x46F, [0x46E]), (0x471, [0x470]),
     (0x473, [0x472]), (0x475, [0x474]), (0x477, [0x476]), (0x479, [0x478]), (0x47B, [0x47A]),
     (0x47D, [0x47C]), (0x47F, [0x47E]), (0x481, [0x480]), (0x48B, [0x48A]), (0x48D, [0x48C]),
     (0x48F, [0x48E]), (0x491, [0x490]), (0x493, [0x492]), (0x495, [0x494]), (0x497, [0x496]),
     (0x499, [0x498]), (0x49B, [0x49A]), (0x49D, [0x49C]), (0x49F, [0x49E]), (0x4A1, [0x4A0]),
     (0x4A3, [0x4A2]), (0x4A5, [0x4A4]), (0x4A7, [0x4A6]), (0x4A9, [0x4A8]), (0x4AB, [0x4AA]),
     (0x4AD, [0x4AC]), (0x4AF, [0x4AE]), (0x4B1, [0x4B0]), (0x4B3, [0x4B2]), (0x4B5, [0x4B4]),
     (0x4B7, [0x4B6]), (0x4B9, [0x4B8]), (0x4BB, [0x4BA]), (0x4BD, [0x4BC]), (0x4BF, [0x4BE]),
     (0x4C2, [0x4C1]), (0x4C4, [0x4C3]), (0x4C6, [0x4C5]), (0x4C8, [0x4C7]), (0x4CA, [0x4C9]),
     (0x4CC, [0x4CB]), (0x4CE, [0x4CD]), (0x4CF, [0x4C0]), (0x4D1, [0x4D0]), (0x4D3, [0x4D2]),
     (0x4D5, [0x4D4]), (0x4D7, [0x4D6]), (0x4D9, [0x4D8]), (0x4DB, [0x4DA]), (0x4DD, [0x4DC]),
     (0x4DF, [0x4DE]), (0x4E1, [0x4E0]), (0x4E3, [0x4E2]), (0x4E5, [0x4E4]), (0x4E7, [0x4E6])]"

definition upper_table_5 :: "(nat \<times> nat list) list" where
  "upper_table_5 =
    [(0x4E9, [0x4E8]), (0x4EB, [0x4EA]), (0x4ED, [0x4EC]), (0x4EF, [0x4EE]), (0x4F1, [0x4F0]),
     (0x4F3, [0x4F2]), (0x4F5, [0x4F4]), (0x4F7, [0x4F6]), (0x4F9, [0x4F8]), (0x4FB, [0x4FA]),
     (0x4FD, [0x4FC]), (0x4FF, [0x4FE]), (0x501, [0x500]), (0x503, [0x502]), (0x505, [0x504]),
     (0x507, [0x506]), (0x509, [0x508]), (0x50B, [0x50A]), (0x50D, [0x50C]), (0x50F, [0x50E]),
     (0x511, [0x510]), (0x513, [0x512]), (0x515, [0x514]), (0x517, [0x516]), (0x519, [0x518]),
     (0x51B, [0x51A]), (0x51D, [0x51C]), (0x51F, [0x51E]), (0x521, [0x520]), (0x523, [0x522]),
     (0x525, [0x524]), (0x527, [0x526]), (0x529, [0x528]), (0x52B, [0x52A]), (0x52D, [0x52C]),
     (0x52F, [0x52E]), (0x561, [0x531]), (0x562, [0x532]), (0x563, [0x533]), (0x564, [0x534]),
     (0x565, [0x535]), (0x566, [0x536]), (0x567, [0x537]), (0x568, [0x538]), (0x569, [0x539]),
     (0x56A, [0x53A]), (0x56B, [0x53B]), (0x56C, [0x53C]), (0x56D, [0x53D]), (0x56E, [0x53E]),
     (0x56F, [0x53F]), (0x570, [0x540]), (0x571, [0x541]), (0x572, [0x542]), (0x573, [0x543]),
     (0x574, [0x544]), (0x575, [0x545]), (0x576, [0x546]), (0x577, [0x547]), (0x578, [0x548]),
     (0x579, [0x549]), (0x57A, [0x54A]), (0x57B, [0x54B]), (0x57C, [0x54C]), (0x57D, [0x54D]),
     (0x57E, [0x54E]), (0x57F, [0x54F]), (0x580, [0x550]), (0x581, [0x551]), (0x582, [0x552]),
     (0x583, [0x553]), (0x584, [0x554]), (0x585, [0x555]), (0x586, [0x556]),
     (0x587, [0x535, 0x552]), (0x10D0, [0x1C90]), (0x10D1, [0x1C91]), (0x10D2, [0x1C92]),
     (0x10D3, [0x1C93]), (0x10D4, [0x1C94]), (0x10D5, [0x1C95]), (0x10D6, [0x1C96]),
     (0x10D7, [0x1C97]), (0x10D8, [0x1C98]), (0x10D9, [0x1C99]), (0x10DA, [0x1C9A]),
     (0x10DB, [0x1C9B]), (0x10DC, [0x1C9C]), (0x10DD, [0x1C9D]), (0x10DE, [0x1C9E]),
     (0x10DF, [0x1C9F]), (0x10E0, [0x1CA0]), (0x10E1, [0x1CA1]), (0x10E2, [0x1CA2]),
     (0x10E3, [0x1CA3]), (0x10E4, [0x1CA4]), (0x10E5, [0x1CA5]), (0x10E6, [0x1CA6]),
     (0x10E7, [0x1CA7]), (0x10E8, [0x1CA8])]"

definition upper_table_6 :: "(nat \<times> nat list) list" where
  "upper_table_6 =
    [(0x10E9, [0x1CA9]), (0x10EA, [0x1CAA]), (0x10EB, [0x1CAB]), (0x10EC, [0x1CAC]),
     (0x10ED, [0x1CAD]), (0x10EE, [0x1CAE]), (0x10EF, [0x1CAF]), (0x10F0, [0x1CB0]),
     (0x10F1, [0x1CB1]), (0x10F2, [0x1CB2]), (0x10F3, [0x1CB3]), (0x10F4, [0x1CB4]),
     (0x10F5, [0x1CB5]), (0x10F6, [0x1CB6]), (0x10F7, [0x1CB7]), (0x10F8, [0x1CB8]),
     (0x10F9, [0x1CB9]), (0x10FA, [0x1CBA]), (0x10FD, [0x1CBD]), (0x10FE, [0x1CBE]),
     (0x10FF, [0x1CBF]), (0x13F8, [0x13F0]), (0x13F9, [0x13F1]), (0x13FA, [0x13F2]),
     (0x13FB, [0x13F3]), (0x13FC, [0x13F4]), (0x13FD, [0x13F5]), (0x1C80, [0x412]),
     (0x1C81, [0x414]), (0x1C82, [0x41E]), (0x1C83, [0x421]), (0x1C84, [0x422]),
     (0x1C85, [0x422]), (0x1C86, [0x42A]), (0x1C87, [0x462]), (0x1C88, [0xA64A]),
     (0x1D79, [0xA77D]), (0x1D7D, [0x2C63]), (0x1D8E, [0xA7C6]), (0x1E01, [0x1E00]),
     (0x1E03, [0x1E02]), (0x1E05, [0x1E04]), (0x1E07, [0x1E06]), (0x1E09, [0x1E08]),
     (0x1E0B, [0x1E0A]), (0x1E0D, [0x1E0C]), (0x1E0F, [0x1E0E]), (0x1E11, [0x1E10]),
     (0x1E13, [0x1E12]), (0x1E15, [0x1E14]), (0x1E17, [0x1E16]), (0x1E19, [0x1E18]),
     (0x1E1B, [0x1E1A]), (0x1E1D, [0x1E1C]), (0x1E1F, [0x1E1E]), (0x1E21, [0x1E20]),
     (0x1E23, [0x1E22]), (0x1E25, [0x1E24]), (0x1E27, [0x1E26]), (0x1E29, [0x1E28]),
     (0x1E2B, [0x1E2A]), (0x1E2D, [0x1E2C]), (0x1E2F, [0x1E2E]), (0x1E31, [0x1E30]),
     (0x1E33, [0x1E32]), (0x1E35, [0x1E34]), (0x1E37, [0x1E36]), (0x1E39, [0x1E38]),
     (0x1E3B, [0x1E3A]), (0x1E3D, [0x1E3C]), (0x1E3F, [0x1E3E]), (0x1E41, [0x1E40]),
     (0x1E43, [0x1E42]), (0x1E45, [0x1E44]), (0x1E47, [0x1E46]), (0x1E49, [0x1E48]),
     (0x1E4B, [0x1E4A]), (0x1E4D, [0x1E4C]), (0x1E4F, [0x1E4E]), (0x1E51, [0x1E50]),
     (0x1E53, [0x1E52]), (0x1E55, [0x1E54]), (0x1E57, [0x1E56]), (0x1E59, [0x1E58]),
     (0x1E5B, [0x1E5A]), (0x1E5D, [0x1E5C]), (0x1E5F, [0x1E5E]), (0x1E61, [0x1E60]),
     (0x1E63, [0x1E62]), (0x1E65, [0x1E64]), (0x1E67, [0x1E66]), (0x1E69, [0x1E68]),
     (0x1E6B, [0x1E6A]), (0x1E6D, [0x1E6C]), (0x1E6F, [0x1E6E]), (0x1E71, [0x1E70]),
     (0x1E73, [0x1E72]), (0x1E75, [0x1E74]), (0x1E77, [0x1E76]), (0x1E79, [0x1E78])]"

definition upper_table_7 :: "(nat \<times> nat list) list" where
  "upper_table_7 =
    [(0x1E7B, [0x1E7A]), (0x1E7D, [0x1E7C]), (0x1E7F, [0x1E7E]), (0x1E81, [0x1E80]),
     (0x1E83, [0x1E82]), (0x1E85, [0x1E84]), (0x1E87, [0x1E86]), (0x1E89, [0x1E88]),
     (0x1E8B, [0x1E8A]), (0x1E8D, [0x1E8C]), (0x1E8F, [0x1E8E]), (0x1E91, [0x1E90]),
     (0x1E93, [0x1E92]), (0x1E95, [0x1E94]), (0x1E96, [0x48, 0x331]), (0x1E97, [0x54, 0x308]),
     (0x1E98, [0x57, 0x30A]), (0x1E99, [0x59, 0x30A]), (0x1E9A, [0x41, 0x2BE]),
     (0x1E9B, [0x1E60]), (0x1EA1, [0x1EA0]), (0x1EA3, [0x1EA2]), (0x1EA5, [0x1EA4]),
     (0x1EA7, [0x1EA6]), (0x1EA9, [0x1EA8]), (0x1EAB, [0x1EAA]), (0x1EAD, [0x1EAC]),
     (0x1EAF, [0x1EAE]), (0x1EB1, [0x1EB0]), (0x1EB3, [0x1EB2]), (0x1EB5, [0x1EB4]),
     (0x1EB7, [0x1EB6]), (0x1EB9, [0x1EB8]), (0x1EBB, [0x1EBA]), (0x1EBD, [0x1EBC]),
     (0x1EBF, [0x1EBE]), (0x1EC1, [0x1EC0]), (0x1EC3, [0x1EC2]), (0x1EC5, [0x1EC4]),
     (0x1EC7, [0x1EC6]), (0x1EC9, [0x1EC8]), (0x1ECB, [0x1ECA]), (0x1ECD, [0x1ECC]),
     (0x1ECF, [0x1ECE]), (0x1ED1, [0x1ED0]), (0x1ED3, [0x1ED2]), (0x1ED5, [0x1ED4]),
     (0x1ED7, [0x1ED6]), (0x1ED9, [0x1ED8]), (0x1EDB, [0x1EDA]), (0x1EDD, [0x1EDC]),
     (0x1EDF, [0x1EDE]), (0x1EE1, [0x1EE0]), (0x1EE3, [0x1EE2]), (0x1EE5, [0x1EE4]),
     (0x1EE7, [0x1EE6]), (0x1EE9, [0x1EE8]), (0x1EEB, [0x1EEA]), (0x1EED, [0x1EEC]),
     (0x1EEF, [0x1EEE]), (0x1EF1, [0x1EF0]), (0x1EF3, [0x1EF2]), (0x1EF5, [0x1EF4]),
     (0x1EF7, [0x1EF6]), (0x1EF9, [0x1EF8]), (0x1EFB, [0x1EFA]), (0x1EFD, [0x1EFC]),
     (0x1EFF, [0x1EFE]), (0x1F00, [0x1F08]), (0x1F01, [0x1F09]), (0x1F02, [0x1F0A]),
     (0x1F03, [0x1F0B]), (0x1F04, [0x1F0C]), (0x1F05, [0x1F0D]), (0x1F06, [0x1F0E]),
     (0x1F07, [0x1F0F]), (0x1F10, [0x1F18]), (0x1F11, [0x1F19]), (0x1F12, [0x1F1A]),
     (0x1F13, [0x1F1B]), (0x1F14, [0x1F1C]), (0x1F15, [0x1F1D]), (0x1F20, [0x1F28]),
     (0x1F21, [0x1F29]), (0x1F22, [0x1F2A]), (0x1F23, [0x1F2B]), (0x1F24, [0x1F2C]),
     (0x1F25, [0x1F2D]), (0x1F26, [0x1F2E]), (0x1F27, [0x1F2F]), (0x1F30, [0x1F38]),
     (0x1F31, [0x1F39]), (0x1F32, [0x1F3A]), (0x1F33, [0x1F3B]), (0x1F34, [0x1F3C]),
     (0x1F35, [0x1F3D]), (0x1F36, [0x1F3E]), (0x1F37, [0x1F3F]), (0x1F40, [0x1F48]),
     (0x1F41, [0x1F49])]"

definition upper_table_8 :: "(nat \<times> nat list) list" where
  "upper_table_8 =
    [(0x1F42, [0x1F4A]), (0x1F43, [0x1F4B]), (0x1F44, [0x1F4C]), (0x1F45, [0x1F4D]),
     (0x1F50, [0x3A5, 0x313]), (0x1F51, [0x1F59]), (0x1F52, [0x3A5, 0x313, 0x300]),
     (0x1F53, [0x1F5B]), (0x1F54, [0x3A5, 0x313, 0x301]), (0x1F55, [0x1F5D]),
     (0x1F56, [0x3A5, 0x313, 0x342]), (0x1F57, [0x1F5F]), (0x1F60, [0x1F68]), (0x1F61, [0x1F69]),
     (0x1F62, [0x1F6A]), (0x1F63, [0x1F6B]), (0x1F64, [0x1F6C]), (0x1F65, [0x1F6D]),
     (0x1F66, [0x1F6E]), (0x1F67, [0x1F6F]), (0x1F70, [0x1FBA]), (0x1F71, [0x1FBB]),
     (0x1F72, [0x1FC8]), (0x1F73, [0x1FC9]), (0x1F74, [0x1FCA]), (0x1F75, [0x1FCB]),
     (0x1F76, [0x1FDA]), (0x1F77, [0x1FDB]), (0x1F78, [0x1FF8]), (0x1F79, [0x1FF9]),
     (0x1F7A, [0x1FEA]), (0x1F7B, [0x1FEB]), (0x1F7C, [0x1FFA]), (0x1F7D, [0x1FFB]),
     (0x1F80, [0x1F08, 0x399]), (0x1F81, [0x1F09, 0x399]), (0x1F82, [0x1F0A, 0x399]),
     (0x1F83, [0x1F0B, 0x399]), (0x1F84, [0x1F0C, 0x399]), (0x1F85, [0x1F0D, 0x399]),
     (0x1F86, [0x1F0E, 0x399]), (0x1F87, [0x1F0F, 0x399]), (0x1F88, [0x1F08, 0x399]),
     (0x1F89, [0x1F09, 0x399]), (0x1F8A, [0x1F0A, 0x399]), (0x1F8B, [0x1F0B, 0x399]),
     (0x1F8C, [0x1F0C, 0x399]), (0x1F8D, [0x1F0D, 0x399]), (0x1F8E, [0x1F0E, 0x399]),
     (0x1F8F, [0x1F0F, 0x399]), (0x1F90, [0x1F28, 0x399]), (0x1F91, [0x1F29, 0x399]),
     (0x1F92, [0x1F2A, 0x399]), (0x1F93, [0x1F2B, 0x399]), (0x1F94, [0x1F2C, 0x399]),
     (0x1F95, [0x1F2D, 0x399]), (0x1F96, [0x1F2E, 0x399]), (0x1F97, [0x1F2F, 0x399]),
     (0x1F98, [0x1F28, 0x399]), (0x1F99, [0x1F29, 0x399]), (0x1F9A, [0x1F2A, 0x399]),
     (0x1F9B, [0x1F2B, 0x399]), (0x1F9C, [0x1F2C, 0x399]), (0x1F9D, [0x1F2D, 0x399]),
     (0x1F9E, [0x1F2E, 0x399]), (0x1F9F, [0x1F2F, 0x399]), (0x1FA0, [0x1F68, 0x399]),
     (0x1FA1, [0x1F69, 0x399]), (0x1FA2, [0x1F6A, 0x399]), (0x1FA3, [0x1F6B, 0x399]),
     (0x1FA4, [0x1F6C, 0x399]), (0x1FA5, [0x1F6D, 0x399]), (0x1FA6, [0x1F6E, 0x399]),
     (0x1FA7, [0x1F6F, 0x399]), (0x1FA8, [0x1F68, 0x399]), (0x1FA9, [0x1F69, 0x399]),
     (0x1FAA, [0x1F6A, 0x399]), (0x1FAB, [0x1F6B, 0x399]), (0x1FAC, [0x1F6C, 0x399]),
     (0x1FAD, [0x1F6D, 0x399]), (0x1FAE, [0x1F6E, 0x399]), (0x1FAF, [0x1F6F, 0x399]),
     (0x1FB0, [0x1FB8]), (0x1FB1, [0x1FB9]), (0x1FB2, [0x1FBA, 0x399]), (0x1FB3, [0x391, 0x399]),
     (0x1FB4, [0x386, 0x399]), (0x1FB6, [0x391, 0x342]), (0x1FB7, [0x391, 0x342, 0x399]),
     (0x1FBC, [0x391, 0x399]), (0x1FBE, [0x399]), (0x1FC2, [0x1FCA, 0x399]),
     (0x1FC3, [0x397, 0x399]), (0x1FC4, [0x389, 0x399]), (0x1FC6, [0x397, 0x342]),
     (0x1FC7, [0x397, 0x342, 0x399]), (0x1FCC, [0x397, 0x399]), (0x1FD0, [0x1FD8]),
     (0x1FD1, [0x1FD9]), (0x1FD2, [0x399, 0x308, 0x300])]"

definition upper_table_9 :: "(nat \<times> nat list) list" where
  "upper_table_9 =
    [(0x1FD3, [0x399, 0x308, 0x301]), (0x1FD6, [0x399, 0x342]), (0x1FD7, [0x399, 0x308, 0x342]),
     (0x1FE0, [0x1FE8]), (0x1FE1, [0x1FE9]), (0x1FE2, [0x3A5, 0x308, 0x300]),
     (0x1FE3, [0x3A5, 0x308, 0x301]), (0x1FE4, [0x3A1, 0x313]), (0x1FE5, [0x1FEC]),
     (0x1FE6, [0x3A5, 0x342]), (0x1FE7, [0x3A5, 0x308, 0x342]), (0x1FF2, [0x1FFA, 0x399]),
     (0x1FF3, [0x3A9, 0x399]), (0x1FF4, [0x38F, 0x399]), (0x1FF6, [0x3A9, 0x342]),
     (0x1FF7, [0x3A9, 0x342, 0x399]), (0x1FFC, [0x3A9, 0x399]), (0x214E, [0x2132]),
     (0x2170, [0x2160]), (0x2171, [0x2161]), (0x2172, [0x2162]), (0x2173, [0x2163]),
     (0x2174, [0x2164]), (0x2175, [0x2165]), (0x2176, [0x2166]), (0x2177, [0x2167]),
     (0x2178, [0x2168]), (0x2179, [0x2169]), (0x217A, [0x216A]), (0x217B, [0x216B]),
     (0x217C, [0x216C]), (0x217D, [0x216D]), (0x217E, [0x216E]), (0x217F, [0x216F]),
     (0x2184, [0x2183]), (0x24D0, [0x24B6]), (0x24D1, [0x24B7]), (0x24D2, [0x24B8]),
     (0x24D3, [0x24B9]), (0x24D4, [0x24BA]), (0x24D5, [0x24BB]), (0x24D6, [0x24BC]),
     (0x24D7, [0x24BD]), (0x24D8, [0x24BE]), (0x24D9, [0x24BF]), (0x24DA, [0x24C0]),
     (0x24DB, [0x24C1]), (0x24DC, [0x24C2]), (0x24DD, [0x24C3]), (0x24DE, [0x24C4]),
     (0x24DF, [0x24C5]), (0x24E0, [0x24C6]), (0x24E1, [0x24C7]), (0x24E2, [0x24C8]),
     (0x24E3, [0x24C9]), (0x24E4, [0x24CA]), (0x24E5, [0x24CB]), (0x24E6, [0x24CC]),
     (0x24E7, [0x24CD]), (0x24E8, [0x24CE]), (0x24E9, [0x24CF]), (0x2C30, [0x2C00]),
     (0x2C31, [0x2C01]), (0x2C32, [0x2C02]), (0x2C33, [0x2C03]), (0x2C34, [0x2C04]),
     (0x2C35, [0x2C05]), (0x2C36, [0x2C06]), (0x2C37, [0x2C07]), (0x2C38, [0x2C08]),
     (0x2C39, [0x2C09]), (0x2C3A, [0x2C0A]), (0x2C3B, [0x2C0B]), (0x2C3C, [0x2C0C]),
     (0x2C3D, [0x2C0D]), (0x2C3E, [0x2C0E]), (0x2C3F, [0x2C0F]), (0x2C40, [0x2C10]),
     (0x2C41, [0x2C11]), (0x2C42, [0x2C12]), (0x2C43, [0x2C13]), (0x2C44, [0x2C14]),
     (0x2C45, [0x2C15]), (0x2C46, [0x2C16]), (0x2C47, [0x2C17]), (0x2C48, [0x2C18]),
     (0x2C49, [0x2C19]), (0x2C4A, [0x2C1A]), (0x2C4B, [0x2C1B]), (0x2C4C, [0x2C1C]),
     (0x2C4D, [0x2C1D]), (0x2C4E, [0x2C1E]), (0x2C4F, [0x2C1F]), (0x2C50, [0x2C20]),
     (0x2C51, [0x2C21]), (0x2C52, [0x2C22]), (0x2C53, [0x2C23]), (0x2C54, [0x2C24]),
     (0x2C55, [0x2C25]), (0x2C56, [0x2C26])]"

definition upper_table_10 :: "(nat \<times> nat list) list" where
  "upper_table_10 =
    [(0x2C57, [0x2C27]), (0x2C58, [0x2C28]), (0x2C59, [0x2C29]), (0x2C5A, [0x2C2A]),
     (0x2C5B, [0x2C2B]), (0x2C5C, [0x2C2C]), (0x2C5D, [0x2C2D]), (0x2C5E, [0x2C2E]),
     (0x2C5F, [0x2C2F]), (0x2C61, [0x2C60]), (0x2C65, [0x23A]), (0x2C66, [0x23E]),
     (0x2C68, [0x2C67]), (0x2C6A, [0x2C69]), (0x2C6C, [0x2C6B]), (0x2C73, [0x2C72]),
     (0x2C76, [0x2C75]), (0x2C81, [0x2C80]), (0x2C83, [0x2C82]), (0x2C85, [0x2C84]),
     (0x2C87, [0x2C86]), (0x2C89, [0x2C88]), (0x2C8B, [0x2C8A]), (0x2C8D, [0x2C8C]),
     (0x2C8F, [0x2C8E]), (0x2C91, [0x2C90]), (0x2C93, [0x2C92]), (0x2C95, [0x2C94]),
     (0x2C97, [0x2C96]), (0x2C99, [0x2C98]), (0x2C9B, [0x2C9A]), (0x2C9D, [0x2C9C]),
     (0x2C9F, [0x2C9E]), (0x2CA1, [0x2CA0]), (0x2CA3, [0x2CA2]), (0x2CA5, [0x2CA4]),
     (0x2CA7, [0x2CA6]), (0x2CA9, [0x2CA8]), (0x2CAB, [0x2CAA]), (0x2CAD, [0x2CAC]),
     (0x2CAF, [0x2CAE]), (0x2CB1, [0x2CB0]), (0x2CB3, [0x2CB2]), (0x2CB5, [0x2CB4]),
     (0x2CB7, [0x2CB6]), (0x2CB9, [0x2CB8]), (0x2CBB, [0x2CBA]), (0x2CBD, [0x2CBC]),
     (0x2CBF, [0x2CBE]), (0x2CC1, [0x2CC0]), (0x2CC3, [0x2CC2]), (0x2CC5, [0x2CC4]),
     (0x2CC7, [0x2CC6]), (0x2CC9, [0x2CC8]), (0x2CCB, [0x2CCA]), (0x2CCD, [0x2CCC]),
     (0x2CCF, [0x2CCE]), (0x2CD1, [0x2CD0]), (0x2CD3, [0x2CD2]), (0x2CD5, [0x2CD4]),
     (0x2CD7, [0x2CD6]), (0x2CD9, [0x2CD8]), (0x2CDB, [0x2CDA]), (0x2CDD, [0x2CDC]),
     (0x2CDF, [0x2CDE]), (0x2CE1, [0x2CE0]), (0x2CE3, [0x2CE2]), (0x2CEC, [0x2CEB]),
     (0x2CEE, [0x2CED]), (0x2CF3, [0x2CF2]), (0x2D00, [0x10A0]), (0x2D01, [0x10A1]),
     (0x2D02, [0x10A2]), (0x2D03, [0x10A3]), (0x2D04, [0x10A4]), (0x2D05, [0x10A5]),
     (0x2D06, [0x10A6]), (0x2D07, [0x10A7]), (0x2D08, [0x10A8]), (0x2D09, [0x10A9]),
     (0x2D0A, [0x10AA]), (0x2D0B, [0x10AB]), (0x2D0C, [0x10AC]), (0x2D0D, [0x10AD]),
     (0x2D0E, [0x10AE]), (0x2D0F, [0x10AF]), (0x2D10, [0x10B0]), (0x2D11, [0x10B1]),
     (0x2D12, [0x10B2]), (0x2D13, [0x10B3]), (0x2D14, [0x10B4]), (0x2D15, [0x10B5]),
     (0x2D16, [0x10B6]), (0x2D17, [0x10B7]), (0x2D18, [0x10B8]), (0x2D19, [0x10B9]),
     (0x2D1A, [0x10BA]), (0x2D1B, [0x10BB]), (0x2D1C, [0x10BC]), (0x2D1D, [0x10BD])]"

definition upper_table_11 :: "(nat \<times> nat list) list" where
  "upper_table_11 =
    [(0x2D1E, [0x10BE]), (0x2D1F, [0x10BF]), (0x2D20, [0x10C0]), (0x2D21, [0x10C1]),
     (0x2D22, [0x10C2]), (0x2D23, [0x10C3]), (0x2D24, [0x10C4]), (0x2D25, [0x10C5]),
     (0x2D27, [0x10C7]), (0x2D2D, [0x10CD]), (0xA641, [0xA640]), (0xA643, [0xA642]),
     (0xA645, [0xA644]), (0xA647, [0xA646]), (0xA649, [0xA648]), (0xA64B, [0xA64A]),
     (0xA64D, [0xA64C]), (0xA64F, [0xA64E]), (0xA651, [0xA650]), (0xA653, [0xA652]),
     (0xA655, [0xA654]), (0xA657, [0xA656]), (0xA659, [0xA658]), (0xA65B, [0xA65A]),
     (0xA65D, [0xA65C]), (0xA65F, [0xA65E]), (0xA661, [0xA660]), (0xA663, [0xA662]),
     (0xA665, [0xA664]), (0xA667, [0xA666]), (0xA669, [0xA668]), (0xA66B, [0xA66A]),
     (0xA66D, [0xA66C]), (0xA681, [0xA680]), (0xA683, [0xA682]), (0xA685, [0xA684]),
     (0xA687, [0xA686]), (0xA689, [0xA688]), (0xA68B, [0xA68A]), (0xA68D, [0xA68C]),
     (0xA68F, [0xA68E]), (0xA691, [0xA690]), (0xA693, [0xA692]), (0xA695, [0xA694]),
     (0xA697, [0xA696]), (0xA699, [0xA698]), (0xA69B, [0xA69A]), (0xA723, [0xA722]),
     (0xA725, [0xA724]), (0xA727, [0xA726]), (0xA729, [0xA728]), (0xA72B, [0xA72A]),
     (0xA72D, [0xA72C]), (0xA72F, [0xA72E]), (0xA733, [0xA732]), (0xA735, [0xA734]),
     (0xA737, [0xA736]), (0xA739, [0xA738]), (0xA73B, [0xA73A]), (0xA73D, [0xA73C]),
     (0xA73F, [0xA73E]), (0xA741, [0xA740]), (0xA743, [0xA742]), (0xA745, [0xA744]),
     (0xA747, [0xA746]), (0xA749, [0xA748]), (0xA74B, [0xA74A]), (0xA74D, [0xA74C]),
     (0xA74F, [0xA74E]), (0xA751, [0xA750]), (0xA753, [0xA752]), (0xA755, [0xA754]),
     (0xA757, [0xA756]), (0xA759, [0xA758]), (0xA75B, [0xA75A]), (0xA75D, [0xA75C]),
     (0xA75F, [0xA75E]), (0xA761, [0xA760]), (0xA763, [0xA762]), (0xA765, [0xA764]),
     (0xA767, [0xA766]), (0xA769, [0xA768]), (0xA76B, [0xA76A]), (0xA76D, [0xA76C]),
     (0xA76F, [0xA76E]), (0xA77A, [0xA779]), (0xA77C, [0xA77B]), (0xA77F, [0xA77E]),
     (0xA781, [0xA780]), (0xA783, [0xA782]), (0xA785, [0xA784]), (0xA787, [0xA786]),
     (0xA78C, [0xA78B]), (0xA791, [0xA790]), (0xA793, [0xA792]), (0xA794, [0xA7C4]),
     (0xA797, [0xA796]), (0xA799, [0xA798]), (0xA79B, [0xA79A]), (0xA79D, [0xA79C])]"

definition upper_table_12 :: "(nat \<times> nat list) list" where
  "upper_table_12 =
    [(0xA79F, [0xA79E]), (0xA7A1, [0xA7A0]), (0xA7A3, [0xA7A2]), (0xA7A5, [0xA7A4]),
     (0xA7A7, [0xA7A6]), (0xA7A9, [0xA7A8]), (0xA7B5, [0xA7B4]), (0xA7B7, [0xA7B6]),
     (0xA7B9, [0xA7B8]), (0xA7BB, [0xA7BA]), (0xA7BD, [0xA7BC]), (0xA7BF, [0xA7BE]),
     (0xA7C1, [0xA7C0]), (0xA7C3, [0xA7C2]), (0xA7C8, [0xA7C7]), (0xA7CA, [0xA7C9]),
     (0xA7D1, [0xA7D0]), (0xA7D7, [0xA7D6]), (0xA7D9, [0xA7D8]), (0xA7F6, [0xA7F5]),
     (0xAB53, [0xA7B3]), (0xAB70, [0x13A0]), (0xAB71, [0x13A1]), (0xAB72, [0x13A2]),
     (0xAB73, [0x13A3]), (0xAB74, [0x13A4]), (0xAB75, [0x13A5]), (0xAB76, [0x13A6]),
     (0xAB77, [0x13A7]), (0xAB78, [0x13A8]), (0xAB79, [0x13A9]), (0xAB7A, [0x13AA]),
     (0xAB7B, [0x13AB]), (0xAB7C, [0x13AC]), (0xAB7D, [0x13AD]), (0xAB7E, [0x13AE]),
     (0xAB7F, [0x13AF]), (0xAB80, [0x13B0]), (0xAB81, [0x13B1]), (0xAB82, [0x13B2]),
     (0xAB83, [0x13B3]), (0xAB84, [0x13B4]), (0xAB85, [0x13B5]), (0xAB86, [0x13B6]),
     (0xAB87, [0x13B7]), (0xAB88, [0x13B8]), (0xAB89, [0x13B9]), (0xAB8A, [0x13BA]),
     (0xAB8B, [0x13BB]), (0xAB8C, [0x13BC]), (0xAB8D, [0x13BD]), (0xAB8E, [0x13BE]),
     (0xAB8F, [0x13BF]), (0xAB90, [0x13C0]), (0xAB91, [0x13C1]), (0xAB92, [0x13C2]),
     (0xAB93, [0x13C3]), (0xAB94, [0x13C4]), (0xAB95, [0x13C5]), (0xAB96, [0x13C6]),
     (0xAB97, [0x13C7]), (0xAB98, [0x13C8]), (0xAB99, [0x13C9]), (0xAB9A, [0x13CA]),
     (0xAB9B, [0x13CB]), (0xAB9C, [0x13CC]), (0xAB9D, [0x13CD]), (0xAB9E, [0x13CE]),
     (0xAB9F, [0x13CF]), (0xABA0, [0x13D0]), (0xABA1, [0x13D1]), (0xABA2, [0x13D2]),
     (0xABA3, [0x13D3]), (0xABA4, [0x13D4]), (0xABA5, [0x13D5]), (0xABA6, [0x13D6]),
     (0xABA7, [0x13D7]), (0xABA8, [0x13D8]), (0xABA9, [0x13D9]), (0xABAA, [0x13DA]),
     (0xABAB, [0x13DB]), (0xABAC, [0x13DC]), (0xABAD, [0x13DD]), (0xABAE, [0x13DE]),
     (0xABAF, [0x13DF]), (0xABB0, [0x13E0]), (0xABB1, [0x13E1]), (0xABB2, [0x13E2]),
     (0xABB3, [0x13E3]), (0xABB4, [0x13E4]), (0xABB5, [0x13E5]), (0xABB6, [0x13E6]),
     (0xABB7, [0x13E7]), (0xABB8, [0x13E8]), (0xABB9, [0x13E9]), (0xABBA, [0x13EA]),
     (0xABBB, [0x13EB]), (0xABBC, [0x13EC]), (0xABBD, [0x13ED]), (0xABBE, [0x13EE])]"

definition upper_table_13 :: "(nat \<times> nat list) list" where
  "upper_table_13 =
    [(0xABBF, [0x13EF]), (0xFB00, [0x46, 0x46]), (0xFB01, [0x46, 0x49]), (0xFB02, [0x46, 0x4C]),
     (0xFB03, [0x46, 0x46, 0x49]), (0xFB04, [0x46, 0x46, 0x4C]), (0xFB05, [0x53, 0x54]),
     (0xFB06, [0x53, 0x54]), (0xFB13, [0x544, 0x546]), (0xFB14, [0x544, 0x535]),
     (0xFB15, [0x544, 0x53B]), (0xFB16, [0x54E, 0x546]), (0xFB17, [0x544, 0x53D]),
     (0xFF41, [0xFF21]), (0xFF42, [0xFF22]), (0xFF43, [0xFF23]), (0xFF44, [0xFF24]),
     (0xFF45, [0xFF25]), (0xFF46, [0xFF26]), (0xFF47, [0xFF27]), (0xFF48, [0xFF28]),
     (0xFF49, [0xFF29]), (0xFF4A, [0xFF2A]), (0xFF4B, [0xFF2B]), (0xFF4C, [0xFF2C]),
     (0xFF4D, [0xFF2D]), (0xFF4E, [0xFF2E]), (0xFF4F, [0xFF2F]), (0xFF50, [0xFF30]),
     (0xFF51, [0xFF31]), (0xFF52, [0xFF32]), (0xFF53, [0xFF33]), (0xFF54, [0xFF34]),
     (0xFF55, [0xFF35]), (0xFF56, [0xFF36]), (0xFF57, [0xFF37]), (0xFF58, [0xFF38]),
     (0xFF59, [0xFF39]), (0xFF5A, [0xFF3A]), (0x10428, [0x10400]), (0x10429, [0x10401]),
     (0x1042A, [0x10402]), (0x1042B, [0x10403]), (0x1042C, [0x10404]), (0x1042D, [0x10405]),
     (0x1042E, [0x10406]), (0x1042F, [0x10407]), (0x10430, [0x10408]), (0x10431, [0x10409]),
     (0x10432, [0x1040A]), (0x10433, [0x1040B]), (0x10434, [0x1040C]), (0x10435, [0x1040D]),
     (0x10436, [0x1040E]), (0x10437, [0x1040F]), (0x10438, [0x10410]), (0x10439, [0x10411]),
     (0x1043A, [0x10412]), (0x1043B, [0x10413]), (0x1043C, [0x10414]), (0x1043D, [0x10415]),
     (0x1043E, [0x10416]), (0x1043F, [0x10417]), (0x10440, [0x10418]), (0x10441, [0x10419]),
     (0x10442, [0x1041A]), (0x10443, [0x1041B]), (0x10444, [0x1041C]), (0x10445, [0x1041D]),
     (0x10446, [0x1041E]), (0x10447, [0x1041F]), (0x10448, [0x10420]), (0x10449, [0x10421]),
     (0x1044A, [0x10422]), (0x1044B, [0x10423]), (0x1044C, [0x10424]), (0x1044D, [0x10425]),
     (0x1044E, [0x10426]), (0x1044F, [0x10427]), (0x104D8, [0x104B0]), (0x104D9, [0x104B1]),
     (0x104DA, [0x104B2]), (0x104DB, [0x104B3]), (0x104DC, [0x104B4]), (0x104DD, [0x104B5]),
     (0x104DE, [0x104B6]), (0x104DF, [0x104B7]), (0x104E0, [0x104B8]), (0x104E1, [0x104B9]),
     (0x104E2, [0x104BA]), (0x104E3, [0x104BB]), (0x104E4, [0x104BC]), (0x104E5, [0x104BD]),
     (0x104E6, [0x104BE]), (0x104E7, [0x104BF]), (0x104E8, [0x104C0]), (0x104E9, [0x104C1]),
     (0x104EA, [0x104C2]), (0x104EB, [0x104C3]), (0x104EC, [0x104C4])]"

definition upper_table_14 :: "(nat \<times> nat list) list" where
  "upper_table_14 =
    [(0x104ED, [0x104C5]), (0x104EE, [0x104C6]), (0x104EF, [0x104C7]), (0x104F0, [0x104C8]),
     (0x104F1, [0x104C9]), (0x104F2, [0x104CA]), (0x104F3, [0x104CB]), (0x104F4, [0x104CC]),
     (0x104F5, [0x104CD]), (0x104F6, [0x104CE]), (0x104F7, [0x104CF]), (0x104F8, [0x104D0]),
     (0x104F9, [0x104D1]), (0x104FA, [0x104D2]), (0x104FB, [0x104D3]), (0x10597, [0x10570]),
     (0x10598, [0x10571]), (0x10599, [0x10572]), (0x1059A, [0x10573]), (0x1059B, [0x10574]),
     (0x1059C, [0x10575]), (0x1059D, [0x10576]), (0x1059E, [0x10577]), (0x1059F, [0x10578]),
     (0x105A0, [0x10579]), (0x105A1, [0x1057A]), (0x105A3, [0x1057C]), (0x105A4, [0x1057D]),
     (0x105A5, [0x1057E]), (0x105A6, [0x1057F]), (0x105A7, [0x10580]), (0x105A8, [0x10581]),
     (0x105A9, [0x10582]), (0x105AA, [0x10583]), (0x105AB, [0x10584]), (0x105AC, [0x10585]),
     (0x105AD, [0x10586]), (0x105AE, [0x10587]), (0x105AF, [0x10588]), (0x105B0, [0x10589]),
     (0x105B1, [0x1058A]), (0x105B3, [0x1058C]), (0x105B4, [0x1058D]), (0x105B5, [0x1058E]),
     (0x105B6, [0x1058F]), (0x105B7, [0x10590]), (0x105B8, [0x10591]), (0x105B9, [0x10592]),
     (0x105BB, [0x10594]), (0x105BC, [0x10595]), (0x10CC0, [0x10C80]), (0x10CC1, [0x10C81]),
     (0x10CC2, [0x10C82]), (0x10CC3, [0x10C83]), (0x10CC4, [0x10C84]), (0x10CC5, [0x10C85]),
     (0x10CC6, [0x10C86]), (0x10CC7, [0x10C87]), (0x10CC8, [0x10C88]), (0x10CC9, [0x10C89]),
     (0x10CCA, [0x10C8A]), (0x10CCB, [0x10C8B]), (0x10CCC, [0x10C8C]), (0x10CCD, [0x10C8D]),
     (0x10CCE, [0x10C8E]), (0x10CCF, [0x10C8F]), (0x10CD0, [0x10C90]), (0x10CD1, [0x10C91]),
     (0x10CD2, [0x10C92]), (0x10CD3, [0x10C93]), (0x10CD4, [0x10C94]), (0x10CD5, [0x10C95]),
     (0x10CD6, [0x10C96]), (0x10CD7, [0x10C97]), (0x10CD8, [0x10C98]), (0x10CD9, [0x10C99]),
     (0x10CDA, [0x10C9A]), (0x10CDB, [0x10C9B]), (0x10CDC, [0x10C9C]), (0x10CDD, [0x10C9D]),
     (0x10CDE, [0x10C9E]), (0x10CDF, [0x10C9F]), (0x10CE0, [0x10CA0]), (0x10CE1, [0x10CA1]),
     (0x10CE2, [0x10CA2]), (0x10CE3, [0x10CA3]), (0x10CE4, [0x10CA4]), (0x10CE5, [0x10CA5]),
     (0x10CE6, [0x10CA6]), (0x10CE7, [0x10CA7]), (0x10CE8, [0x10CA8]), (0x10CE9, [0x10CA9]),
     (0x10CEA, [0x10CAA]), (0x10CEB, [0x10CAB]), (0x10CEC, [0x10CAC]), (0x10CED, [0x10CAD]),
     (0x10CEE, [0x10CAE]), (0x10CEF, [0x10CAF]), (0x10CF0, [0x10CB0]), (0x10CF1, [0x10CB1])]"

definition upper_table_15 :: "(nat \<times> nat list) list" where
  "upper_table_15 =
    [(0x10CF2, [0x10CB2]), (0x118C0, [0x118A0]), (0x118C1, [0x118A1]), (0x118C2, [0x118A2]),
     (0x118C3, [0x118A3]), (0x118C4, [0x118A4]), (0x118C5, [0x118A5]), (0x118C6, [0x118A6]),
     (0x118C7, [0x118A7]), (0x118C8, [0x118A8]), (0x118C9, [0x118A9]), (0x118CA, [0x118AA]),
     (0x118CB, [0x118AB]), (0x118CC, [0x118AC]), (0x118CD, [0x118AD]), (0x118CE, [0x118AE]),
     (0x118CF, [0x118AF]), (0x118D0, [0x118B0]), (0x118D1, [0x118B1]), (0x118D2, [0x118B2]),
     (0x118D3, [0x118B3]), (0x118D4, [0x118B4]), (0x118D5, [0x118B5]), (0x118D6, [0x118B6]),
     (0x118D7, [0x118B7]), (0x118D8, [0x118B8]), (0x118D9, [0x118B9]), (0x118DA, [0x118BA]),
     (0x118DB, [0x118BB]), (0x118DC, [0x118BC]), (0x118DD, [0x118BD]), (0x118DE, [0x118BE]),
     (0x118DF, [0x118BF]), (0x16E60, [0x16E40]), (0x16E61, [0x16E41]), (0x16E62, [0x16E42]),
     (0x16E63, [0x16E43]), (0x16E64, [0x16E44]), (0x16E65, [0x16E45]), (0x16E66, [0x16E46]),
     (0x16E67, [0x16E47]), (0x16E68, [0x16E48]), (0x16E69, [0x16E49]), (0x16E6A, [0x16E4A]),
     (0x16E6B, [0x16E4B]), (0x16E6C, [0x16E4C]), (0x16E6D, [0x16E4D]), (0x16E6E, [0x16E4E]),
     (0x16E6F, [0x16E4F]), (0x16E70, [0x16E50]), (0x16E71, [0x16E51]), (0x16E72, [0x16E52]),
     (0x16E73, [0x16E53]), (0x16E74, [0x16E54]), (0x16E75, [0x16E55]), (0x16E76, [0x16E56]),
     (0x16E77, [0x16E57]), (0x16E78, [0x16E58]), (0x16E79, [0x16E59]), (0x16E7A, [0x16E5A]),
     (0x16E7B, [0x16E5B]), (0x16E7C, [0x16E5C]), (0x16E7D, [0x16E5D]), (0x16E7E, [0x16E5E]),
     (0x16E7F, [0x16E5F]), (0x1E922, [0x1E900]), (0x1E923, [0x1E901]), (0x1E924, [0x1E902]),
     (0x1E925, [0x1E903]), (0x1E926, [0x1E904]), (0x1E927, [0x1E905]), (0x1E928, [0x1E906]),
     (0x1E929, [0x1E907]), (0x1E92A, [0x1E908]), (0x1E92B, [0x1E909]), (0x1E92C, [0x1E90A]),
     (0x1E92D, [0x1E90B]), (0x1E92E, [0x1E90C]), (0x1E92F, [0x1E90D]), (0x1E930, [0x1E90E]),
     (0x1E931, [0x1E90F]), (0x1E932, [0x1E910]), (0x1E933, [0x1E911]), (0x1E934, [0x1E912]),
     (0x1E935, [0x1E913]), (0x1E936, [0x1E914]), (0x1E937, [0x1E915]), (0x1E938, [0x1E916]),
     (0x1E939, [0x1E917]), (0x1E93A, [0x1E918]), (0x1E93B, [0x1E919]), (0x1E93C, [0x1E91A]),
     (0x1E93D, [0x1E91B]), (0x1E93E, [0x1E91C]), (0x1E93F, [0x1E91D]), (0x1E940, [0x1E91E]),
     (0x1E941, [0x1E91F]), (0x1E942, [0x1E920]), (0x1E943, [0x1E921])]"

definition upper_table :: "(nat \<times> nat list) list" where
  "upper_table =
    upper_table_1 @ upper_table_2 @ upper_table_3 @ upper_table_4 @
    upper_table_5 @ upper_table_6 @ upper_table_7 @ upper_table_8 @
    upper_table_9 @ upper_table_10 @ upper_table_11 @ upper_table_12 @
    upper_table_13 @ upper_table_14 @ upper_table_15"

text \<open>
  \<open>str.upper()\<close>: every code point is replaced by its uppercase mapping, which may be
  several code points. Within ASCII only the letters a to z change; outside ASCII
  \<open>upper_table\<close> lists every code point that \<open>str.upper()\<close> of Python 3.11 (Unicode 14.0)
  changes, with what it becomes.
\<close>

definition upper_cp :: "nat \<Rightarrow> nat list" where
  "upper_cp n =
    (if n < 0x80 then (if 97 \<le> n \<and> n \<le> 122 then [n - 32] else [n])
     else case map_of upper_table n of Some u \<Rightarrow> u | None \<Rightarrow> [n])"

definition upper :: "string \<Rightarrow> string" where
  "upper s = utf8 (concat (map upper_cp (code_points s)))"

text \<open>An ASCII text, and the dotless i (U+0131) in UTF-8.\<close>

definition is_ascii :: "string \<Rightarrow> bool" where
  "is_ascii s = list_all (\<lambda>c. (of_char c :: nat) < 0x80) s"

definition dotless_i :: string where
  "dotless_i = [CHR 0xC4, CHR 0xB1]"

definition is_space :: "char \<Rightarrow> bool" where
  "is_space c = (let n = (of_char c :: nat) in (9 \<le> n \<and> n \<le> 13) \<or> (28 \<le> n \<and> n \<le> 32))"

text \<open>\<open>sub in s\<close>: scan \<open>s\<close> from the left for a position where \<open>sub\<close> starts.\<close>

fun contains :: "string \<Rightarrow> string \<Rightarrow> bool" where
  "contains sub [] = (sub = [])"
| "contains sub (c # cs) = (prefix sub (c # cs) \<or> contains sub cs)"

text \<open>
  \<open>s.split()\<close> with no separator: runs of whitespace separate the tokens, and leading and
  trailing whitespace gives no empty token. \<open>cur\<close> is the token being read.
\<close>

fun split_ws :: "string \<Rightarrow> string \<Rightarrow> string list" where
  "split_ws cur [] = (if cur = [] then [] else [cur])"
| "split_ws cur (c # cs) =
     (if is_space c then (if cur = [] then split_ws [] cs else cur # split_ws [] cs)
      else split_ws (cur @ [c]) cs)"

definition split :: "string \<Rightarrow> string list" where
  "split s = split_ws [] s"

section \<open>Deception scorer\<close>

definition rsquo :: string where
  "rsquo = [CHR 0xE2, CHR 0x80, CHR 0x99]"

definition hedge_words :: "string list" where
  "hedge_words =
    [''maybe'', ''perhaps'', ''possibly'', ''could be'', ''might be'', ''i guess'', ''i suppose'',
     ''i think'', ''i'' @ rsquo @ ''m not sure'', ''not really'', ''kind of'', ''sort of'',
     ''more or less'', ''i'' @ rsquo @ ''d say'', ''it seems like'', ''as far as i remember'',
     ''i believe'', ''to some extent'', ''you could say that'', ''depends'',
     ''that'' @ rsquo @ ''s hard to say'', ''let'' @ rsquo @ ''s just say'',
     ''i wouldn'' @ rsquo @ ''t say that exactly'', ''not exactly'', ''not technically'',
     ''in a way'', ''something like that'', ''i don'' @ rsquo @ ''t know'', ''i mean'',
     ''i guess you could say'', ''just'', ''only'', ''barely'', ''hardly'', ''a little'',
     ''not that much'', ''nothing major'', ''no big deal'', ''wasn'' @ rsquo @ ''t serious'',
     ''sorta'', ''kinda'', ''a tiny bit'', ''at some point'', ''a while back'', ''recently'',
     ''i think it was yesterday'', ''not sure when'', ''back then'', ''sometime'',
     ''earlier maybe'', ''can'' @ rsquo @ ''t remember exactly'', ''..'',
     ''wasn'' @ [CHR 0x27] @ ''t'', ''*'']"

definition contradiction_phrases :: "(string \<times> string) list" where
  "contradiction_phrases =
    [(''yes'', ''no''), (''never'', ''sometimes''), (''always'', ''not always'')]"

definition avoidance_phrases :: "string list" where
  "avoidance_phrases = [''idk'', ''don'' @ [CHR 0x27] @ ''t wanna say'', ''prefer not to answer'']"

text \<open>
  The score is a Python number that only ever holds a multiple of one half, so the
  rationals model it exactly. Each \<open>score = ...\<close> line below is one statement of the source.
\<close>

definition analyze_message :: "string \<Rightarrow> rat" where
  "analyze_message msg =
    (let score = 0;
         text = lower msg;
         score = (if list_ex (\<lambda>hw. contains hw text) hedge_words then score + 2 else score);
         score = (if length (split text) < 4 then score + 1 else score);
         score = fold (\<lambda>(a, b) score. if contains a text \<and> contains b text then score + 2 else score)
                   contradiction_phrases score;
         score = (if list_ex (\<lambda>p. contains p text) avoidance_phrases then score + 3 else score);
         score = (if contains ''?'' text then score - 1 / 2 else score)
     in score)"

text \<open>
  Two texts are case variants when they have the same length and agree character by
  character up to the case of an ASCII letter.
\<close>

definition case_variant_char :: "char \<Rightarrow> char \<Rightarrow> bool" where
  "case_variant_char a b = (a = b \<or> a = upper_char b \<or> a = lower_char b \<or> b = upper_char a \<or> b = lower_char a)"

definition case_variant :: "string \<Rightarrow> string \<Rightarrow> bool" where
  "case_variant s t = list_all2 case_variant_char s t"

section \<open>Rock paper scissors\<close>

text \<open>
  The random number generator is explicit state: \<open>draws\<close> is the sequence of numbers it
  will produce and \<open>used\<close> counts the draws made so far. \<open>random.choice(seq)\<close> takes one
  draw and returns the element at that index.
\<close>

record rng =
  draws :: "nat \<Rightarrow> nat"
  used :: nat

definition random_choice :: "'a list \<Rightarrow> rng \<Rightarrow> 'a \<times> rng" where
  "random_choice seq g = (seq ! (draws g (used g) mod length seq), g\<lparr>used := Suc (used g)\<rparr>)"

definition choices :: "string list" where
  "choices = [''rock'', ''paper'', ''scissors'']"

text \<open>The result is the dictionary the source returns, as its list of items.\<close>

definition rps_play :: "string \<Rightarrow> rng \<Rightarrow> (string \<times> string) list \<times> rng" where
  "rps_play player_choice g =
    (let player_choice = lower player_choice in
     if player_choice \<notin> set choices
     then ([(''error'', ''Invalid choice. Choose rock, paper, or scissors.'')], g)
     else
       let (comp_choice, g) = random_choice choices g;
           result =
             (if player_choice = comp_choice then ''tie''
              else if (player_choice = ''rock'' \<and> comp_choice = ''scissors'') \<or>
                      (player_choice = ''paper'' \<and> comp_choice = ''rock'') \<or>
                      (player_choice = ''scissors'' \<and> comp_choice = ''paper'')
              then ''win''
              else ''lose'')
       in ([(''player'', player_choice), (''computer'', comp_choice), (''result'', result)], g))"

section \<open>Topic summarizer\<close>

datatype py_error = AttributeError | TypeError | ValueError | ConnectionError

text \<open>\<open>s.strip()\<close>, \<open>sep.join(xs)\<close> and \<open>s.split('. ')\<close>; \<open>cur\<close> is the segment being read.\<close>

definition strip :: "string \<Rightarrow> string" where
  "strip s = rev (dropWhile is_space (rev (dropWhile is_space s)))"

fun join :: "string \<Rightarrow> string list \<Rightarrow> string" where
  "join sep [] = []"
| "join sep [x] = x"
| "join sep (x # y # ys) = x @ sep @ join sep (y # ys)"

fun split_dot_space :: "string \<Rightarrow> string \<Rightarrow> string list" where
  "split_dot_space cur [] = [cur]"
| "split_dot_space cur [c] = [cur @ [c]]"
| "split_dot_space cur (c # d # cs) =
     (if c = CHR ''.'' \<and> d = CHR '' '' then cur # split_dot_space [] cs
      else split_dot_space (cur @ [c]) (d # cs))"

text \<open>
  The page fetch and the HTML parser are outside the program: \<open>fetch url\<close> is either the
  exception \<open>requests.get\<close> raises, or the status code of the response together with
  \<open>p.get_text()\<close> of every paragraph that \<open>soup.select('#mw-content-text p')\<close> finds.
\<close>

definition get_wiki_intro :: "(string \<Rightarrow> py_error + int \<times> string list) \<Rightarrow> string \<Rightarrow> py_error + string" where
  "get_wiki_intro fetch topic =
    (let url = ''https://simple.wikipedia.org/wiki/'' @ map (\<lambda>c. if c = CHR '' '' then CHR ''_'' else c) topic
     in case fetch url of
          Inl e \<Rightarrow> Inl e
        | Inr (status_code, paragraphs) \<Rightarrow>
            if status_code \<noteq> 200 then Inr ''Sorry, I couldn't find that topic.''
            else
              let text = join '' '' (filter (\<lambda>p. strip p \<noteq> []) paragraphs);
                  lines = split_dot_space [] text;
                  summary = (if lines \<noteq> [] then join ''. '' (take 3 lines) @ ''.''
                             else ''No summary available.'')
              in Inr summary)"

section \<open>Request bodies\<close>

text \<open>
  What \<open>request.get_json()\<close> returns: \<open>None\<close>, a bool, an int, a float (a finite one is a
  rational number), a str, a list, or a dict given by its items in order, no key twice.
\<close>

datatype json =
  JNull | JBool bool | JInt int | JFloat rat | JStr string | JArr "json list"
  | JObj "(string \<times> json) list"

text \<open>\<open>d.get(key, default)\<close> on the items of a dict.\<close>

definition dict_get :: "(string \<times> json) list \<Rightarrow> string \<Rightarrow> json \<Rightarrow> json" where
  "dict_get kvs k dflt = (case map_of kvs k of Some v \<Rightarrow> v | None \<Rightarrow> dflt)"

text \<open>
  A value used as a dictionary key is hashed: lists and dicts raise \<open>TypeError\<close>, and
  \<open>True\<close>, \<open>1\<close> and \<open>1.0\<close> are one and the same key.
\<close>

datatype key = KNone | KNum rat | KStr string

fun hash_key :: "json \<Rightarrow> py_error + key" where
  "hash_key JNull = Inr KNone"
| "hash_key (JBool b) = Inr (KNum (if b then 1 else 0))"
| "hash_key (JInt i) = Inr (KNum (of_int i))"
| "hash_key (JFloat r) = Inr (KNum r)"
| "hash_key (JStr s) = Inr (KStr s)"
| "hash_key (JArr xs) = Inl TypeError"
| "hash_key (JObj kvs) = Inl TypeError"

text \<open>Truth value of a JSON value, as \<open>not message\<close> tests it.\<close>

fun truthy :: "json \<Rightarrow> bool" where
  "truthy JNull = False"
| "truthy (JBool b) = b"
| "truthy (JInt i) = (i \<noteq> 0)"
| "truthy (JFloat r) = (r \<noteq> 0)"
| "truthy (JStr s) = (s \<noteq> [])"
| "truthy (JArr xs) = (xs \<noteq> [])"
| "truthy (JObj kvs) = (kvs \<noteq> [])"

section \<open>Conversation scoring\<close>

record speaker_summary =
  average_score :: rat
  verdict :: string

text \<open>
  \<open>scores\<close> is the dictionary of the first loop, as its items in insertion order.
  \<open>append_score\<close> is \<open>scores[speaker].append(score)\<close>.
\<close>

fun append_score :: "key \<Rightarrow> rat \<Rightarrow> (key \<times> rat list) list \<Rightarrow> (key \<times> rat list) list" where
  "append_score k score [] = []"
| "append_score k score ((k', vals) # rest) =
     (if k' = k then (k', vals @ [score]) # rest else (k', vals) # append_score k score rest)"

fun score_entries :: "json list \<Rightarrow> (key \<times> rat list) list \<Rightarrow> py_error + (key \<times> rat list) list" where
  "score_entries [] scores = Inr scores"
| "score_entries (entry # rest) scores =
     (case entry of
        JObj kvs \<Rightarrow>
          (let speaker = dict_get kvs ''speaker'' JNull;
               message = dict_get kvs ''message'' (JStr [])
           in case message of
                JStr text \<Rightarrow>
                  (let score = analyze_message text
                   in case hash_key speaker of
                        Inl e \<Rightarrow> Inl e
                      | Inr k \<Rightarrow>
                          (let scores = (if k \<notin> fst ` set scores then scores @ [(k, [])] else scores);
                               scores = append_score k score scores
                           in score_entries rest scores))
              | _ \<Rightarrow> Inl AttributeError)
      | _ \<Rightarrow> Inl AttributeError)"

definition summarize :: "rat list \<Rightarrow> speaker_summary" where
  "summarize vals =
    (let avg = sum_list vals / of_nat (length vals);
         verdict = (if avg > 12 / 10 then ''Highly Suspicious''
                    else if avg > 5 / 10 then ''Suspicious''
                    else ''Likely Truthful'')
     in \<lparr>average_score = avg, verdict = verdict\<rparr>)"

definition lie_detector_analysis :: "json list \<Rightarrow> py_error + (key \<times> speaker_summary) list" where
  "lie_detector_analysis messages =
    (case score_entries messages [] of
       Inl e \<Rightarrow> Inl e
     | Inr scores \<Rightarrow> Inr (map (\<lambda>(speaker, vals). (speaker, summarize vals)) scores))"

text \<open>The body of a response: \<open>jsonify({'response': ...})\<close> of a text or of a summary.\<close>

datatype response = Text string | Summary "(key \<times> speaker_summary) list"

definition lie_detector :: "json \<Rightarrow> py_error + response" where
  "lie_detector data =
    (case data of
       JObj kvs \<Rightarrow>
         (let messages = dict_get kvs ''messages'' (JArr [])
          in case messages of
               JArr entries \<Rightarrow>
                 (case lie_detector_analysis entries of
                    Inl e \<Rightarrow> Inl e
                  | Inr summary \<Rightarrow> Inr (Summary summary))
             | _ \<Rightarrow> Inr (Text ''Invalid input. Send a list of messages with speaker and message.''))
     | _ \<Rightarrow> Inl AttributeError)"

text \<open>A well-formed chat message: a dict with a string speaker and a string message.\<close>

definition chat_message :: "string \<times> string \<Rightarrow> json" where
  "chat_message sm = JObj [(''speaker'', JStr (fst sm)), (''message'', JStr (snd sm))]"

section \<open>Delayed notifier\<close>

text \<open>
  \<open>int(x)\<close> on a value of a request body. A str is read as a decimal literal: whitespace
  around it is dropped, a sign may come first, and single underscores may stand between
  digits. A float is truncated towards zero. Everything else raises.
\<close>

definition digit_of :: "char \<Rightarrow> nat option" where
  "digit_of c = (let n = (of_char c :: nat) in if 48 \<le> n \<and> n \<le> 57 then Some (n - 48) else None)"

fun parse_digits :: "nat \<Rightarrow> string \<Rightarrow> nat option" where
  "parse_digits acc [] = None"
| "parse_digits acc [c] = (case digit_of c of None \<Rightarrow> None | Some d \<Rightarrow> Some (acc * 10 + d))"
| "parse_digits acc (c # c' # cs) =
     (case digit_of c of
        None \<Rightarrow> None
      | Some d \<Rightarrow>
          if c' = CHR ''_'' then parse_digits (acc * 10 + d) cs
          else parse_digits (acc * 10 + d) (c' # cs))"

definition int_of_str :: "string \<Rightarrow> py_error + int" where
  "int_of_str s =
    (case strip s of
       [] \<Rightarrow> Inl ValueError
     | c # cs \<Rightarrow>
         if c = CHR ''-'' then (case parse_digits 0 cs of None \<Rightarrow> Inl ValueError | Some n \<Rightarrow> Inr (- int n))
         else if c = CHR ''+'' then (case parse_digits 0 cs of None \<Rightarrow> Inl ValueError | Some n \<Rightarrow> Inr (int n))
         else (case parse_digits 0 (c # cs) of None \<Rightarrow> Inl ValueError | Some n \<Rightarrow> Inr (int n)))"

fun py_int :: "json \<Rightarrow> py_error + int" where
  "py_int JNull = Inl TypeError"
| "py_int (JBool b) = Inr (if b then 1 else 0)"
| "py_int (JInt i) = Inr i"
| "py_int (JFloat r) = Inr (if 0 \<le> r then \<lfloor>r\<rfloor> else \<lceil>r\<rceil>)"
| "py_int (JStr s) = int_of_str s"
| "py_int (JArr xs) = Inl TypeError"
| "py_int (JObj kvs) = Inl TypeError"

text \<open>The decimal digits of a number, as an f-string writes an int.\<close>

fun str_of_nat :: "nat \<Rightarrow> string" where
  "str_of_nat n = (if n < 10 then [char_of (48 + n)] else str_of_nat (n div 10) @ [char_of (48 + n mod 10)])"

declare str_of_nat.simps [simp del]

definition str_of_int :: "int \<Rightarrow> string" where
  "str_of_int i = (if i < 0 then CHR ''-'' # str_of_nat (nat (- i)) else str_of_nat (nat i))"

text \<open>
  How an f-string writes a value of a request body: a str as it is, and any other value
  as \<open>repr\<close> writes it, a function of the Python runtime that the model takes as given.
\<close>

definition format_value :: "(json \<Rightarrow> string) \<Rightarrow> json \<Rightarrow> string" where
  "format_value repr v = (case v of JStr s \<Rightarrow> s | _ \<Rightarrow> repr v)"

text \<open>
  The process-wide state: the \<open>alarms\<close> dictionary, and the background threads started so
  far, each with the \<open>minutes\<close> and the \<open>message\<close> it was started with. \<open>set_alarm\<close> starts
  a thread and returns at once; \<open>alarm_thread\<close> is what a thread does when its sleep is over.
\<close>

record app_state =
  alarms :: "(key \<times> string) list"
  threads :: "(int \<times> json) list"

definition alarm_thread :: "(json \<Rightarrow> string) \<Rightarrow> int \<Rightarrow> json \<Rightarrow> app_state \<Rightarrow> py_error + app_state" where
  "alarm_thread repr minutes message st =
    (case hash_key message of
       Inl e \<Rightarrow> Inl e
     | Inr k \<Rightarrow>
         Inr (st\<lparr>alarms := AList.update k
               (''Alarm: '' @ format_value repr message @ '' (set '' @ str_of_int minutes @ '' minutes ago)!'')
               (alarms st)\<rparr>))"

definition set_alarm :: "(json \<Rightarrow> string) \<Rightarrow> int \<Rightarrow> json \<Rightarrow> app_state \<Rightarrow> string \<times> app_state" where
  "set_alarm repr minutes message st =
    (''Alarm set for '' @ str_of_int minutes @ '' minutes from now with message: '' @ [CHR 0x27]
       @ format_value repr message @ [CHR 0x27],
     st\<lparr>threads := threads st @ [(minutes, message)]\<rparr>)"

text \<open>The \<open>try\<close> block of the route: the exception it raises, or \<open>minutes\<close> and \<open>message\<close>.\<close>

definition alarm_try :: "json \<Rightarrow> py_error + int \<times> json" where
  "alarm_try data =
    (case data of
       JObj kvs \<Rightarrow>
         (case py_int (dict_get kvs ''minutes'' (JInt 0)) of
            Inl e \<Rightarrow> Inl e
          | Inr minutes \<Rightarrow>
              (let message = dict_get kvs ''message'' (JStr [])
               in if minutes \<le> 0 \<or> \<not> truthy message then Inl ValueError
                  else Inr (minutes, message)))
     | _ \<Rightarrow> Inl AttributeError)"

definition alarm :: "(json \<Rightarrow> string) \<Rightarrow> json \<Rightarrow> app_state \<Rightarrow> response \<times> app_state" where
  "alarm repr data st =
    (case alarm_try data of
       Inl e \<Rightarrow> (Text ''Invalid input. Provide positive minutes and a message.'', st)
     | Inr (minutes, message) \<Rightarrow>
         (let (reply, st) = set_alarm repr minutes message st in (Text reply, st)))"

section \<open>Fuzzy matcher\<close>

text \<open>
  \<open>find_best_match\<close> calls \<open>difflib.get_close_matches\<close> of the Python library, which
  compares sequences with a \<open>SequenceMatcher\<close> whose second sequence \<open>b\<close> is the user's text
  and whose first sequence \<open>a\<close> is the candidate. The functions below follow the library's
  code. No junk function is given, so the set of junk elements is empty and the two loops
  of \<open>find_longest_match\<close> that extend a match over junk never run.

  \<open>chain_b\<close> is the dictionary \<open>b2j\<close>: an element of \<open>b\<close> is mapped to the increasing list
  of its positions in \<open>b\<close>, except that when \<open>b\<close> has 200 elements or more an element that
  occurs more than \<open>len(b) // 100 + 1\<close> times is popular and is left out.
  An element that is no key has no positions.
\<close>

definition indices_of :: "'a list \<Rightarrow> 'a \<Rightarrow> nat list" where
  "indices_of b elt = filter (\<lambda>j. b ! j = elt) [0..<length b]"

definition chain_b :: "'a list \<Rightarrow> 'a \<Rightarrow> nat list" where
  "chain_b b elt =
    (let idxs = indices_of b elt; n = length b
     in if n \<ge> 200 \<and> length idxs > n div 100 + 1 then [] else idxs)"

text \<open>
  \<open>find_longest_match\<close>. The dictionaries \<open>j2len\<close> and \<open>newj2len\<close> are functions that are
  0 where the dictionary has no key. \<open>for_j\<close> is the inner loop over the positions \<open>j\<close> of
  \<open>a[i]\<close> in \<open>b\<close> (\<open>continue\<close> below \<open>blo\<close>, \<open>break\<close> from \<open>bhi\<close> on), \<open>for_i\<close> the outer loop
  over \<open>range(alo, ahi)\<close>; \<open>extend_back\<close> and \<open>extend_forward\<close> are the two \<open>while\<close> loops that
  extend the best match at both ends.
\<close>

fun for_j :: "nat list \<Rightarrow> nat \<Rightarrow> nat \<Rightarrow> nat \<Rightarrow> (nat \<Rightarrow> nat) \<Rightarrow> (nat \<Rightarrow> nat) \<times> nat \<times> nat \<times> nat
    \<Rightarrow> (nat \<Rightarrow> nat) \<times> nat \<times> nat \<times> nat" where
  "for_j [] i blo bhi j2len st = st"
| "for_j (j # js) i blo bhi j2len (newj2len, besti, bestj, bestsize) =
     (if j < blo then for_j js i blo bhi j2len (newj2len, besti, bestj, bestsize)
      else if j \<ge> bhi then (newj2len, besti, bestj, bestsize)
      else
        let k = (if j = 0 then 0 else j2len (j - 1)) + 1;
            newj2len = newj2len(j := k)
        in if k > bestsize then for_j js i blo bhi j2len (newj2len, i + 1 - k, j + 1 - k, k)
           else for_j js i blo bhi j2len (newj2len, besti, bestj, bestsize))"

fun for_i :: "'a list \<Rightarrow> ('a \<Rightarrow> nat list) \<Rightarrow> nat list \<Rightarrow> nat \<Rightarrow> nat \<Rightarrow> (nat \<Rightarrow> nat) \<Rightarrow> nat \<times> nat \<times> nat
    \<Rightarrow> nat \<times> nat \<times> nat" where
  "for_i a b2j [] blo bhi j2len best = best"
| "for_i a b2j (i # is) blo bhi j2len best =
     (let (newj2len, best) = for_j (b2j (a ! i)) i blo bhi j2len (\<lambda>j. 0, best)
      in for_i a b2j is blo bhi newj2len best)"

function extend_back :: "'a list \<Rightarrow> 'a list \<Rightarrow> nat \<Rightarrow> nat \<Rightarrow> nat \<times> nat \<times> nat \<Rightarrow> nat \<times> nat \<times> nat" where
  "extend_back a b alo blo (besti, bestj, bestsize) =
     (if besti > alo \<and> bestj > blo \<and> a ! (besti - 1) = b ! (bestj - 1)
      then extend_back a b alo blo (besti - 1, bestj - 1, bestsize + 1)
      else (besti, bestj, bestsize))"
  by pat_completeness auto
termination
  by (relation "measure (\<lambda>(a, b, alo, blo, besti, bestj, bestsize). besti)") auto

function extend_forward :: "'a list \<Rightarrow> 'a list \<Rightarrow> nat \<Rightarrow> nat \<Rightarrow> nat \<times> nat \<times> nat \<Rightarrow> nat \<times> nat \<times> nat" where
  "extend_forward a b ahi bhi (besti, bestj, bestsize) =
     (if besti + bestsize < ahi \<and> bestj + bestsize < bhi \<and> a ! (besti + bestsize) = b ! (bestj + bestsize)
      then extend_forward a b ahi bhi (besti, bestj, bestsize + 1)
      else (besti, bestj, bestsize))"
  by pat_completeness auto
termination
  by (relation "measure (\<lambda>(a, b, ahi, bhi, besti, bestj, bestsize). ahi - (besti + bestsize))") auto

declare extend_back.simps [simp del] extend_forward.simps [simp del]

definition find_longest_match :: "'a list \<Rightarrow> 'a list \<Rightarrow> nat \<Rightarrow> nat \<Rightarrow> nat \<Rightarrow> nat \<Rightarrow> nat \<times> nat \<times> nat" where
  "find_longest_match a b alo ahi blo bhi =
    (let best = for_i a (chain_b b) [alo..<ahi] blo bhi (\<lambda>j. 0) (alo, blo, 0);
         best = extend_back a b alo blo best;
         best = extend_forward a b ahi bhi best
     in best)"


text \<open>
  What the loops keep true of the best match \<open>(i, j, k)\<close> so far: it lies in the window, and
  \<open>a[i:i+k] == b[j:j+k]\<close>. \<open>row_inv\<close> says the same of the lengths in \<open>j2len\<close>. The result of
  \<open>find_longest_match\<close> has these properties, which is why the work list of
  \<open>get_matching_blocks\<close> shrinks.
\<close>

definition good :: "'a list \<Rightarrow> 'a list \<Rightarrow> nat \<Rightarrow> nat \<Rightarrow> nat \<Rightarrow> nat \<Rightarrow> nat \<times> nat \<times> nat \<Rightarrow> bool" where
  "good a b alo ahi blo bhi best =
    (case best of (i, j, k) \<Rightarrow>
       alo \<le> i \<and> blo \<le> j \<and> ((k = 0 \<and> i = alo \<and> j = blo) \<or> (i + k \<le> ahi \<and> j + k \<le> bhi)) \<and>
       (\<forall>t<k. a ! (i + t) = b ! (j + t)))"

definition row_inv :: "'a list \<Rightarrow> 'a list \<Rightarrow> nat \<Rightarrow> nat \<Rightarrow> nat \<Rightarrow> (nat \<Rightarrow> nat) \<Rightarrow> bool" where
  "row_inv a b alo blo i f =
    (\<forall>j. f j \<le> i - alo \<and> f j \<le> j + 1 - blo \<and> (\<forall>t<f j. a ! (i - 1 - t) = b ! (j - t)))"

lemma for_j_inv:
  assumes "row_inv a b alo blo i f" "alo \<le> i" "i < ahi" "\<forall>j\<in>set js. b ! j = a ! i"
    and "row_inv a b alo blo (Suc i) newf" "good a b alo ahi blo bhi best"
  shows "row_inv a b alo blo (Suc i) (fst (for_j js i blo bhi f (newf, best))) \<and>
         good a b alo ahi blo bhi (snd (for_j js i blo bhi f (newf, best)))"
  using assms(4-6)
proof (induction js arbitrary: newf best)
  case Nil
  then show ?case by simp
next
  case (Cons j js)
  obtain bi bj bk where best: "best = (bi, bj, bk)" by (cases best)
  show ?case
  proof (cases "j < blo")
    case True
    then show ?thesis using Cons by (simp add: best)
  next
    case False
    note jlo = this
    show ?thesis
    proof (cases "j \<ge> bhi")
      case True
      then show ?thesis using jlo Cons.prems by (simp add: best)
    next
      case False
      define k where "k = (if j = 0 then 0 else f (j - 1)) + 1"
      have bj_eq: "b ! j = a ! i" using Cons.prems(1) by simp
      have k_i: "k \<le> Suc i - alo"
        using assms(1,2) unfolding row_inv_def k_def
        by (cases "j = 0") (auto simp add: Suc_diff_le le_imp_less_Suc)
      have k_j: "k \<le> j + 1 - blo"
      proof (cases "j = 0")
        case True
        then show ?thesis using jlo by (simp add: k_def)
      next
        case False
        have "f (j - 1) \<le> (j - 1) + 1 - blo" using assms(1) unfolding row_inv_def by blast
        then show ?thesis using False jlo by (simp add: k_def)
      qed
      have k_valid: "a ! (i - t) = b ! (j - t)" if "t < k" for t
      proof (cases t)
        case 0
        then show ?thesis using bj_eq by simp
      next
        case (Suc t')
        with that have j0: "j \<noteq> 0" and t': "t' < f (j - 1)"
          by (auto simp add: k_def split: if_splits)
        from assms(1) t' have "a ! (i - 1 - t') = b ! (j - 1 - t')"
          unfolding row_inv_def by blast
        then show ?thesis by (simp add: Suc)
      qed
      have newf': "row_inv a b alo blo (Suc i) (newf(j := k))"
        using Cons.prems(2) k_i k_j k_valid unfolding row_inv_def by auto
      have kpos: "0 < k" by (simp add: k_def)
      have good': "good a b alo ahi blo bhi (i + 1 - k, j + 1 - k, k)"
      proof -
        have 1: "alo \<le> i + 1 - k" using k_i assms(2) by simp
        have 2: "blo \<le> j + 1 - k" using k_j jlo by simp
        have 3: "i + 1 - k + k \<le> ahi" using k_i assms(2,3) by simp
        have 4: "j + 1 - k + k \<le> bhi" using k_j jlo False by simp
        have 5: "a ! (i + 1 - k + t) = b ! (j + 1 - k + t)" if "t < k" for t
        proof -
          have "k - 1 - t < k" using that by simp
          from k_valid[OF this] have v: "a ! (i - (k - 1 - t)) = b ! (j - (k - 1 - t))" .
          have e1: "i - (k - 1 - t) = i + 1 - k + t" using that k_i assms(2) by simp
          have e2: "j - (k - 1 - t) = j + 1 - k + t" using that k_j jlo by simp
          from v show ?thesis unfolding e1 e2 .
        qed
        from 1 2 3 4 5 show ?thesis unfolding good_def by simp
      qed
      have rest: "\<forall>j\<in>set js. b ! j = a ! i" using Cons.prems(1) by simp
      have step: "for_j (j # js) i blo bhi f (newf, bi, bj, bk) =
          (if k > bk then for_j js i blo bhi f (newf(j := k), i + 1 - k, j + 1 - k, k)
           else for_j js i blo bhi f (newf(j := k), bi, bj, bk))"
        using jlo False by (simp add: k_def Let_def)
      show ?thesis
      proof (cases "k > bk")
        case True
        show ?thesis
          unfolding best step if_P[OF True] by (rule Cons.IH[OF rest newf' good'])
      next
        case nb: False
        show ?thesis
          unfolding best step if_not_P[OF nb] by (rule Cons.IH[OF rest newf' Cons.prems(3)[unfolded best]])
      qed
    qed
  qed
qed


lemma for_i_good:
  assumes "\<forall>e. \<forall>j\<in>set (b2j e). b ! j = e"
  shows "row_inv a b alo blo i f \<Longrightarrow> alo \<le> i \<Longrightarrow> good a b alo ahi blo bhi best \<Longrightarrow>
         good a b alo ahi blo bhi (for_i a b2j [i..<ahi] blo bhi f best)"
proof (induction "ahi - i" arbitrary: i f best)
  case 0
  then show ?case by simp
next
  case (Suc n)
  then have lt: "i < ahi" by simp
  obtain newf best' where fj: "for_j (b2j (a ! i)) i blo bhi f (\<lambda>j. 0, best) = (newf, best')"
    by (cases "for_j (b2j (a ! i)) i blo bhi f (\<lambda>j. 0, best)")
  have zero: "row_inv a b alo blo (Suc i) (\<lambda>j. 0)" by (simp add: row_inv_def)
  have js: "\<forall>j\<in>set (b2j (a ! i)). b ! j = a ! i" using assms by blast
  from for_j_inv[OF Suc.prems(1) Suc.prems(2) lt js zero Suc.prems(3)] fj
  have inv': "row_inv a b alo blo (Suc i) newf" and good': "good a b alo ahi blo bhi best'"
    by simp_all
  have n: "n = ahi - Suc i" using Suc.hyps(2) by simp
  have le: "alo \<le> Suc i" using Suc.prems(2) by simp
  have "for_i a b2j [i..<ahi] blo bhi f best = for_i a b2j [Suc i..<ahi] blo bhi newf best'"
    using lt fj by (simp add: upt_conv_Cons)
  with Suc.hyps(1)[OF n inv' le good'] show ?case by simp
qed

lemma extend_back_good:
  "good a b alo ahi blo bhi best \<Longrightarrow> good a b alo ahi blo bhi (extend_back a b alo blo best)"
proof (induction a b alo blo best rule: extend_back.induct)
  case (1 a b alo blo besti bestj bestsize)
  show ?case
  proof (cases "besti > alo \<and> bestj > blo \<and> a ! (besti - 1) = b ! (bestj - 1)")
    case True
    have valid: "a ! (besti - 1 + t) = b ! (bestj - 1 + t)" if "t < bestsize + 1" for t
    proof (cases t)
      case 0
      then show ?thesis using True by simp
    next
      case (Suc t')
      with that have "t' < bestsize" by simp
      with 1(2) have "a ! (besti + t') = b ! (bestj + t')" unfolding good_def by simp
      then show ?thesis using True Suc by simp
    qed
    have "good a b alo ahi blo bhi (besti - 1, bestj - 1, bestsize + 1)"
      using 1(2) True valid unfolding good_def by auto
    from 1(1)[OF True this] show ?thesis
      unfolding extend_back.simps[of a b alo blo besti bestj bestsize] if_P[OF True] .
  next
    case False
    from 1(2) show ?thesis
      unfolding extend_back.simps[of a b alo blo besti bestj bestsize] if_not_P[OF False] .
  qed
qed

lemma extend_forward_good:
  "good a b alo ahi blo bhi best \<Longrightarrow> good a b alo ahi blo bhi (extend_forward a b ahi bhi best)"
proof (induction a b ahi bhi best rule: extend_forward.induct)
  case (1 a b ahi bhi besti bestj bestsize)
  show ?case
  proof (cases "besti + bestsize < ahi \<and> bestj + bestsize < bhi \<and> a ! (besti + bestsize) = b ! (bestj + bestsize)")
    case True
    have valid: "a ! (besti + t) = b ! (bestj + t)" if "t < bestsize + 1" for t
    proof (cases "t = bestsize")
      case True
      then show ?thesis using \<open>besti + bestsize < ahi \<and> bestj + bestsize < bhi \<and> a ! (besti + bestsize) = b ! (bestj + bestsize)\<close> by simp
    next
      case False
      with that have "t < bestsize" by simp
      with 1(2) show ?thesis unfolding good_def by simp
    qed
    have "good a b alo ahi blo bhi (besti, bestj, bestsize + 1)"
      using 1(2) True valid unfolding good_def by auto
    from 1(1)[OF True this] show ?thesis
      unfolding extend_forward.simps[of a b ahi bhi besti bestj bestsize] if_P[OF True] .
  next
    case False
    from 1(2) show ?thesis
      unfolding extend_forward.simps[of a b ahi bhi besti bestj bestsize] if_not_P[OF False] .
  qed
qed

lemma chain_b_index: "\<forall>e. \<forall>j\<in>set (chain_b b e). b ! j = e"
  by (simp add: chain_b_def indices_of_def Let_def)

lemma find_longest_match_good:
  "good a b alo ahi blo bhi (find_longest_match a b alo ahi blo bhi)"
proof -
  have 0: "good a b alo ahi blo bhi (alo, blo, 0)" by (simp add: good_def)
  have r: "row_inv a b alo blo alo (\<lambda>j. 0)" by (simp add: row_inv_def)
  from for_i_good[OF chain_b_index r le_refl 0]
  have "good a b alo ahi blo bhi (for_i a (chain_b b) [alo..<ahi] blo bhi (\<lambda>j. 0) (alo, blo, 0))" .
  from extend_forward_good[OF extend_back_good[OF this]]
  show ?thesis by (simp add: find_longest_match_def Let_def)
qed

lemma find_longest_match_bounds:
  assumes "find_longest_match a b alo ahi blo bhi = (i, j, k)" "k \<noteq> 0"
  shows "alo \<le> i" "i + k \<le> ahi" "blo \<le> j" "j + k \<le> bhi" "\<forall>t<k. a ! (i + t) = b ! (j + t)"
  using find_longest_match_good[of a b alo ahi blo bhi] assms by (simp_all add: good_def)

definition queue_size :: "(nat \<times> nat \<times> nat \<times> nat) list \<Rightarrow> nat" where
  "queue_size queue = sum_list (map (\<lambda>(alo, ahi, blo, bhi). 2 * (ahi - alo) + 1) queue)"

lemma queue_size_append: "queue_size (q @ [(alo, ahi, blo, bhi)]) = queue_size q + 2 * (ahi - alo) + 1"
  by (simp add: queue_size_def)

lemma queue_size_last:
  "queue \<noteq> [] \<Longrightarrow> last queue = (alo, ahi, blo, bhi) \<Longrightarrow>
   queue_size queue = queue_size (butlast queue) + 2 * (ahi - alo) + 1"
proof -
  assume "queue \<noteq> []" "last queue = (alo, ahi, blo, bhi)"
  then have "queue = butlast queue @ [(alo, ahi, blo, bhi)]"
    by (metis append_butlast_last_id)
  then have "queue_size queue = queue_size (butlast queue @ [(alo, ahi, blo, bhi)])" by simp
  then show ?thesis by (simp only: queue_size_append)
qed

text \<open>
  \<open>get_matching_blocks\<close>: the work list \<open>queue\<close> is used as a stack (\<open>queue.pop()\<close> takes
  its last entry), \<open>matching_blocks\<close> collects the blocks found.
\<close>

function match_queue :: "'a list \<Rightarrow> 'a list \<Rightarrow> (nat \<times> nat \<times> nat \<times> nat) list \<Rightarrow> (nat \<times> nat \<times> nat) list
    \<Rightarrow> (nat \<times> nat \<times> nat) list" where
  "match_queue a b queue matching_blocks =
    (if queue = [] then matching_blocks
     else
       let (alo, ahi, blo, bhi) = last queue;
           queue = butlast queue;
           (i, j, k) = find_longest_match a b alo ahi blo bhi
       in if k \<noteq> 0 then
            let matching_blocks = matching_blocks @ [(i, j, k)];
                queue = (if alo < i \<and> blo < j then queue @ [(alo, i, blo, j)] else queue);
                queue = (if i + k < ahi \<and> j + k < bhi then queue @ [(i + k, ahi, j + k, bhi)] else queue)
            in match_queue a b queue matching_blocks
          else match_queue a b queue matching_blocks)"
  by pat_completeness auto
termination
proof (relation "measure (\<lambda>(a, b, queue, blocks). queue_size queue)", goal_cases)
  case 1
  show ?case by simp
next
  case (2 a b queue matching_blocks x alo y ahi ya blo bhi q' flm i yc j k mb q1 q2)
  have last: "last queue = (alo, ahi, blo, bhi)" using 2 by simp
  have flm: "find_longest_match a b alo ahi blo bhi = (i, j, k)" using 2 by simp
  from find_longest_match_bounds[OF flm \<open>k \<noteq> 0\<close>] have bounds: "alo \<le> i" "i + k \<le> ahi" by simp_all
  have old: "queue_size queue = queue_size q' + 2 * (ahi - alo) + 1"
    using queue_size_last[OF \<open>queue \<noteq> []\<close> last] 2 by simp
  have q1: "queue_size q1 \<le> queue_size q' + 2 * (i - alo) + 1"
    using 2 by (simp add: queue_size_append)
  have q2: "queue_size q2 \<le> queue_size q1 + 2 * (ahi - (i + k)) + 1"
    using 2 by (simp add: queue_size_append)
  have "queue_size q2 < queue_size queue"
    using old q1 q2 bounds \<open>k \<noteq> 0\<close> by simp
  then show ?case by simp
next
  case (3 a b queue matching_blocks x alo y ahi ya blo bhi q' flm i yc j k)
  have last: "last queue = (alo, ahi, blo, bhi)" using 3 by simp
  have "queue_size queue = queue_size q' + 2 * (ahi - alo) + 1"
    using queue_size_last[OF \<open>queue \<noteq> []\<close> last] 3 by simp
  then show ?case by simp
qed

declare match_queue.simps [simp del]



text \<open>
  The blocks are then sorted, adjacent blocks are merged (\<open>collapse\<close> is that loop, with
  \<open>(i1, j1, k1)\<close> the block being grown) and the sentinel \<open>(la, lb, 0)\<close> is added.
  \<open>ratio\<close>, \<open>quick_ratio\<close> and \<open>real_quick_ratio\<close> are \<open>2.0 * matches / length\<close> for three
  counts of matches; the quotient is a rational number here, which the comparison with the
  cutoff and the comparison of two ratios read as Python reads the floating point values
  for texts of any realistic length.
\<close>

fun collapse :: "(nat \<times> nat \<times> nat) list \<Rightarrow> nat \<times> nat \<times> nat \<Rightarrow> (nat \<times> nat \<times> nat) list
    \<Rightarrow> (nat \<times> nat \<times> nat) list" where
  "collapse [] (i1, j1, k1) non_adjacent =
     (if k1 \<noteq> 0 then non_adjacent @ [(i1, j1, k1)] else non_adjacent)"
| "collapse ((i2, j2, k2) # rest) (i1, j1, k1) non_adjacent =
     (if i1 + k1 = i2 \<and> j1 + k1 = j2 then collapse rest (i1, j1, k1 + k2) non_adjacent
      else collapse rest (i2, j2, k2)
             (if k1 \<noteq> 0 then non_adjacent @ [(i1, j1, k1)] else non_adjacent))"

definition get_matching_blocks :: "'a list \<Rightarrow> 'a list \<Rightarrow> (nat \<times> nat \<times> nat) list" where
  "get_matching_blocks a b =
    (let la = length a; lb = length b;
         matching_blocks = match_queue a b [(0, la, 0, lb)] [];
         matching_blocks = sort matching_blocks;
         non_adjacent = collapse matching_blocks (0, 0, 0) []
     in non_adjacent @ [(la, lb, 0)])"

definition calculate_ratio :: "nat \<Rightarrow> nat \<Rightarrow> rat" where
  "calculate_ratio matches len = (if len \<noteq> 0 then 2 * of_nat matches / of_nat len else 1)"

definition ratio :: "'a list \<Rightarrow> 'a list \<Rightarrow> rat" where
  "ratio a b =
    (let matches = sum_list (map (\<lambda>(i, j, k). k) (get_matching_blocks a b))
     in calculate_ratio matches (length a + length b))"

fun quick_loop :: "'a list \<Rightarrow> ('a \<Rightarrow> nat) \<Rightarrow> ('a \<rightharpoonup> int) \<Rightarrow> nat \<Rightarrow> nat" where
  "quick_loop [] fullbcount avail matches = matches"
| "quick_loop (elt # rest) fullbcount avail matches =
     (let numb = (case avail elt of Some n \<Rightarrow> n | None \<Rightarrow> int (fullbcount elt));
          avail = avail(elt \<mapsto> numb - 1);
          matches = (if numb > 0 then matches + 1 else matches)
      in quick_loop rest fullbcount avail matches)"

definition quick_ratio :: "'a list \<Rightarrow> 'a list \<Rightarrow> rat" where
  "quick_ratio a b =
    (let fullbcount = count_list b;
         matches = quick_loop a fullbcount Map.empty 0
     in calculate_ratio matches (length a + length b))"

definition real_quick_ratio :: "'a list \<Rightarrow> 'a list \<Rightarrow> rat" where
  "real_quick_ratio a b =
    (let la = length a; lb = length b in calculate_ratio (min la lb) (la + lb))"

text \<open>
  \<open>get_close_matches(word, possibilities, n=1, cutoff)\<close>: the candidates that pass the three
  tests are collected as pairs \<open>(score, x)\<close>, and \<open>heapq.nlargest(1, result)\<close> is
  \<open>max(result)\<close>: the first pair that no later pair exceeds, pairs compared by score first
  and by the candidate's text second.
\<close>

definition nlargest1 :: "'a::linorder list \<Rightarrow> 'a list" where
  "nlargest1 xs = (case xs of [] \<Rightarrow> [] | x # rest \<Rightarrow> [fold (\<lambda>y m. if m < y then y else m) rest x])"

definition get_close_matches :: "string \<Rightarrow> string list \<Rightarrow> rat \<Rightarrow> string list" where
  "get_close_matches word possibilities cutoff =
    (let result = concat (map (\<lambda>x.
            if real_quick_ratio x word \<ge> cutoff \<and> quick_ratio x word \<ge> cutoff \<and> ratio x word \<ge> cutoff
            then [(ratio x word, x)] else []) possibilities);
         result = nlargest1 result
     in map snd result)"


definition find_best_match :: "string \<Rightarrow> string list \<Rightarrow> string option" where
  "find_best_match user_question questions =
    (let matches = get_close_matches (lower user_question) (map lower questions) (65 / 100)
     in case matches of [] \<Rightarrow> None | m # rest \<Rightarrow> Some m)"

text \<open>The knowledge base is the list \<open>knowledge_base["questions"]\<close> of its entries.\<close>

record knowledge_entry =
  question :: string
  answer :: string

fun get_answer_for_question :: "string \<Rightarrow> knowledge_entry list \<Rightarrow> string option" where
  "get_answer_for_question q [] = None"
| "get_answer_for_question q (e # rest) =
     (if lower (question e) = lower q then Some (answer e) else get_answer_for_question q rest)"

text \<open>
  The last lines of the \<open>chat\<close> route, reached when the text holds no command: the answer
  that goes into the response (\<open>None\<close> would be a null answer). An empty match counts as
  no match, as \<open>if best_match\<close> tests it.
\<close>

definition chat_answer :: "string \<Rightarrow> knowledge_entry list \<Rightarrow> string option" where
  "chat_answer user_input knowledge_base =
    (let questions = map question knowledge_base;
         best_match = find_best_match user_input questions
     in case best_match of
          None \<Rightarrow> Some (''I don'' @ [CHR 0x27] @ ''t understand.'')
        | Some m \<Rightarrow>
            if m \<noteq> [] then get_answer_for_question m knowledge_base
            else Some (''I don'' @ [CHR 0x27] @ ''t understand.''))"

section \<open>Notions used in the proofs\<close>

text \<open>The scores collected so far for a key (none when the key is absent).\<close>

definition vals_of :: "(key \<times> rat list) list \<Rightarrow> key \<Rightarrow> rat list" where
  "vals_of scores k = (case map_of scores k of None \<Rightarrow> [] | Some vals \<Rightarrow> vals)"

text \<open>
  \<open>slice a lo hi\<close> is \<open>a[lo:hi]\<close>. \<open>lcs_len xs ys\<close> is the length of a longest common
  subsequence of two sequences, \<open>common a b q\<close> that of the two windows of a work list entry,
  \<open>matched\<close> the number of elements a list of blocks matches, and \<open>wf_queue\<close> says that every
  window of the work list lies inside the two sequences.
\<close>

definition slice :: "'a list \<Rightarrow> nat \<Rightarrow> nat \<Rightarrow> 'a list" where
  "slice a lo hi = take (hi - lo) (drop lo a)"

definition common_subseqs :: "'a list \<Rightarrow> 'a list \<Rightarrow> 'a list set" where
  "common_subseqs xs ys = {zs. subseq zs xs \<and> subseq zs ys}"

definition lcs_len :: "'a list \<Rightarrow> 'a list \<Rightarrow> nat" where
  "lcs_len xs ys = Max (length ` common_subseqs xs ys)"

definition common :: "'a list \<Rightarrow> 'a list \<Rightarrow> nat \<times> nat \<times> nat \<times> nat \<Rightarrow> nat" where
  "common a b q = (case q of (alo, ahi, blo, bhi) \<Rightarrow> lcs_len (slice a alo ahi) (slice b blo bhi))"

definition matched :: "(nat \<times> nat \<times> nat) list \<Rightarrow> nat" where
  "matched blocks = sum_list (map (\<lambda>(i, j, k). k) blocks)"

definition wf_queue :: "'a list \<Rightarrow> 'a list \<Rightarrow> (nat \<times> nat \<times> nat \<times> nat) list \<Rightarrow> bool" where
  "wf_queue a b queue =
    (\<forall>(alo, ahi, blo, bhi)\<in>set queue. alo \<le> ahi \<and> ahi \<le> length a \<and> blo \<le> bhi \<and> bhi \<le> length b)"

text \<open>
  When a sequence is compared with itself, \<open>diag_run a x\<close> is the length of the run of
  elements that are not popular and end at position \<open>x\<close>: the length the inner loop
  records for the pair \<open>(x, x)\<close>.
\<close>

fun diag_run :: "'a list \<Rightarrow> nat \<Rightarrow> nat" where
  "diag_run a 0 = (if chain_b a (a ! 0) \<noteq> [] then 1 else 0)"
| "diag_run a (Suc x) = (if chain_b a (a ! Suc x) \<noteq> [] then diag_run a x + 1 else 0)"

section \<open>Properties of the string operations\<close>

text \<open>
  The tokens of \<open>split\<close> are not empty, hold no whitespace, and together are the characters
  of the text that are no whitespace, in order.
\<close>

lemma split_ws_tokens:
  "\<forall>c\<in>set cur. \<not> is_space c \<Longrightarrow>
   concat (split_ws cur s) = cur @ filter (\<lambda>c. \<not> is_space c) s \<and>
   (\<forall>t\<in>set (split_ws cur s). t \<noteq> [] \<and> (\<forall>c\<in>set t. \<not> is_space c))"
proof (induction s arbitrary: cur)
  case Nil
  then show ?case by simp
next
  case (Cons c s)
  show ?case
  proof (cases "is_space c")
    case True
    have nil: "\<forall>c\<in>set ([]::string). \<not> is_space c" by simp
    from Cons.IH[OF nil] Cons.prems True show ?thesis by simp
  next
    case False
    with Cons.prems have "\<forall>x\<in>set (cur @ [c]). \<not> is_space x" by simp
    from Cons.IH[OF this] False show ?thesis by simp
  qed
qed

lemma split_tokens:
  "concat (split s) = filter (\<lambda>c. \<not> is_space c) s \<and>
   (\<forall>t\<in>set (split s). t \<noteq> [] \<and> (\<forall>c\<in>set t. \<not> is_space c))"
  using split_ws_tokens[of "[]" s] by (simp add: split_def)

lemma contains_iff_sublist: "contains sub s \<longleftrightarrow> sublist sub s"
  by (induction s) (auto simp: sublist_Cons_right)

lemma of_char_lower_char:
  "(of_char (lower_char c) :: nat) = (let n = of_char c in if 65 \<le> n \<and> n \<le> 90 then n + 32 else n)"
proof -
  have "(of_char c :: nat) < 256" by simp
  then show ?thesis by (simp add: lower_char_def Let_def)
qed

lemma of_char_upper_char:
  "(of_char (upper_char c) :: nat) = (let n = of_char c in if 97 \<le> n \<and> n \<le> 122 then n - 32 else n)"
proof -
  have "(of_char c :: nat) < 256" by simp
  then have "(of_char c - 32 :: nat) mod 256 = of_char c - 32" by (intro mod_less) arith
  then show ?thesis by (simp add: upper_char_def Let_def)
qed

lemma lower_char_idem: "lower_char (lower_char c) = lower_char c"
  by (rule of_char_eqI[where ?'a = nat]) (simp add: of_char_lower_char Let_def)

lemma lower_char_upper_char: "lower_char (upper_char c) = lower_char c"
  by (rule of_char_eqI[where ?'a = nat]) (auto simp add: of_char_lower_char of_char_upper_char Let_def)

lemma lower_char_eq_question: "lower_char c = CHR ''?'' \<longleftrightarrow> c = CHR ''?''"
proof -
  have "lower_char c = CHR ''?'' \<longleftrightarrow> (of_char (lower_char c) :: nat) = of_char CHR ''?''"
    by (simp only: of_char_eq_iff)
  also have "\<dots> \<longleftrightarrow> (of_char c :: nat) = of_char CHR ''?''"
    by (auto simp add: of_char_lower_char Let_def)
  also have "\<dots> \<longleftrightarrow> c = CHR ''?''"
    by (simp only: of_char_eq_iff)
  finally show ?thesis .
qed

lemma lower_idem: "lower (lower s) = lower s"
  by (simp add: lower_def lower_char_idem)

lemma code_points_ascii: "is_ascii s \<Longrightarrow> code_points s = map of_char s"
  by (induction s) (simp_all add: is_ascii_def Let_def)

lemma upper_cp_ascii:
  "n < 0x80 \<Longrightarrow> upper_cp n = (if 97 \<le> n \<and> n \<le> 122 then [n - 32] else [n])"
  by (simp add: upper_cp_def)

lemma encode_upper_cp_ascii:
  assumes "(of_char c :: nat) < 0x80"
  shows "utf8 (upper_cp (of_char c)) = [upper_char c]"
proof (cases "97 \<le> (of_char c :: nat) \<and> (of_char c :: nat) \<le> 122")
  case True
  then have "(of_char c :: nat) - 32 < 0x80" by arith
  with True assms show ?thesis
    by (simp add: utf8_def upper_cp_def encode_cp_def upper_char_def Let_def)
next
  case False
  have "upper_cp (of_char c) = [of_char c]"
    unfolding upper_cp_def if_P[OF assms] if_not_P[OF False] by (rule refl)
  moreover have "upper_char c = c"
    unfolding upper_char_def Let_def if_not_P[OF False] by (rule refl)
  ultimately show ?thesis using assms
    by (simp add: utf8_def encode_cp_def)
qed

lemma utf8_append: "utf8 (xs @ ys) = utf8 xs @ utf8 ys"
  by (simp add: utf8_def)

text \<open>On an ASCII text \<open>str.upper()\<close> works character by character and changes a to z only.\<close>

lemma upper_ascii: "is_ascii s \<Longrightarrow> upper s = map upper_char s"
proof -
  assume a: "is_ascii s"
  have "utf8 (concat (map upper_cp (map of_char s))) = map upper_char s"
    using a
  proof (induction s)
    case Nil
    show ?case by (simp add: utf8_def)
  next
    case (Cons c cs)
    from Cons.prems have c: "(of_char c :: nat) < 0x80" and cs: "is_ascii cs"
      by (simp_all add: is_ascii_def)
    show ?case using encode_upper_cp_ascii[OF c] Cons.IH[OF cs]
      by (simp add: utf8_append)
  qed
  with code_points_ascii[OF a] show ?thesis by (simp add: upper_def)
qed

lemma lower_upper_ascii: "is_ascii s \<Longrightarrow> lower (upper s) = lower s"
  by (simp add: upper_ascii lower_def lower_char_upper_char)

text \<open>
  Outside ASCII uppercasing and then lowercasing is not lowercasing: the dotless i becomes
  the ASCII capital I, which lowercases to the ASCII i.
\<close>

lemma code_points_dotless:
  "code_points (dotless_i @ '' guess it was fine'') =
     [0x131, 32, 103, 117, 101, 115, 115, 32, 105, 116, 32, 119, 97, 115, 32, 102, 105, 110, 101]"
  by (simp add: dotless_i_def)

lemma upper_cp_dotless: "upper_cp 0x131 = [0x49]"
  by (simp add: upper_cp_def upper_table_def upper_table_1_def)

lemma upper_cps_dotless:
  "concat (map upper_cp
     [0x131, 32, 103, 117, 101, 115, 115, 32, 105, 116, 32, 119, 97, 115, 32, 102, 105, 110, 101]) =
   [73, 32, 71, 85, 69, 83, 83, 32, 73, 84, 32, 87, 65, 83, 32, 70, 73, 78, 69]"
  by (simp add: upper_cp_dotless upper_cp_ascii)

lemma utf8_guess:
  "utf8 [73, 32, 71, 85, 69, 83, 83, 32, 73, 84, 32, 87, 65, 83, 32, 70, 73, 78, 69] =
   ''I GUESS IT WAS FINE''"
  by code_simp

lemma upper_dotless:
  "upper (dotless_i @ '' guess it was fine'') = ''I GUESS IT WAS FINE''"
  unfolding upper_def code_points_dotless upper_cps_dotless by (rule utf8_guess)

lemma question_in_lower: "CHR ''?'' \<in> set (lower s) \<longleftrightarrow> CHR ''?'' \<in> set s"
proof (induction s)
  case Nil
  show ?case by (simp add: lower_def)
next
  case (Cons c cs)
  have "CHR ''?'' = lower_char c \<longleftrightarrow> CHR ''?'' = c"
    using lower_char_eq_question[of c] by (simp add: eq_commute[of "CHR ''?''"])
  with Cons show ?case by (simp add: lower_def)
qed

lemma contains_single: "contains [c] s \<longleftrightarrow> c \<in> set s"
  by (induction s) auto

lemma list_ex_contains: "list_ex (\<lambda>p. contains p t) ps \<longleftrightarrow> (\<exists>p\<in>set ps. sublist p t)"
  by (simp add: list_ex_iff contains_iff_sublist)

lemma analyze_message_unfold:
  "analyze_message msg =
     (if \<exists>hw\<in>set hedge_words. sublist hw (lower msg) then 2 else 0)
   + (if length (split (lower msg)) < 4 then 1 else 0)
   + (if sublist ''yes'' (lower msg) \<and> sublist ''no'' (lower msg) then 2 else 0)
   + (if sublist ''never'' (lower msg) \<and> sublist ''sometimes'' (lower msg) then 2 else 0)
   + (if sublist ''always'' (lower msg) \<and> sublist ''not always'' (lower msg) then 2 else 0)
   + (if sublist ''idk'' (lower msg) \<or> sublist (''don'' @ [CHR 0x27] @ ''t wanna say'') (lower msg)
          \<or> sublist ''prefer not to answer'' (lower msg) then 3 else 0)
   - (if CHR ''?'' \<in> set msg then 1 / 2 else 0)"
proof -
  have add_if: "\<And>P s k. (if P then s + k else s) = s + (if P then k else (0::rat))" by simp
  have sub_if: "\<And>P s k. (if P then s - k else s) = s - (if P then k else (0::rat))" by simp
  have q: "contains ''?'' (lower msg) \<longleftrightarrow> CHR ''?'' \<in> set msg"
    by (simp only: contains_single question_in_lower)
  have av: "list_ex (\<lambda>p. contains p (lower msg)) avoidance_phrases \<longleftrightarrow>
      sublist ''idk'' (lower msg) \<or> sublist (''don'' @ [CHR 0x27] @ ''t wanna say'') (lower msg)
          \<or> sublist ''prefer not to answer'' (lower msg)"
    by (simp only: avoidance_phrases_def list_ex_Nil_iff list_ex_Cons_iff contains_iff_sublist simp_thms)
  show ?thesis
    unfolding analyze_message_def Let_def
    unfolding list_ex_contains[of _ hedge_words] av q
    unfolding contradiction_phrases_def fold_simps o_apply case_prod_conv id_apply
      contains_iff_sublist add_if sub_if add_0
    by (rule refl)
qed


text \<open>
  Claim C1. For every message, \<open>analyze_message\<close> lowercases the text and returns the sum of
  five signals: 2 when some hedge phrase is a substring (once, however many match), 1 when
  the text has fewer than 4 whitespace-separated tokens, 2 for each of the pairs yes/no,
  never/sometimes, always/not always whose two phrases both are substrings, 3 when one of
  the three avoidance phrases is a substring, minus one half when the text has a question
  mark.
\<close>

theorem analyze_message_sum:
  "analyze_message msg =
     (if \<exists>hw\<in>set hedge_words. sublist hw (lower msg) then 2 else 0)
   + (if length (split (lower msg)) < 4 then 1 else 0)
   + (if sublist ''yes'' (lower msg) \<and> sublist ''no'' (lower msg) then 2 else 0)
   + (if sublist ''never'' (lower msg) \<and> sublist ''sometimes'' (lower msg) then 2 else 0)
   + (if sublist ''always'' (lower msg) \<and> sublist ''not always'' (lower msg) then 2 else 0)
   + (if sublist ''idk'' (lower msg) \<or> sublist (''don'' @ [CHR 0x27] @ ''t wanna say'') (lower msg)
          \<or> sublist ''prefer not to answer'' (lower msg) then 3 else 0)
   - (if CHR ''?'' \<in> set msg then 1 / 2 else 0)"
  by (rule analyze_message_unfold)

lemma analyze_message_depends_on_lower:
  "lower a = lower b \<Longrightarrow> analyze_message a = analyze_message b"
  by (simp add: analyze_message_def)

lemma case_variant_char_lower: "case_variant_char a b \<Longrightarrow> lower_char a = lower_char b"
  by (auto simp add: case_variant_char_def lower_char_idem lower_char_upper_char)

lemma case_variant_lower: "case_variant s t \<Longrightarrow> lower s = lower t"
  unfolding case_variant_def lower_def
  by (induction rule: list_all2_induct) (auto dest: case_variant_char_lower)

text \<open>
  Claim C9, as amended. The score is a function of the lowercased text, so it does not
  change under the case changes that keep the lowercased text: the lowercased text, every
  text with the same lowercasing, every text that differs from \<open>T\<close> only in the case of its
  ASCII letters, and the uppercased text when \<open>T\<close> is ASCII, score as \<open>T\<close> does. (For a text
  outside ASCII the uppercased text may score differently, see the counterexample below.)
\<close>

theorem analyze_message_ascii_case_invariant:
  "analyze_message (lower T) = analyze_message T \<and>
   (\<forall>T'. lower T' = lower T \<longrightarrow> analyze_message T' = analyze_message T) \<and>
   (\<forall>T'. case_variant T T' \<longrightarrow> analyze_message T' = analyze_message T) \<and>
   (is_ascii T \<longrightarrow> analyze_message (upper T) = analyze_message T)"
proof (intro conjI allI impI)
  show "analyze_message (lower T) = analyze_message T"
    by (rule analyze_message_depends_on_lower[OF lower_idem])
next
  fix T' assume "lower T' = lower T"
  then show "analyze_message T' = analyze_message T"
    by (rule analyze_message_depends_on_lower)
next
  fix T' assume "case_variant T T'"
  from case_variant_lower[OF this] have "lower T' = lower T" by (rule sym)
  then show "analyze_message T' = analyze_message T"
    by (rule analyze_message_depends_on_lower)
next
  assume "is_ascii T"
  then show "analyze_message (upper T) = analyze_message T"
    by (rule analyze_message_depends_on_lower[OF lower_upper_ascii])
qed

theorem analyze_message_ascii_case_invariant_witness:
  "is_ascii ''Maybe I Was There'' \<and>
   case_variant ''Maybe I Was There'' ''mAYBE i was THERE'' \<and>
   analyze_message (upper ''Maybe I Was There'') = 2 \<and>
   analyze_message (lower ''Maybe I Was There'') = 2 \<and>
   analyze_message ''mAYBE i was THERE'' = 2 \<and>
   analyze_message ''Maybe I Was There'' = 2"
proof -
  have a: "is_ascii ''Maybe I Was There''"
    by code_simp
  have cv: "case_variant ''Maybe I Was There'' ''mAYBE i was THERE''"
    by code_simp
  have v: "analyze_message ''Maybe I Was There'' = 2" by code_simp
  note t = analyze_message_ascii_case_invariant[of "''Maybe I Was There''"]
  from t have l: "analyze_message (lower ''Maybe I Was There'') = analyze_message ''Maybe I Was There''"
    by (rule conjunct1)
  from t have "\<forall>T'. case_variant ''Maybe I Was There'' T' \<longrightarrow>
      analyze_message T' = analyze_message ''Maybe I Was There''"
    by (elim conjE)
  from this[rule_format, OF cv]
  have c: "analyze_message ''mAYBE i was THERE'' = analyze_message ''Maybe I Was There''" .
  from t have "is_ascii ''Maybe I Was There'' \<longrightarrow>
      analyze_message (upper ''Maybe I Was There'') = analyze_message ''Maybe I Was There''"
    by (elim conjE)
  from this[rule_format, OF a]
  have u: "analyze_message (upper ''Maybe I Was There'') = analyze_message ''Maybe I Was There''" .
  show ?thesis
    unfolding u l c v using a cv by (intro conjI refl)
qed

text \<open>
  The claim as first stated, for the uppercased text of every \<open>T\<close>, fails: \<open>str.upper()\<close>
  turns the dotless i (U+0131) into the ASCII capital I, so the uppercased text lowercases
  to a text with the hedge phrase \<open>i guess\<close>, which the text itself does not have.
\<close>

theorem analyze_message_upper_counterexample:
  "upper (dotless_i @ '' guess it was fine'') = ''I GUESS IT WAS FINE'' \<and>
   analyze_message (dotless_i @ '' guess it was fine'') = 0 \<and>
   analyze_message (upper (dotless_i @ '' guess it was fine'')) = 2 \<and>
   analyze_message (upper (dotless_i @ '' guess it was fine'')) \<noteq>
     analyze_message (dotless_i @ '' guess it was fine'')"
proof -
  have s0: "analyze_message (dotless_i @ '' guess it was fine'') = 0"
    by code_simp
  have s2: "analyze_message ''I GUESS IT WAS FINE'' = 2"
    by code_simp
  show ?thesis
    unfolding upper_dotless s0 s2 by simp
qed

text \<open>
  Claim C8. The score falls below minus one half only when the text has a question mark
  (it never does at all, and without a question mark it is not even negative), and a text
  with none of the five signals scores exactly 0.
\<close>

theorem analyze_message_baseline:
  "- (1 / 2) \<le> analyze_message T \<and>
   (CHR ''?'' \<notin> set T \<longrightarrow> 0 \<le> analyze_message T) \<and>
   ((\<forall>hw\<in>set hedge_words. \<not> sublist hw (lower T)) \<and>
    4 \<le> length (split (lower T)) \<and>
    (\<forall>(a, b)\<in>set contradiction_phrases. \<not> (sublist a (lower T) \<and> sublist b (lower T))) \<and>
    (\<forall>p\<in>set avoidance_phrases. \<not> sublist p (lower T)) \<and>
    CHR ''?'' \<notin> set T
    \<longrightarrow> analyze_message T = 0)"
proof -
  define h :: rat where "h = (if \<exists>hw\<in>set hedge_words. sublist hw (lower T) then 2 else 0)"
  define s :: rat where "s = (if length (split (lower T)) < 4 then 1 else 0)"
  define c1 :: rat where "c1 = (if sublist ''yes'' (lower T) \<and> sublist ''no'' (lower T) then 2 else 0)"
  define c2 :: rat where "c2 = (if sublist ''never'' (lower T) \<and> sublist ''sometimes'' (lower T) then 2 else 0)"
  define c3 :: rat where "c3 = (if sublist ''always'' (lower T) \<and> sublist ''not always'' (lower T) then 2 else 0)"
  define a :: rat where "a = (if sublist ''idk'' (lower T) \<or> sublist (''don'' @ [CHR 0x27] @ ''t wanna say'') (lower T)
          \<or> sublist ''prefer not to answer'' (lower T) then 3 else 0)"
  define q :: rat where "q = (if CHR ''?'' \<in> set T then 1 / 2 else 0)"
  have sum: "analyze_message T = h + s + c1 + c2 + c3 + a - q"
    unfolding h_def s_def c1_def c2_def c3_def a_def q_def by (rule analyze_message_unfold)
  have nonneg: "0 \<le> h" "0 \<le> s" "0 \<le> c1" "0 \<le> c2" "0 \<le> c3" "0 \<le> a" "q \<le> 1 / 2"
    by (simp_all add: h_def s_def c1_def c2_def c3_def a_def q_def)
  have below: "- (1 / 2) \<le> analyze_message T"
    using sum nonneg by linarith
  have no_question: "0 \<le> analyze_message T" if "CHR ''?'' \<notin> set T"
  proof -
    from that have "q = 0" by (simp add: q_def)
    with sum nonneg show ?thesis by linarith
  qed
  have none: "analyze_message T = 0"
    if "\<forall>hw\<in>set hedge_words. \<not> sublist hw (lower T)" "4 \<le> length (split (lower T))"
      "\<forall>(a, b)\<in>set contradiction_phrases. \<not> (sublist a (lower T) \<and> sublist b (lower T))"
      "\<forall>p\<in>set avoidance_phrases. \<not> sublist p (lower T)" "CHR ''?'' \<notin> set T"
  proof -
    have "h = 0" using that(1) by (simp add: h_def)
    moreover have "s = 0" using that(2) by (simp add: s_def)
    moreover have "c1 = 0" "c2 = 0" "c3 = 0"
      using that(3) by (simp_all add: c1_def c2_def c3_def contradiction_phrases_def)
    moreover have "a = 0" using that(4) by (simp add: a_def avoidance_phrases_def)
    moreover have "q = 0" using that(5) by (simp add: q_def)
    ultimately show ?thesis using sum by simp
  qed
  from below no_question none show ?thesis by blast
qed

lemma no_signal_check:
  "list_all (\<lambda>hw. \<not> contains hw t) hedge_words \<Longrightarrow>
   list_all (\<lambda>(a, b). \<not> (contains a t \<and> contains b t)) contradiction_phrases \<Longrightarrow>
   list_all (\<lambda>p. \<not> contains p t) avoidance_phrases \<Longrightarrow>
   (\<forall>hw\<in>set hedge_words. \<not> sublist hw t) \<and>
   (\<forall>(a, b)\<in>set contradiction_phrases. \<not> (sublist a t \<and> sublist b t)) \<and>
   (\<forall>p\<in>set avoidance_phrases. \<not> sublist p t)"
  by (simp add: list_all_iff contains_iff_sublist case_prod_beta)

theorem analyze_message_baseline_witness:
  "CHR ''?'' \<notin> set ''the sky is blue today'' \<and>
   list_all (\<lambda>hw. \<not> sublist hw (lower ''the sky is blue today'')) hedge_words \<and>
   4 \<le> length (split (lower ''the sky is blue today'')) \<and>
   list_all (\<lambda>(a, b). \<not> (sublist a (lower ''the sky is blue today'') \<and>
                        sublist b (lower ''the sky is blue today''))) contradiction_phrases \<and>
   list_all (\<lambda>p. \<not> sublist p (lower ''the sky is blue today'')) avoidance_phrases \<and>
   analyze_message ''the sky is blue today'' = 0 \<and>
   analyze_message ''A B C D ?'' = - (1 / 2)"
proof -
  have l: "lower ''the sky is blue today'' = ''the sky is blue today''" by code_simp
  have 1: "list_all (\<lambda>hw. \<not> contains hw ''the sky is blue today'') hedge_words" by code_simp
  have 2: "list_all (\<lambda>(a, b). \<not> (contains a ''the sky is blue today'' \<and> contains b ''the sky is blue today'')) contradiction_phrases" by code_simp
  have 3: "list_all (\<lambda>p. \<not> contains p ''the sky is blue today'') avoidance_phrases" by code_simp
  have 4: "4 \<le> length (split ''the sky is blue today'')" by code_simp
  have 5: "CHR ''?'' \<notin> set ''the sky is blue today''" by simp
  have 6: "analyze_message ''A B C D ?'' = - (1 / 2)" by code_simp
  note ns = no_signal_check[OF 1 2 3]
  from analyze_message_baseline[of "''the sky is blue today''"] ns 4 5 6 l
  show ?thesis by (simp add: list_all_iff)
qed

section \<open>Rock paper scissors: outcome\<close>

text \<open>
  Claim C6. \<open>rps_play\<close> lowercases the choice. Unless the lowered choice is one of rock,
  paper, scissors it returns the invalid-choice error and makes no random draw (the
  generator is returned as it was). For a valid choice it makes one draw, and the result is
  tie exactly when the computer's move equals the player's, win exactly when the player's
  move beats the computer's (rock beats scissors, scissors beats paper, paper beats rock),
  and lose otherwise.
\<close>

theorem rps_play_outcome:
  "(lower choice \<notin> {''rock'', ''paper'', ''scissors''} \<longrightarrow>
      rps_play choice g = ([(''error'', ''Invalid choice. Choose rock, paper, or scissors.'')], g)) \<and>
   (lower choice \<in> {''rock'', ''paper'', ''scissors''} \<longrightarrow>
      (\<exists>comp res. comp = [''rock'', ''paper'', ''scissors''] ! (draws g (used g) mod 3) \<and>
         comp \<in> {''rock'', ''paper'', ''scissors''} \<and>
         rps_play choice g =
           ([(''player'', lower choice), (''computer'', comp), (''result'', res)], g\<lparr>used := Suc (used g)\<rparr>) \<and>
         (res = ''tie'' \<longleftrightarrow> comp = lower choice) \<and>
         (res = ''win'' \<longleftrightarrow> (lower choice, comp) \<in>
            {(''rock'', ''scissors''), (''scissors'', ''paper''), (''paper'', ''rock'')}) \<and>
         (res = ''lose'' \<longleftrightarrow> comp \<noteq> lower choice \<and> (lower choice, comp) \<notin>
            {(''rock'', ''scissors''), (''scissors'', ''paper''), (''paper'', ''rock'')})))"
proof (intro conjI impI)
  assume "lower choice \<notin> {''rock'', ''paper'', ''scissors''}"
  then show "rps_play choice g = ([(''error'', ''Invalid choice. Choose rock, paper, or scissors.'')], g)"
    by (simp add: rps_play_def choices_def)
next
  assume valid: "lower choice \<in> {''rock'', ''paper'', ''scissors''}"
  define comp where "comp = [''rock'', ''paper'', ''scissors''] ! (draws g (used g) mod 3)"
  have "draws g (used g) mod 3 = 0 \<or> draws g (used g) mod 3 = 1 \<or> draws g (used g) mod 3 = 2"
    by arith
  then have comp: "comp = ''rock'' \<or> comp = ''paper'' \<or> comp = ''scissors''"
    unfolding comp_def by auto
  define res where "res =
     (if lower choice = comp then ''tie''
      else if (lower choice = ''rock'' \<and> comp = ''scissors'') \<or>
              (lower choice = ''paper'' \<and> comp = ''rock'') \<or>
              (lower choice = ''scissors'' \<and> comp = ''paper'')
      then ''win'' else ''lose'')"
  have play: "rps_play choice g =
      ([(''player'', lower choice), (''computer'', comp), (''result'', res)], g\<lparr>used := Suc (used g)\<rparr>)"
    using valid by (simp add: rps_play_def choices_def random_choice_def comp_def res_def Let_def)
  from valid have pl: "lower choice = ''rock'' \<or> lower choice = ''paper'' \<or> lower choice = ''scissors''"
    by simp
  have tie: "res = ''tie'' \<longleftrightarrow> comp = lower choice"
    using pl comp by (elim disjE; simp add: res_def)
  have win: "res = ''win'' \<longleftrightarrow> (lower choice, comp) \<in>
            {(''rock'', ''scissors''), (''scissors'', ''paper''), (''paper'', ''rock'')}"
    using pl comp by (elim disjE; simp add: res_def)
  have lose: "res = ''lose'' \<longleftrightarrow> comp \<noteq> lower choice \<and> (lower choice, comp) \<notin>
            {(''rock'', ''scissors''), (''scissors'', ''paper''), (''paper'', ''rock'')}"
    using pl comp by (elim disjE; simp add: res_def)
  have mem: "comp \<in> {''rock'', ''paper'', ''scissors''}"
    using comp by (elim disjE; simp)
  show "\<exists>comp res. comp = [''rock'', ''paper'', ''scissors''] ! (draws g (used g) mod 3) \<and>
         comp \<in> {''rock'', ''paper'', ''scissors''} \<and>
         rps_play choice g =
           ([(''player'', lower choice), (''computer'', comp), (''result'', res)], g\<lparr>used := Suc (used g)\<rparr>) \<and>
         (res = ''tie'' \<longleftrightarrow> comp = lower choice) \<and>
         (res = ''win'' \<longleftrightarrow> (lower choice, comp) \<in>
            {(''rock'', ''scissors''), (''scissors'', ''paper''), (''paper'', ''rock'')}) \<and>
         (res = ''lose'' \<longleftrightarrow> comp \<noteq> lower choice \<and> (lower choice, comp) \<notin>
            {(''rock'', ''scissors''), (''scissors'', ''paper''), (''paper'', ''rock'')})"
    by (rule exI[of _ comp], rule exI[of _ res], intro conjI) (fact comp_def mem play tie win lose)+
qed

theorem rps_play_outcome_witness:
  "rps_play ''banana'' \<lparr>draws = (\<lambda>n. 2), used = 0\<rparr> =
     ([(''error'', ''Invalid choice. Choose rock, paper, or scissors.'')], \<lparr>draws = (\<lambda>n. 2), used = 0\<rparr>) \<and>
   rps_play ''Rock'' \<lparr>draws = (\<lambda>n. 2), used = 0\<rparr> =
     ([(''player'', ''rock''), (''computer'', ''scissors''), (''result'', ''win'')], \<lparr>draws = (\<lambda>n. 2), used = 1\<rparr>)"
proof -
  have 1: "lower ''banana'' \<notin> {''rock'', ''paper'', ''scissors''}" by code_simp
  have 2: "lower ''Rock'' = ''rock''" by code_simp
  from rps_play_outcome[of "''banana''" "\<lparr>draws = (\<lambda>n. 2), used = 0\<rparr>"] 1
    rps_play_outcome[of "''Rock''" "\<lparr>draws = (\<lambda>n. 2), used = 0\<rparr>"] 2
  show ?thesis by simp
qed

section \<open>Conversation scoring: averages and verdicts\<close>

lemma map_fst_append_score: "map fst (append_score k x scores) = map fst scores"
  by (induction scores) auto

lemma map_of_append_score:
  "map_of (append_score k x scores) k' =
     (if k' = k then map_option (\<lambda>vals. vals @ [x]) (map_of scores k) else map_of scores k')"
  by (induction scores) auto

lemma score_entries_chat:
  "distinct (map fst acc) \<Longrightarrow>
   \<exists>scores. score_entries (map chat_message ms) acc = Inr scores \<and>
     distinct (map fst scores) \<and>
     set (map fst scores) = set (map fst acc) \<union> (KStr \<circ> fst) ` set ms \<and>
     (\<forall>s. vals_of scores (KStr s) =
            vals_of acc (KStr s) @ map (analyze_message \<circ> snd) (filter (\<lambda>sm. fst sm = s) ms)) \<and>
     (\<forall>k. k \<notin> range KStr \<longrightarrow> map_of scores k = map_of acc k)"
proof (induction ms arbitrary: acc)
  case Nil
  then show ?case by simp
next
  case (Cons sm ms)
  obtain s m where sm: "sm = (s, m)" by (cases sm)
  define acc1 where "acc1 = (if KStr s \<notin> fst ` set acc then acc @ [(KStr s, [])] else acc)"
  define acc2 where "acc2 = append_score (KStr s) (analyze_message m) acc1"
  have step: "score_entries (map chat_message (sm # ms)) acc = score_entries (map chat_message ms) acc2"
    by (simp add: sm chat_message_def dict_get_def acc1_def acc2_def Let_def)
  have d1: "distinct (map fst acc1)" using Cons.prems by (auto simp add: acc1_def)
  have d2: "distinct (map fst acc2)" using d1 by (simp add: acc2_def map_fst_append_score)
  have keys2: "set (map fst acc2) = set (map fst acc) \<union> {KStr s}"
    by (auto simp add: acc2_def acc1_def map_fst_append_score)
  have in1: "map_of acc1 (KStr s) = Some (vals_of acc (KStr s))"
  proof (cases "KStr s \<in> fst ` set acc")
    case True
    then obtain v where "map_of acc (KStr s) = Some v"
      by (metis map_of_eq_None_iff not_Some_eq)
    then show ?thesis using True by (simp add: acc1_def vals_of_def)
  next
    case False
    then have "map_of acc (KStr s) = None" by (simp add: map_of_eq_None_iff)
    then show ?thesis using False by (simp add: acc1_def vals_of_def map_of_append map_add_def)
  qed
  have other1: "map_of acc1 k = map_of acc k" if "k \<noteq> KStr s" for k
    using that by (auto simp add: acc1_def map_of_append map_add_def split: option.splits)
  have v2: "vals_of acc2 (KStr t) =
      vals_of acc (KStr t) @ (if t = s then [analyze_message m] else [])" for t
    using in1 other1[of "KStr t"]
    by (auto simp add: acc2_def vals_of_def map_of_append_score)
  have o2: "map_of acc2 k = map_of acc k" if "k \<notin> range KStr" for k
  proof -
    from that have "k \<noteq> KStr s" by auto
    then show ?thesis using other1[of k] by (simp add: acc2_def map_of_append_score)
  qed
  from Cons.IH[OF d2] obtain scores where sc:
    "score_entries (map chat_message ms) acc2 = Inr scores"
    "distinct (map fst scores)"
    "set (map fst scores) = set (map fst acc2) \<union> (KStr \<circ> fst) ` set ms"
    "\<forall>s. vals_of scores (KStr s) =
            vals_of acc2 (KStr s) @ map (analyze_message \<circ> snd) (filter (\<lambda>sm. fst sm = s) ms)"
    "\<forall>k. k \<notin> range KStr \<longrightarrow> map_of scores k = map_of acc2 k"
    by blast
  have a: "score_entries (map chat_message (sm # ms)) acc = Inr scores"
    using step sc(1) by simp
  have b: "set (map fst scores) = set (map fst acc) \<union> (KStr \<circ> fst) ` set (sm # ms)"
    using sc(3) keys2 by (auto simp add: sm)
  have c: "\<forall>t. vals_of scores (KStr t) =
            vals_of acc (KStr t) @ map (analyze_message \<circ> snd) (filter (\<lambda>sm. fst sm = t) (sm # ms))"
    using sc(4) v2 by (auto simp add: sm)
  have d: "\<forall>k. k \<notin> range KStr \<longrightarrow> map_of scores k = map_of acc k"
    using sc(5) o2 by simp
  from a sc(2) b c d show ?case by blast
qed


lemma summarize_verdict:
  "average_score (summarize vals) = sum_list vals / of_nat (length vals) \<and>
   verdict (summarize vals) =
     (if sum_list vals / of_nat (length vals) > 12 / 10 then ''Highly Suspicious''
      else if sum_list vals / of_nat (length vals) > 1 / 2 then ''Suspicious''
      else ''Likely Truthful'')"
  by (simp add: summarize_def Let_def)

text \<open>
  Claim C3. For every list of chat messages the analysis returns a summary with exactly the
  speakers of the input, each once. A speaker's average is the arithmetic mean of the scores
  of that speaker's messages, and the verdict follows the thresholds: above 1.2 Highly
  Suspicious, above 0.5 and at most 1.2 Suspicious, at most 0.5 Likely Truthful; so an
  average of exactly 1.2 is Suspicious, one of exactly 0.5 Likely Truthful, and the average
  of a speaker with a single message is that message's score.
\<close>

theorem lie_detector_analysis_verdicts:
  "\<exists>summary. lie_detector_analysis (map chat_message ms) = Inr summary \<and>
     distinct (map fst summary) \<and>
     fst ` set summary = (KStr \<circ> fst) ` set ms \<and>
     (\<forall>s r. (KStr s, r) \<in> set summary \<longrightarrow>
        (let vals = map (analyze_message \<circ> snd) (filter (\<lambda>sm. fst sm = s) ms);
             avg = sum_list vals / of_nat (length vals)
         in vals \<noteq> [] \<and> average_score r = avg \<and>
            (avg > 12 / 10 \<longrightarrow> verdict r = ''Highly Suspicious'') \<and>
            (1 / 2 < avg \<and> avg \<le> 12 / 10 \<longrightarrow> verdict r = ''Suspicious'') \<and>
            (avg \<le> 1 / 2 \<longrightarrow> verdict r = ''Likely Truthful'') \<and>
            (avg = 12 / 10 \<longrightarrow> verdict r = ''Suspicious'') \<and>
            (avg = 1 / 2 \<longrightarrow> verdict r = ''Likely Truthful'') \<and>
            (\<forall>x. vals = [x] \<longrightarrow> average_score r = x)))"
proof -
  from score_entries_chat[of "[]" ms] obtain scores where sc:
    "score_entries (map chat_message ms) [] = Inr scores"
    "distinct (map fst scores)"
    "set (map fst scores) = (KStr \<circ> fst) ` set ms"
    "\<forall>s. vals_of scores (KStr s) = map (analyze_message \<circ> snd) (filter (\<lambda>sm. fst sm = s) ms)"
    by (auto simp add: vals_of_def)
  define summary where "summary = map (\<lambda>(speaker, vals). (speaker, summarize vals)) scores"
  have res: "lie_detector_analysis (map chat_message ms) = Inr summary"
    by (simp add: lie_detector_analysis_def sc(1) summary_def)
  have fsts: "map fst summary = map fst scores"
    by (simp add: summary_def case_prod_beta comp_def)
  have dist: "distinct (map fst summary)" using sc(2) fsts by simp
  have keys: "fst ` set summary = (KStr \<circ> fst) ` set ms"
    using sc(3) fsts by (metis set_map)
  have each: "let vals = map (analyze_message \<circ> snd) (filter (\<lambda>sm. fst sm = s) ms);
             avg = sum_list vals / of_nat (length vals)
         in vals \<noteq> [] \<and> average_score r = avg \<and>
            (avg > 12 / 10 \<longrightarrow> verdict r = ''Highly Suspicious'') \<and>
            (1 / 2 < avg \<and> avg \<le> 12 / 10 \<longrightarrow> verdict r = ''Suspicious'') \<and>
            (avg \<le> 1 / 2 \<longrightarrow> verdict r = ''Likely Truthful'') \<and>
            (avg = 12 / 10 \<longrightarrow> verdict r = ''Suspicious'') \<and>
            (avg = 1 / 2 \<longrightarrow> verdict r = ''Likely Truthful'') \<and>
            (\<forall>x. vals = [x] \<longrightarrow> average_score r = x)"
    if mem: "(KStr s, r) \<in> set summary" for s r
  proof -
    define vals where "vals = map (analyze_message \<circ> snd) (filter (\<lambda>sm. fst sm = s) ms)"
    from mem obtain vs where vs: "(KStr s, vs) \<in> set scores" "r = summarize vs"
      by (auto simp add: summary_def)
    from vs(1) sc(2) have "map_of scores (KStr s) = Some vs" by simp
    then have "vals_of scores (KStr s) = vs" by (simp add: vals_of_def)
    with sc(4) have vs_eq: "vs = vals" by (simp add: vals_def)
    from vs(1) have "KStr s \<in> set (map fst scores)" by force
    with sc(3) have "s \<in> fst ` set ms" by auto
    then have ne: "vals \<noteq> []"
      by (auto simp add: vals_def filter_empty_conv)
    have r: "r = summarize vals" using vs(2) vs_eq by simp
    define avg where "avg = sum_list vals / of_nat (length vals)"
    have av: "average_score r = avg"
      unfolding r avg_def by (simp add: summarize_verdict)
    have vd: "verdict r = (if avg > 12 / 10 then ''Highly Suspicious''
                           else if avg > 1 / 2 then ''Suspicious'' else ''Likely Truthful'')"
      unfolding r avg_def by (simp only: summarize_verdict)
    have single: "\<forall>x. vals = [x] \<longrightarrow> average_score r = x"
      unfolding av by (simp add: avg_def)
    have hi: "avg > 12 / 10 \<longrightarrow> verdict r = ''Highly Suspicious''" using vd by simp
    have mid: "1 / 2 < avg \<and> avg \<le> 12 / 10 \<longrightarrow> verdict r = ''Suspicious''" using vd by simp
    have lo: "avg \<le> 1 / 2 \<longrightarrow> verdict r = ''Likely Truthful''" using vd by simp
    have b1: "avg = 12 / 10 \<longrightarrow> verdict r = ''Suspicious''" using vd by simp
    have b2: "avg = 1 / 2 \<longrightarrow> verdict r = ''Likely Truthful''" using vd by simp
    show ?thesis
      unfolding Let_def vals_def[symmetric] avg_def[symmetric]
      using ne av hi mid lo b1 b2 single by blast
  qed
  from res dist keys each show ?thesis by blast
qed


theorem lie_detector_analysis_verdicts_witness:
  "lie_detector_analysis (map chat_message
     [(''bob'', ''maybe i was there ok''), (''alice'', ''Why?''), (''bob'', ''maybe i was there ok''),
      (''bob'', ''Maybe I was there ok''), (''bob'', ''the sky is blue today''),
      (''bob'', ''the sky is blue today'')]) =
   Inr [(KStr ''bob'', \<lparr>average_score = 12 / 10, verdict = ''Suspicious''\<rparr>),
        (KStr ''alice'', \<lparr>average_score = 1 / 2, verdict = ''Likely Truthful''\<rparr>)]"
proof -
  have a: "analyze_message ''maybe i was there ok'' = 2" by code_simp
  have b: "analyze_message ''Maybe I was there ok'' = 2" by code_simp
  have c: "analyze_message ''the sky is blue today'' = 0" by code_simp
  have d: "analyze_message ''Why?'' = 1 / 2" by code_simp
  have e: "lie_detector_analysis (map chat_message
     [(''bob'', ''maybe i was there ok''), (''alice'', ''Why?''), (''bob'', ''maybe i was there ok''),
      (''bob'', ''Maybe I was there ok''), (''bob'', ''the sky is blue today''),
      (''bob'', ''the sky is blue today'')]) =
   Inr [(KStr ''bob'', \<lparr>average_score = 12 / 10, verdict = ''Suspicious''\<rparr>),
        (KStr ''alice'', \<lparr>average_score = 1 / 2, verdict = ''Likely Truthful''\<rparr>)]"
    by (simp add: lie_detector_analysis_def chat_message_def dict_get_def a b c d summarize_def Let_def)
  from lie_detector_analysis_verdicts[of "[(''bob'', ''maybe i was there ok''), (''alice'', ''Why?''), (''bob'', ''maybe i was there ok''),
      (''bob'', ''Maybe I was there ok''), (''bob'', ''the sky is blue today''),
      (''bob'', ''the sky is blue today'')]"] e
  show ?thesis by simp
qed

section \<open>The lie detector route\<close>

text \<open>A value of \<open>messages\<close> that is no list is answered with the fixed message.\<close>

lemma lie_detector_not_list:
  "(\<forall>entries. dict_get kvs ''messages'' (JArr []) \<noteq> JArr entries) \<Longrightarrow>
   lie_detector (JObj kvs) = Inr (Text ''Invalid input. Send a list of messages with speaker and message.'')"
  by (cases "dict_get kvs ''messages'' (JArr [])") (simp_all add: lie_detector_def)

text \<open>
  A list of well-formed chat messages is analyzed and answered with a summary, and so is a
  body without \<open>messages\<close> (the empty summary).
\<close>

lemma lie_detector_chat_messages:
  "\<exists>summary. lie_detector (JObj [(''messages'', JArr (map chat_message ms))]) = Inr (Summary summary)"
proof -
  from score_entries_chat[of "[]" ms] obtain scores where
    "score_entries (map chat_message ms) [] = Inr scores" by auto
  then show ?thesis
    by (simp add: lie_detector_def lie_detector_analysis_def dict_get_def)
qed

lemma lie_detector_no_messages:
  "map_of kvs ''messages'' = None \<Longrightarrow> lie_detector (JObj kvs) = Inr (Summary [])"
  by (simp add: lie_detector_def lie_detector_analysis_def dict_get_def)

text \<open>
  Claim C4. The claim expects every list value of \<open>messages\<close> to be analyzed and answered
  without raising, whatever the shape of its elements. The route checks only that
  \<open>messages\<close> is a list: an element that is no dict, a message that is no string and a
  speaker that cannot be hashed each raise out of the route.
\<close>

theorem lie_detector_raises:
  "lie_detector (JObj [(''messages'', JArr [JInt 42])]) = Inl AttributeError \<and>
   lie_detector (JObj [(''messages'', JArr [JObj [(''speaker'', JStr ''bob''), (''message'', JInt 5)]])]) = Inl AttributeError \<and>
   lie_detector (JObj [(''messages'', JArr [JObj [(''speaker'', JArr []), (''message'', JStr ''hi'')]])]) = Inl TypeError"
  by (simp add: lie_detector_def lie_detector_analysis_def dict_get_def)

section \<open>Topic summarizer: the summary\<close>

text \<open>
  \<open>str.split\<close> with a separator never returns the empty list, so the condition
  \<open>if lines\<close> always holds and the fallback message is never chosen: on a successful fetch
  the summary is always the first three segments joined again, with a period added.
\<close>

lemma split_dot_space_not_Nil: "split_dot_space cur s \<noteq> []"
  by (induction cur s rule: split_dot_space.induct) auto

lemma get_wiki_intro_success:
  "fetch (''https://simple.wikipedia.org/wiki/'' @ map (\<lambda>c. if c = CHR '' '' then CHR ''_'' else c) topic) = Inr (200, paragraphs) \<Longrightarrow>
   get_wiki_intro fetch topic =
     Inr (join ''. '' (take 3 (split_dot_space [] (join '' '' (filter (\<lambda>p. strip p \<noteq> []) paragraphs)))) @ ''.'')"
  by (simp add: get_wiki_intro_def Let_def split_dot_space_not_Nil)

text \<open>
  Claim C5. On a successful fetch the non-blank paragraph texts are joined with single
  spaces, the text is split on \<open>'. '\<close> and the first three segments are joined again with
  a period added (the lemma above); when no paragraph text was found the claim expects the
  message \<open>No summary available.\<close>, but the source returns a lone period.
\<close>

theorem get_wiki_intro_no_paragraphs:
  "get_wiki_intro (\<lambda>url. Inr (200, [])) topic = Inr ''.'' \<and>
   get_wiki_intro (\<lambda>url. Inr (200, [''  '', ''''])) topic = Inr ''.''"
  by (simp add: get_wiki_intro_def Let_def strip_def is_space_def)

section \<open>The alarm route\<close>

lemma alarm_try_cases:
  "alarm_try data = Inr (m, msg) \<longleftrightarrow>
     (\<exists>kvs. data = JObj kvs \<and> py_int (dict_get kvs ''minutes'' (JInt 0)) = Inr m \<and> 0 < m \<and>
        msg = dict_get kvs ''message'' (JStr []) \<and> truthy msg)"
  by (cases data) (auto simp add: alarm_try_def Let_def split: sum.splits)

text \<open>
  Claim C7. For every request body: when the body is no dict, when \<open>minutes\<close> does not
  convert to a positive integer, or when \<open>message\<close> is empty, the route answers with the
  fixed invalid-input message and returns the state as it was (no thread started, alarms
  unchanged); otherwise it answers with the confirmation text, has started one thread and
  has not touched the alarms.
\<close>

theorem alarm_validation:
  "((\<forall>kvs. data \<noteq> JObj kvs) \<longrightarrow>
      alarm repr data st = (Text ''Invalid input. Provide positive minutes and a message.'', st)) \<and>
   (\<forall>kvs. data = JObj kvs \<and>
      ((\<forall>m. py_int (dict_get kvs ''minutes'' (JInt 0)) = Inr m \<longrightarrow> m \<le> 0) \<or>
       \<not> truthy (dict_get kvs ''message'' (JStr []))) \<longrightarrow>
      alarm repr data st = (Text ''Invalid input. Provide positive minutes and a message.'', st)) \<and>
   (\<forall>kvs m. data = JObj kvs \<and> py_int (dict_get kvs ''minutes'' (JInt 0)) = Inr m \<and> 0 < m \<and>
      truthy (dict_get kvs ''message'' (JStr [])) \<longrightarrow>
      alarm repr data st =
        (Text (''Alarm set for '' @ str_of_int m @ '' minutes from now with message: '' @ [CHR 0x27]
               @ format_value repr (dict_get kvs ''message'' (JStr [])) @ [CHR 0x27]),
         st\<lparr>threads := threads st @ [(m, dict_get kvs ''message'' (JStr []))]\<rparr>))"
proof (intro conjI allI impI)
  assume "\<forall>kvs. data \<noteq> JObj kvs"
  then have "\<not> (\<exists>m msg. alarm_try data = Inr (m, msg))"
    by (simp add: alarm_try_cases)
  then show "alarm repr data st = (Text ''Invalid input. Provide positive minutes and a message.'', st)"
    by (cases "alarm_try data") (auto simp add: alarm_def)
next
  fix kvs
  assume a: "data = JObj kvs \<and>
      ((\<forall>m. py_int (dict_get kvs ''minutes'' (JInt 0)) = Inr m \<longrightarrow> m \<le> 0) \<or>
       \<not> truthy (dict_get kvs ''message'' (JStr [])))"
  have "\<not> (\<exists>m msg. alarm_try data = Inr (m, msg))"
  proof
    assume "\<exists>m msg. alarm_try data = Inr (m, msg)"
    then obtain m msg where "alarm_try data = Inr (m, msg)" by blast
    then obtain kvs' where "data = JObj kvs'" "py_int (dict_get kvs' ''minutes'' (JInt 0)) = Inr m"
        "0 < m" "truthy (dict_get kvs' ''message'' (JStr []))"
      unfolding alarm_try_cases by blast
    with a show False by auto
  qed
  then show "alarm repr data st = (Text ''Invalid input. Provide positive minutes and a message.'', st)"
    by (cases "alarm_try data") (auto simp add: alarm_def)
next
  fix kvs m
  assume a: "data = JObj kvs \<and> py_int (dict_get kvs ''minutes'' (JInt 0)) = Inr m \<and> 0 < m \<and>
      truthy (dict_get kvs ''message'' (JStr []))"
  then have "alarm_try data = Inr (m, dict_get kvs ''message'' (JStr []))"
    unfolding alarm_try_cases by blast
  then show "alarm repr data st =
        (Text (''Alarm set for '' @ str_of_int m @ '' minutes from now with message: '' @ [CHR 0x27]
               @ format_value repr (dict_get kvs ''message'' (JStr [])) @ [CHR 0x27]),
         st\<lparr>threads := threads st @ [(m, dict_get kvs ''message'' (JStr []))]\<rparr>)"
    by (simp add: alarm_def set_alarm_def)
qed

theorem alarm_validation_witness:
  "alarm (\<lambda>v. []) (JArr []) \<lparr>alarms = [], threads = []\<rparr> =
     (Text ''Invalid input. Provide positive minutes and a message.'', \<lparr>alarms = [], threads = []\<rparr>) \<and>
   alarm (\<lambda>v. []) (JObj [(''minutes'', JInt 0), (''message'', JStr ''tea'')]) \<lparr>alarms = [], threads = []\<rparr> =
     (Text ''Invalid input. Provide positive minutes and a message.'', \<lparr>alarms = [], threads = []\<rparr>) \<and>
   alarm (\<lambda>v. []) (JObj [(''minutes'', JStr ''5''), (''message'', JStr [])]) \<lparr>alarms = [], threads = []\<rparr> =
     (Text ''Invalid input. Provide positive minutes and a message.'', \<lparr>alarms = [], threads = []\<rparr>) \<and>
   alarm (\<lambda>v. []) (JObj [(''minutes'', JStr ''5''), (''message'', JStr ''tea'')]) \<lparr>alarms = [], threads = []\<rparr> =
     (Text (''Alarm set for 5 minutes from now with message: '' @ [CHR 0x27] @ ''tea'' @ [CHR 0x27]),
      \<lparr>alarms = [], threads = [(5, JStr ''tea'')]\<rparr>)"
proof -
  have five: "int_of_str ''5'' = Inr 5" by code_simp
  have s5: "str_of_int 5 = ''5''" by code_simp
  have 1: "alarm (\<lambda>v. []) (JArr []) \<lparr>alarms = [], threads = []\<rparr> =
     (Text ''Invalid input. Provide positive minutes and a message.'', \<lparr>alarms = [], threads = []\<rparr>)"
    using alarm_validation[of "JArr []" "\<lambda>v. []" "\<lparr>alarms = [], threads = []\<rparr>"] by simp
  have 2: "alarm (\<lambda>v. []) (JObj [(''minutes'', JInt 0), (''message'', JStr ''tea'')]) \<lparr>alarms = [], threads = []\<rparr> =
     (Text ''Invalid input. Provide positive minutes and a message.'', \<lparr>alarms = [], threads = []\<rparr>)"
    using alarm_validation[of "JObj [(''minutes'', JInt 0), (''message'', JStr ''tea'')]" "\<lambda>v. []" "\<lparr>alarms = [], threads = []\<rparr>"]
    by (simp add: dict_get_def)
  have 3: "alarm (\<lambda>v. []) (JObj [(''minutes'', JStr ''5''), (''message'', JStr [])]) \<lparr>alarms = [], threads = []\<rparr> =
     (Text ''Invalid input. Provide positive minutes and a message.'', \<lparr>alarms = [], threads = []\<rparr>)"
    using alarm_validation[of "JObj [(''minutes'', JStr ''5''), (''message'', JStr [])]" "\<lambda>v. []" "\<lparr>alarms = [], threads = []\<rparr>"]
    by (simp add: dict_get_def)
  have 4: "alarm (\<lambda>v. []) (JObj [(''minutes'', JStr ''5''), (''message'', JStr ''tea'')]) \<lparr>alarms = [], threads = []\<rparr> =
     (Text (''Alarm set for 5 minutes from now with message: '' @ [CHR 0x27] @ ''tea'' @ [CHR 0x27]),
      \<lparr>alarms = [], threads = [(5, JStr ''tea'')]\<rparr>)"
  proof -
    have h: "JObj [(''minutes'', JStr ''5''), (''message'', JStr ''tea'')] =
               JObj [(''minutes'', JStr ''5''), (''message'', JStr ''tea'')] \<and>
             py_int (dict_get [(''minutes'', JStr ''5''), (''message'', JStr ''tea'')] ''minutes'' (JInt 0)) = Inr 5 \<and>
             (0::int) < 5 \<and>
             truthy (dict_get [(''minutes'', JStr ''5''), (''message'', JStr ''tea'')] ''message'' (JStr []))"
      by (simp add: dict_get_def five)
    from alarm_validation[of _ "\<lambda>v. []" "\<lparr>alarms = [], threads = []\<rparr>",
        THEN conjunct2, THEN conjunct2, rule_format, OF h]
    show ?thesis by (simp add: dict_get_def s5 format_value_def)
  qed
  from 1 2 3 4 show ?thesis by simp
qed

section \<open>Fuzzy matcher: what the ratio measures\<close>

lemma finite_common_subseqs: "finite (common_subseqs xs ys)"
proof -
  have "common_subseqs xs ys \<subseteq> {zs. set zs \<subseteq> set xs \<and> length zs \<le> length xs}"
    by (auto simp add: common_subseqs_def dest: list_emb_length list_emb_set)
  then show ?thesis by (rule finite_subset) (rule finite_lists_length_le, simp)
qed

lemma Nil_common_subseqs: "[] \<in> common_subseqs xs ys"
  by (simp add: common_subseqs_def)

lemma lcs_len_ge: "zs \<in> common_subseqs xs ys \<Longrightarrow> length zs \<le> lcs_len xs ys"
  unfolding lcs_len_def using finite_common_subseqs[of xs ys] by (intro Max_ge) auto

lemma lcs_len_witness: "\<exists>zs\<in>common_subseqs xs ys. length zs = lcs_len xs ys"
proof -
  have "Max (length ` common_subseqs xs ys) \<in> length ` common_subseqs xs ys"
    using finite_common_subseqs[of xs ys] Nil_common_subseqs[of xs ys] by (intro Max_in) auto
  then show ?thesis by (auto simp add: lcs_len_def)
qed

lemma lcs_len_append:
  "lcs_len xs ys + lcs_len xs' ys' \<le> lcs_len (xs @ xs') (ys @ ys')"
proof -
  obtain zs where zs: "zs \<in> common_subseqs xs ys" "length zs = lcs_len xs ys"
    using lcs_len_witness by blast
  obtain zs' where zs': "zs' \<in> common_subseqs xs' ys'" "length zs' = lcs_len xs' ys'"
    using lcs_len_witness by blast
  have "zs @ zs' \<in> common_subseqs (xs @ xs') (ys @ ys')"
    using zs(1) zs'(1) by (simp add: common_subseqs_def list_emb_append_mono)
  from lcs_len_ge[OF this] zs(2) zs'(2) show ?thesis by simp
qed

lemma lcs_len_self: "lcs_len xs xs = length xs"
proof (rule antisym)
  obtain zs where "zs \<in> common_subseqs xs xs" "length zs = lcs_len xs xs"
    using lcs_len_witness by blast
  then show "lcs_len xs xs \<le> length xs"
    by (auto simp add: common_subseqs_def dest: list_emb_length)
  show "length xs \<le> lcs_len xs xs"
    by (rule lcs_len_ge) (simp add: common_subseqs_def)
qed

lemma subseq_mset: "subseq zs xs \<Longrightarrow> mset zs \<subseteq># mset xs"
  by (induction rule: list_emb.induct) (auto intro: subset_mset.order_trans)

lemma lcs_len_le_inter: "lcs_len xs ys \<le> size (mset xs \<inter># mset ys)"
proof -
  obtain zs where zs: "zs \<in> common_subseqs xs ys" "length zs = lcs_len xs ys"
    using lcs_len_witness by blast
  then have "mset zs \<subseteq># mset xs \<inter># mset ys"
    by (simp add: common_subseqs_def subseq_mset)
  from size_mset_mono[OF this] zs(2) show ?thesis by simp
qed

lemma lcs_len_full:
  assumes "lcs_len xs ys = length xs" "length xs = length ys"
  shows "xs = ys"
proof -
  obtain zs where zs: "subseq zs xs" "subseq zs ys" "length zs = lcs_len xs ys"
    using lcs_len_witness[of xs ys] by (auto simp add: common_subseqs_def)
  have "zs = xs" using subseq_same_length[OF zs(1)] zs(3) assms by simp
  moreover have "zs = ys" using subseq_same_length[OF zs(2)] zs(3) assms by simp
  ultimately show ?thesis by simp
qed


lemma slice_split: "lo \<le> mid \<Longrightarrow> mid \<le> hi \<Longrightarrow> slice a lo hi = slice a lo mid @ slice a mid hi"
proof -
  assume "lo \<le> mid" "mid \<le> hi"
  then have "hi - lo = (mid - lo) + (hi - mid)" by simp
  then have "take (hi - lo) (drop lo a) = take (mid - lo) (drop lo a) @ take (hi - mid) (drop (mid - lo) (drop lo a))"
    by (simp only: take_add)
  then show ?thesis using \<open>lo \<le> mid\<close> by (simp add: slice_def)
qed

lemma slice_eq:
  assumes "i + k \<le> length a" "j + k \<le> length b" "\<forall>t<k. a ! (i + t) = b ! (j + t)"
  shows "slice a i (i + k) = slice b j (j + k)"
  using assms by (intro nth_equalityI) (auto simp add: slice_def)

lemma common_split:
  assumes "alo \<le> i" "i + k \<le> ahi" "ahi \<le> length a" "blo \<le> j" "j + k \<le> bhi" "bhi \<le> length b"
    and "\<forall>t<k. a ! (i + t) = b ! (j + t)"
  shows "common a b (alo, i, blo, j) + k + common a b (i + k, ahi, j + k, bhi) \<le> common a b (alo, ahi, blo, bhi)"
proof -
  have sa: "slice a alo ahi = slice a alo i @ slice a i (i + k) @ slice a (i + k) ahi"
    using assms(1,2) slice_split[of alo i ahi a] slice_split[of i "i + k" ahi a] by simp
  have sb: "slice b blo bhi = slice b blo j @ slice b j (j + k) @ slice b (j + k) bhi"
    using assms(4,5) slice_split[of blo j bhi b] slice_split[of j "j + k" bhi b] by simp
  have mid: "slice a i (i + k) = slice b j (j + k)"
    using assms by (intro slice_eq) auto
  have len: "length (slice b j (j + k)) = k" using assms(5,6) by (simp add: slice_def)
  have "lcs_len (slice a alo i) (slice b blo j) + lcs_len (slice b j (j + k)) (slice b j (j + k))
        \<le> lcs_len (slice a alo i @ slice b j (j + k)) (slice b blo j @ slice b j (j + k))"
    by (rule lcs_len_append)
  moreover have "lcs_len (slice a alo i @ slice b j (j + k)) (slice b blo j @ slice b j (j + k))
        + lcs_len (slice a (i + k) ahi) (slice b (j + k) bhi)
        \<le> lcs_len ((slice a alo i @ slice b j (j + k)) @ slice a (i + k) ahi)
                   ((slice b blo j @ slice b j (j + k)) @ slice b (j + k) bhi)"
    by (rule lcs_len_append)
  ultimately show ?thesis
    unfolding common_def by (simp add: sa sb mid lcs_len_self len)
qed

lemma match_queue_step:
  assumes "queue \<noteq> []" "last queue = (alo, ahi, blo, bhi)"
    and "find_longest_match a b alo ahi blo bhi = (i, j, k)"
  shows "match_queue a b queue acc =
    (if k \<noteq> 0 then
       match_queue a b
         (let queue = butlast queue;
              queue = (if alo < i \<and> blo < j then queue @ [(alo, i, blo, j)] else queue);
              queue = (if i + k < ahi \<and> j + k < bhi then queue @ [(i + k, ahi, j + k, bhi)] else queue)
          in queue)
         (acc @ [(i, j, k)])
     else match_queue a b (butlast queue) acc)"
  by (subst match_queue.simps) (simp add: assms Let_def)


lemma match_queue_matched:
  "wf_queue a b queue \<Longrightarrow>
   matched (match_queue a b queue acc) \<le> matched acc + sum_list (map (common a b) queue)"
proof (induction "queue_size queue" arbitrary: queue acc rule: less_induct)
  case less
  show ?case
  proof (cases "queue = []")
    case True
    then show ?thesis by (subst match_queue.simps) simp
  next
    case False
    obtain alo ahi blo bhi where last: "last queue = (alo, ahi, blo, bhi)"
      by (cases "last queue") auto
    obtain i j k where flm: "find_longest_match a b alo ahi blo bhi = (i, j, k)"
      by (cases "find_longest_match a b alo ahi blo bhi") auto
    define q0 where "q0 = butlast queue"
    have queue: "queue = q0 @ [(alo, ahi, blo, bhi)]"
      using False last unfolding q0_def by (metis append_butlast_last_id)
    have wf0: "wf_queue a b q0" using less.prems unfolding wf_queue_def queue by auto
    have wfl: "alo \<le> ahi" "ahi \<le> length a" "blo \<le> bhi" "bhi \<le> length b"
      using less.prems unfolding wf_queue_def queue by auto
    have size: "queue_size queue = queue_size q0 + 2 * (ahi - alo) + 1"
      unfolding queue by (rule queue_size_append)
    have sum: "sum_list (map (common a b) queue) = sum_list (map (common a b) q0) + common a b (alo, ahi, blo, bhi)"
      unfolding queue by simp
    show ?thesis
    proof (cases "k = 0")
      case True
      have "match_queue a b queue acc = match_queue a b q0 acc"
        using match_queue_step[OF False last flm, of acc] True by (simp add: q0_def)
      moreover have "queue_size q0 < queue_size queue" using size by simp
      ultimately show ?thesis using less.hyps[OF _ wf0, of acc] sum by simp
    next
      case kne: False
      note bounds = find_longest_match_bounds[OF flm kne]
      define q1 where "q1 = (if alo < i \<and> blo < j then q0 @ [(alo, i, blo, j)] else q0)"
      define q2 where "q2 = (if i + k < ahi \<and> j + k < bhi then q1 @ [(i + k, ahi, j + k, bhi)] else q1)"
      have step: "match_queue a b queue acc = match_queue a b q2 (acc @ [(i, j, k)])"
        using match_queue_step[OF False last flm, of acc] kne
        by (simp add: q0_def q1_def q2_def Let_def)
      have s1: "queue_size q1 \<le> queue_size q0 + 2 * (i - alo) + 1"
        by (simp add: q1_def queue_size_append)
      have s2: "queue_size q2 \<le> queue_size q1 + 2 * (ahi - (i + k)) + 1"
        by (simp add: q2_def queue_size_append)
      have dec: "queue_size q2 < queue_size queue"
        using size s1 s2 bounds(1,2) kne by simp
      have wf1: "wf_queue a b q1"
        using wf0 wfl bounds unfolding q1_def wf_queue_def by auto
      have wf2: "wf_queue a b q2"
        using wf1 wfl bounds unfolding q2_def wf_queue_def by auto
      have c1: "sum_list (map (common a b) q1) \<le> sum_list (map (common a b) q0) + common a b (alo, i, blo, j)"
        by (simp add: q1_def)
      have c2: "sum_list (map (common a b) q2) \<le> sum_list (map (common a b) q1) + common a b (i + k, ahi, j + k, bhi)"
        by (simp add: q2_def)
      have split: "common a b (alo, i, blo, j) + k + common a b (i + k, ahi, j + k, bhi) \<le> common a b (alo, ahi, blo, bhi)"
        using bounds wfl by (intro common_split) auto
      have tot: "matched (acc @ [(i, j, k)]) = matched acc + k" by (simp add: matched_def)
      from less.hyps[OF dec wf2, of "acc @ [(i, j, k)]"]
      have "matched (match_queue a b q2 (acc @ [(i, j, k)])) \<le> matched acc + k + sum_list (map (common a b) q2)"
        using tot by simp
      with c1 c2 split sum show ?thesis unfolding step by linarith
    qed
  qed
qed

lemma matched_sort: "matched (sort blocks) = matched blocks"
proof -
  have "mset (map (\<lambda>(i, j, k). k) (sort blocks)) = mset (map (\<lambda>(i, j, k). k) blocks)"
    by simp
  then show ?thesis unfolding matched_def by (metis sum_mset_sum_list)
qed

lemma matched_collapse: "matched (collapse blocks (i1, j1, k1) acc) = matched acc + k1 + matched blocks"
  by (induction blocks "(i1, j1, k1)" acc arbitrary: i1 j1 k1 rule: collapse.induct)
     (auto simp add: matched_def)

lemma matches_matched:
  "sum_list (map (\<lambda>(i, j, k). k) (get_matching_blocks a b)) =
   matched (match_queue a b [(0, length a, 0, length b)] [])"
  using matched_collapse[of "sort (match_queue a b [(0, length a, 0, length b)] [])" 0 0 0 "[]"]
  by (simp add: get_matching_blocks_def Let_def matched_sort) (simp add: matched_def)

lemma matches_le_lcs:
  "sum_list (map (\<lambda>(i, j, k). k) (get_matching_blocks a b)) \<le> lcs_len a b"
proof -
  have "wf_queue a b [(0, length a, 0, length b)]" by (simp add: wf_queue_def)
  from match_queue_matched[OF this, of "[]"] show ?thesis
    by (simp add: matches_matched common_def slice_def matched_def)
qed

lemma matches_le_common:
  "sum_list (map (\<lambda>(i, j, k). k) (get_matching_blocks a b)) \<le> size (mset a \<inter># mset b)"
  using matches_le_lcs[of a b] lcs_len_le_inter[of a b] by simp

lemma quick_loop_count:
  "\<forall>e. nat (case avail e of Some n \<Rightarrow> n | None \<Rightarrow> int (fb e)) = count B e \<Longrightarrow>
   quick_loop rest fb avail m = m + size (mset rest \<inter># B)"
proof (induction rest arbitrary: avail m B)
  case Nil
  then show ?case by simp
next
  case (Cons elt rest)
  define numb where "numb = (case avail elt of Some n \<Rightarrow> n | None \<Rightarrow> int (fb elt))"
  have cnt: "nat numb = count B elt" using Cons.prems by (simp add: numb_def)
  have step: "quick_loop (elt # rest) fb avail m =
      quick_loop rest fb (avail(elt \<mapsto> numb - 1)) (if numb > 0 then m + 1 else m)"
    by (simp add: numb_def Let_def)
  show ?case
  proof (cases "numb > 0")
    case True
    then have mem: "elt \<in># B" using cnt by (simp add: count_greater_zero_iff[symmetric] del: count_greater_zero_iff)
    have inv: "\<forall>e. nat (case (avail(elt \<mapsto> numb - 1)) e of Some n \<Rightarrow> n | None \<Rightarrow> int (fb e)) = count (B - {#elt#}) e"
      using Cons.prems cnt True by (auto simp add: nat_diff_distrib)
    have sz: "size (mset (elt # rest) \<inter># B) = 1 + size (mset rest \<inter># (B - {#elt#}))"
      using mem by (simp add: inter_add_left2)
    have "quick_loop (elt # rest) fb avail m = quick_loop rest fb (avail(elt \<mapsto> numb - 1)) (m + 1)"
      unfolding step if_P[OF True] ..
    also have "\<dots> = (m + 1) + size (mset rest \<inter># (B - {#elt#}))"
      by (rule Cons.IH[OF inv])
    also have "\<dots> = m + size (mset (elt # rest) \<inter># B)"
      unfolding sz by simp
    finally show ?thesis .
  next
    case False
    then have nmem: "elt \<notin># B" using cnt by (simp add: count_eq_zero_iff[symmetric] del: count_eq_zero_iff)
    have inv: "\<forall>e. nat (case (avail(elt \<mapsto> numb - 1)) e of Some n \<Rightarrow> n | None \<Rightarrow> int (fb e)) = count B e"
      using Cons.prems cnt False by auto
    have sz: "size (mset (elt # rest) \<inter># B) = size (mset rest \<inter># B)"
      using nmem by (simp add: inter_add_left1)
    have "quick_loop (elt # rest) fb avail m = quick_loop rest fb (avail(elt \<mapsto> numb - 1)) m"
      unfolding step if_not_P[OF False] ..
    also have "\<dots> = m + size (mset rest \<inter># B)"
      by (rule Cons.IH[OF inv])
    finally show ?thesis unfolding sz .
  qed
qed

lemma quick_matches:
  "quick_loop a (count_list b) Map.empty 0 = size (mset a \<inter># mset b)"
  using quick_loop_count[where avail = Map.empty and fb = "count_list b" and B = "mset b" and rest = a and m = 0]
  by (simp add: count_mset)

lemma calculate_ratio_mono: "m \<le> m' \<Longrightarrow> calculate_ratio m l \<le> calculate_ratio m' l"
  by (simp add: calculate_ratio_def divide_right_mono)

lemma ratio_le_quick_ratio: "ratio a b \<le> quick_ratio a b"
  unfolding ratio_def quick_ratio_def Let_def quick_matches
  by (rule calculate_ratio_mono) (rule matches_le_common)

lemma quick_ratio_le_real_quick_ratio: "quick_ratio a b \<le> real_quick_ratio a b"
proof -
  have "size (mset a \<inter># mset b) \<le> size (mset a)" by (intro size_mset_mono) simp
  moreover have "size (mset a \<inter># mset b) \<le> size (mset b)" by (intro size_mset_mono) simp
  ultimately have "size (mset a \<inter># mset b) \<le> min (length a) (length b)" by simp
  then show ?thesis
    unfolding real_quick_ratio_def quick_ratio_def Let_def quick_matches
    by (rule calculate_ratio_mono)
qed

lemma real_quick_ratio_le_1: "real_quick_ratio a b \<le> 1"
proof -
  have "2 * min (length a) (length b) \<le> length a + length b" by simp
  then have "2 * rat_of_nat (min (length a) (length b)) \<le> rat_of_nat (length a + length b)"
    by (metis of_nat_le_iff of_nat_mult of_nat_numeral)
  then show ?thesis
    by (simp add: real_quick_ratio_def calculate_ratio_def Let_def del: of_nat_add of_nat_min)
qed

lemma ratio_range: "0 \<le> ratio a b \<and> ratio a b \<le> 1"
proof
  show "0 \<le> ratio a b" by (simp add: ratio_def calculate_ratio_def Let_def)
  show "ratio a b \<le> 1"
    using ratio_le_quick_ratio[of a b] quick_ratio_le_real_quick_ratio[of a b] real_quick_ratio_le_1[of a b]
    by linarith
qed

lemma close_enough_iff:
  "real_quick_ratio x w \<ge> c \<and> quick_ratio x w \<ge> c \<and> ratio x w \<ge> c \<longleftrightarrow> ratio x w \<ge> c"
  using ratio_le_quick_ratio[of x w] quick_ratio_le_real_quick_ratio[of x w] by auto


lemma diag_run_step:
  "chain_b a (a ! x) \<noteq> [] \<Longrightarrow> diag_run a x = (if x = 0 then 0 else diag_run a (x - 1)) + 1"
  by (cases x) simp_all

lemma for_j_diag:
  assumes f0: "i = 0 \<longrightarrow> (\<forall>j. f j = 0)"
    and f1: "0 < i \<longrightarrow> (\<forall>j. f j \<le> diag_run a (min (i - 1) j))"
    and f2: "0 < i \<longrightarrow> f (i - 1) = diag_run a (i - 1)"
    and n: "bhi = length a"
  shows "sorted_wrt (<) js \<Longrightarrow> \<forall>j\<in>set js. j < length a \<and> a ! j = a ! i \<Longrightarrow>
    (js \<noteq> [] \<longrightarrow> chain_b a (a ! i) \<noteq> []) \<Longrightarrow>
    \<forall>j. newf j \<le> diag_run a (min i j) \<Longrightarrow> i \<in> set js \<or> newf i = diag_run a i \<Longrightarrow>
    bi = bj \<Longrightarrow> \<forall>x<i. diag_run a x \<le> bk \<Longrightarrow> i \<in> set js \<or> diag_run a i \<le> bk \<Longrightarrow>
    for_j js i 0 bhi f (newf, bi, bj, bk) = (newf', bi', bj', bk') \<Longrightarrow>
    (\<forall>j. newf' j \<le> diag_run a (min i j)) \<and> newf' i = diag_run a i \<and> bi' = bj' \<and>
    (\<forall>x\<le>i. diag_run a x \<le> bk')"
proof (induction js arbitrary: newf bi bj bk)
  case Nil
  then have "newf' = newf" "bi' = bi" "bj' = bj" "bk' = bk" by simp_all
  with Nil show ?case by (auto simp add: le_less)
next
  case (Cons j js)
  have jn: "j < length a" and aj: "a ! j = a ! i" using Cons.prems(2) by simp_all
  have np: "chain_b a (a ! i) \<noteq> []" using Cons.prems(3) by simp
  define k where "k = (if j = 0 then 0 else f (j - 1)) + 1"
  have step: "for_j (j # js) i 0 bhi f (newf, bi, bj, bk) =
          (if k > bk then for_j js i 0 bhi f (newf(j := k), i + 1 - k, j + 1 - k, k)
           else for_j js i 0 bhi f (newf(j := k), bi, bj, bk))"
    using jn n by (simp add: k_def Let_def)
  have am: "a ! (min i j) = a ! i" using aj by (simp add: min_def)
  have dm: "diag_run a (min i j) = (if min i j = 0 then 0 else diag_run a (min i j - 1)) + 1"
    using diag_run_step[of a "min i j"] np am by simp
  have k_le: "k \<le> diag_run a (min i j)"
  proof (cases "min i j = 0")
    case True
    then have "k = 1" using f0 by (auto simp add: k_def min_def split: if_splits)
    then show ?thesis using dm True by simp
  next
    case False
    then have i0: "0 < i" and j0: "0 < j" by (auto simp add: min_def split: if_splits)
    have "f (j - 1) \<le> diag_run a (min (i - 1) (j - 1))" using f1 i0 by blast
    moreover have "min (i - 1) (j - 1) = min i j - 1" using i0 j0 by (simp add: min_def)
    ultimately show ?thesis using dm False j0 by (simp add: k_def)
  qed
  have k_diag: "k = diag_run a i" if "j = i"
  proof (cases "i = 0")
    case True
    then show ?thesis using that dm by (simp add: k_def)
  next
    case False
    then show ?thesis using that dm f2 by (simp add: k_def)
  qed
  have sorted_rest: "sorted_wrt (<) js" and gt: "\<forall>x\<in>set js. j < x" using Cons.prems(1) by simp_all
  have mem_rest: "\<forall>x\<in>set js. x < length a \<and> a ! x = a ! i" using Cons.prems(2) by simp
  have np_rest: "js \<noteq> [] \<longrightarrow> chain_b a (a ! i) \<noteq> []" using np by simp
  have newf_le: "\<forall>x. (newf(j := k)) x \<le> diag_run a (min i x)"
    using Cons.prems(4) k_le by simp
  have newf_i: "i \<in> set js \<or> (newf(j := k)) i = diag_run a i"
    using Cons.prems(5) k_diag by auto
  show ?case
  proof (cases "k > bk")
    case True
    have ji: "j = i"
    proof (rule ccontr)
      assume ne: "j \<noteq> i"
      show False
      proof (cases "j < i")
        case True
        then have "diag_run a j \<le> bk" using Cons.prems(7) by simp
        moreover have "min i j = j" using True by simp
        ultimately show False using k_le \<open>k > bk\<close> by simp
      next
        case False
        then have "i < j" using ne by simp
        then have "i \<notin> set (j # js)" using gt by auto
        then have "diag_run a i \<le> bk" using Cons.prems(8) by simp
        moreover have "min i j = i" using \<open>i < j\<close> by simp
        ultimately show False using k_le \<open>k > bk\<close> by simp
      qed
    qed
    have eq: "for_j js i 0 bhi f (newf(j := k), i + 1 - k, j + 1 - k, k) = (newf', bi', bj', bk')"
      using Cons.prems(9) unfolding step if_P[OF True] .
    have b1: "i + 1 - k = j + 1 - k" using ji by simp
    have b2: "\<forall>x<i. diag_run a x \<le> k" using Cons.prems(7) True by auto
    have b3: "i \<in> set js \<or> diag_run a i \<le> k" using k_diag[OF ji] by simp
    from Cons.IH[OF sorted_rest mem_rest np_rest newf_le newf_i b1 b2 b3 eq] show ?thesis .
  next
    case False
    have eq: "for_j js i 0 bhi f (newf(j := k), bi, bj, bk) = (newf', bi', bj', bk')"
      using Cons.prems(9) unfolding step if_not_P[OF False] .
    have b3: "i \<in> set js \<or> diag_run a i \<le> bk"
    proof (cases "j = i")
      case True
      then show ?thesis using k_diag False by simp
    next
      case ne: False
      then show ?thesis using Cons.prems(8) by auto
    qed
    from Cons.IH[OF sorted_rest mem_rest np_rest newf_le newf_i Cons.prems(6) Cons.prems(7) b3 eq] show ?thesis .
  qed
qed


lemma chain_b_sorted: "sorted_wrt (<) (chain_b b e)"
  by (simp add: chain_b_def indices_of_def Let_def sorted_wrt_filter)

lemma chain_b_less: "\<forall>j\<in>set (chain_b b e). j < length b \<and> b ! j = e"
  by (simp add: chain_b_def indices_of_def Let_def)

lemma chain_b_self: "i < length b \<Longrightarrow> chain_b b (b ! i) \<noteq> [] \<Longrightarrow> i \<in> set (chain_b b (b ! i))"
  by (auto simp add: chain_b_def indices_of_def Let_def split: if_splits)

lemma for_i_diag:
  "i = 0 \<longrightarrow> (\<forall>j. f j = 0) \<Longrightarrow> 0 < i \<longrightarrow> (\<forall>j. f j \<le> diag_run a (min (i - 1) j)) \<Longrightarrow>
   0 < i \<longrightarrow> f (i - 1) = diag_run a (i - 1) \<Longrightarrow> bi = bj \<Longrightarrow> \<forall>x<i. diag_run a x \<le> bk \<Longrightarrow>
   for_i a (chain_b a) [i..<length a] 0 (length a) f (bi, bj, bk) = (ri, rj, rk) \<Longrightarrow> ri = rj"
proof (induction "length a - i" arbitrary: i f bi bj bk)
  case 0
  then show ?case by simp
next
  case (Suc m)
  then have lt: "i < length a" by simp
  define js where "js = chain_b a (a ! i)"
  obtain newf bi' bj' bk' where fj: "for_j js i 0 (length a) f (\<lambda>j. 0, bi, bj, bk) = (newf, bi', bj', bk')"
    by (cases "for_j js i 0 (length a) f (\<lambda>j. 0, bi, bj, bk)") auto
  have s: "sorted_wrt (<) js" unfolding js_def by (rule chain_b_sorted)
  have mem: "\<forall>j\<in>set js. j < length a \<and> a ! j = a ! i" unfolding js_def by (rule chain_b_less)
  have np: "js \<noteq> [] \<longrightarrow> chain_b a (a ! i) \<noteq> []" by (simp add: js_def)
  have z: "\<forall>j. (\<lambda>j. 0) j \<le> diag_run a (min i j)" by simp
  have di: "i \<in> set js \<or> diag_run a i = 0"
  proof (cases "chain_b a (a ! i) = []")
    case True
    then show ?thesis by (cases i) simp_all
  next
    case False
    then show ?thesis using chain_b_self[OF lt] by (simp add: js_def)
  qed
  then have zi: "i \<in> set js \<or> (\<lambda>j. 0) i = diag_run a i" by auto
  from di have bki: "i \<in> set js \<or> diag_run a i \<le> bk" by auto
  from for_j_diag[OF Suc.prems(1) Suc.prems(2) Suc.prems(3) refl s mem np z zi Suc.prems(4) Suc.prems(5) bki fj]
  have r: "\<forall>j. newf j \<le> diag_run a (min i j)" "newf i = diag_run a i" "bi' = bj'"
      "\<forall>x\<le>i. diag_run a x \<le> bk'" by simp_all
  have m: "m = length a - Suc i" using Suc.hyps(2) by simp
  have step: "for_i a (chain_b a) [i..<length a] 0 (length a) f (bi, bj, bk) =
      for_i a (chain_b a) [Suc i..<length a] 0 (length a) newf (bi', bj', bk')"
    using lt fj by (simp add: upt_conv_Cons js_def)
  have p1: "Suc i = 0 \<longrightarrow> (\<forall>j. newf j = 0)" by simp
  have p2: "0 < Suc i \<longrightarrow> (\<forall>j. newf j \<le> diag_run a (min (Suc i - 1) j))" using r(1) by simp
  have p3: "0 < Suc i \<longrightarrow> newf (Suc i - 1) = diag_run a (Suc i - 1)" using r(2) by simp
  have p5: "\<forall>x<Suc i. diag_run a x \<le> bk'" using r(4) by (simp add: less_Suc_eq_le)
  from Suc.hyps(1)[OF m p1 p2 p3 r(3) p5] Suc.prems(6) show ?case unfolding step by simp
qed

lemma extend_back_self: "extend_back a a 0 0 (i, i, k) = (0, 0, k + i)"
proof (induction i arbitrary: k)
  case 0
  show ?case by (subst extend_back.simps) simp
next
  case (Suc i)
  have "extend_back a a 0 0 (Suc i, Suc i, k) = extend_back a a 0 0 (i, i, k + 1)"
    by (subst extend_back.simps) simp
  then show ?case using Suc[of "k + 1"] by simp
qed

lemma extend_forward_self: "k \<le> n \<Longrightarrow> extend_forward a a n n (0, 0, k) = (0, 0, n)"
proof (induction "n - k" arbitrary: k)
  case 0
  then show ?case by (subst extend_forward.simps) simp
next
  case (Suc m)
  then have "extend_forward a a n n (0, 0, k) = extend_forward a a n n (0, 0, k + 1)"
    by (subst extend_forward.simps) simp
  moreover have "m = n - (k + 1)" "k + 1 \<le> n" using Suc by simp_all
  ultimately show ?case using Suc.hyps(1)[of "k + 1"] by simp
qed

lemma find_longest_match_self:
  "find_longest_match a a 0 (length a) 0 (length a) = (0, 0, length a)"
proof -
  obtain ri rj rk where r: "for_i a (chain_b a) [0..<length a] 0 (length a) (\<lambda>j. 0) (0, 0, 0) = (ri, rj, rk)"
    by (cases "for_i a (chain_b a) [0..<length a] 0 (length a) (\<lambda>j. 0) (0, 0, 0)") auto
  have diag: "ri = rj"
    by (rule for_i_diag[OF _ _ _ _ _ r]) simp_all
  have 0: "good a a 0 (length a) 0 (length a) (0, 0, 0)" by (simp add: good_def)
  have ri0: "row_inv a a 0 0 0 (\<lambda>j. 0)" by (simp add: row_inv_def)
  from for_i_good[OF chain_b_index ri0 le_refl 0] r
  have le: "ri + rk \<le> length a" by (auto simp add: good_def)
  have "extend_back a a 0 0 (ri, rj, rk) = (0, 0, rk + ri)"
    unfolding diag by (rule extend_back_self)
  moreover have "extend_forward a a (length a) (length a) (0, 0, rk + ri) = (0, 0, length a)"
    using le by (intro extend_forward_self) simp
  ultimately show ?thesis by (simp add: find_longest_match_def r Let_def)
qed

lemma match_queue_self:
  "matched (match_queue a a [(0, length a, 0, length a)] []) = length a"
proof (cases "length a = 0")
  case True
  have "match_queue a a [(0, length a, 0, length a)] [] = match_queue a a [] []"
    using match_queue_step[of "[(0, length a, 0, length a)]" 0 "length a" 0 "length a" a a 0 0 "length a" "[]"]
      find_longest_match_self[of a] True by simp
  then show ?thesis using True by (subst (asm) match_queue.simps[of a a "[]"]) (simp add: matched_def)
next
  case False
  have "match_queue a a [(0, length a, 0, length a)] [] = match_queue a a [] [(0, 0, length a)]"
    using match_queue_step[of "[(0, length a, 0, length a)]" 0 "length a" 0 "length a" a a 0 0 "length a" "[]"]
      find_longest_match_self[of a] False by simp
  then show ?thesis by (subst (asm) match_queue.simps[of a a "[]"]) (simp add: matched_def)
qed

lemma ratio_self: "ratio a a = 1"
  by (simp add: ratio_def Let_def matches_matched match_queue_self calculate_ratio_def)


lemma ratio_one_iff: "ratio a b = 1 \<longleftrightarrow> a = b"
proof
  assume "a = b"
  then show "ratio a b = 1" by (simp add: ratio_self)
next
  assume r: "ratio a b = 1"
  define M where "M = sum_list (map (\<lambda>(i, j, k). k) (get_matching_blocks a b))"
  have le_lcs: "M \<le> lcs_len a b" unfolding M_def by (rule matches_le_lcs)
  have "lcs_len a b \<le> size (mset a \<inter># mset b)" by (rule lcs_len_le_inter)
  moreover have "size (mset a \<inter># mset b) \<le> size (mset a)" by (intro size_mset_mono) simp
  moreover have "size (mset a \<inter># mset b) \<le> size (mset b)" by (intro size_mset_mono) simp
  ultimately have lcs_le: "lcs_len a b \<le> length a" "lcs_len a b \<le> length b" by simp_all
  show "a = b"
  proof (cases "length a + length b = 0")
    case True
    then show ?thesis by simp
  next
    case False
    define T where "T = length a + length b"
    have T0: "T \<noteq> 0" using False by (simp add: T_def)
    have "ratio a b = calculate_ratio M T" by (simp add: ratio_def Let_def M_def T_def)
    with r have "calculate_ratio M T = 1" by simp
    then have "2 * rat_of_nat M / rat_of_nat T = 1"
      unfolding calculate_ratio_def if_P[OF T0] .
    then have "2 * rat_of_nat M = rat_of_nat T"
      using T0 by (simp add: divide_eq_eq)
    then have "rat_of_nat (2 * M) = rat_of_nat T" by simp
    then have "2 * M = T" by (simp only: of_nat_eq_iff)
    then have "2 * rat_of_nat M = rat_of_nat (length a + length b)" by (simp add: T_def)
    then have "rat_of_nat (2 * M) = rat_of_nat (length a + length b)" by simp
    then have "2 * M = length a + length b" by (simp only: of_nat_eq_iff)
    with le_lcs lcs_le have "lcs_len a b = length a" "length a = length b" by linarith+
    then show ?thesis by (rule lcs_len_full)
  qed
qed

lemma fold_max_first:
  "fold (\<lambda>y m. if m < y then y else m) xs (x::'a::linorder) \<in> set (x # xs) \<and>
   (\<forall>y\<in>set (x # xs). y \<le> fold (\<lambda>y m. if m < y then y else m) xs x)"
proof (induction xs arbitrary: x)
  case Nil
  show ?case by simp
next
  case (Cons z zs)
  show ?case
  proof (cases "x < z")
    case True
    then have f: "fold (\<lambda>y m. if m < y then y else m) (z # zs) x = fold (\<lambda>y m. if m < y then y else m) zs z"
      by simp
    from Cons[of z] True show ?thesis unfolding f by (auto intro: order_trans less_imp_le)
  next
    case False
    then have f: "fold (\<lambda>y m. if m < y then y else m) (z # zs) x = fold (\<lambda>y m. if m < y then y else m) zs x"
      by simp
    from Cons[of x] False show ?thesis unfolding f by (auto simp add: not_less intro: order_trans)
  qed
qed

lemma nlargest1_cases:
  "(nlargest1 xs = [] \<and> xs = []) \<or> (\<exists>m. nlargest1 xs = [m] \<and> m \<in> set xs \<and> (\<forall>y\<in>set xs. y \<le> m))"
proof (cases xs)
  case Nil
  then show ?thesis by (simp add: nlargest1_def)
next
  case (Cons x rest)
  then show ?thesis using fold_max_first[of rest x] by (simp add: nlargest1_def)
qed

lemma close_matches_set:
  "set (concat (map (\<lambda>x.
            if real_quick_ratio x w \<ge> c \<and> quick_ratio x w \<ge> c \<and> ratio x w \<ge> c
            then [(ratio x w, x)] else []) ps)) = {(ratio x w, x) | x. x \<in> set ps \<and> c \<le> ratio x w}"
  unfolding close_enough_iff by auto

lemma get_close_matches_cases:
  "(get_close_matches w ps c = [] \<and> (\<forall>x\<in>set ps. ratio x w < c)) \<or>
   (\<exists>m. get_close_matches w ps c = [m] \<and> m \<in> set ps \<and> c \<le> ratio m w \<and>
        (\<forall>x\<in>set ps. c \<le> ratio x w \<longrightarrow> (ratio x w, x) \<le> (ratio m w, m)))"
proof -
  define result where "result = concat (map (\<lambda>x.
            if real_quick_ratio x w \<ge> c \<and> quick_ratio x w \<ge> c \<and> ratio x w \<ge> c
            then [(ratio x w, x)] else []) ps)"
  have set: "set result = {(ratio x w, x) | x. x \<in> set ps \<and> c \<le> ratio x w}"
    unfolding result_def by (rule close_matches_set)
  have gcm: "get_close_matches w ps c = map snd (nlargest1 result)"
    by (simp add: get_close_matches_def result_def Let_def)
  from nlargest1_cases[of result] show ?thesis
  proof
    assume "nlargest1 result = [] \<and> result = []"
    then have e: "result = []" by simp
    have n: "nlargest1 result = []" unfolding e by (simp add: nlargest1_def)
    from e set have "{(ratio x w, x) | x. x \<in> set ps \<and> c \<le> ratio x w} = {}" by simp
    then have "\<forall>x\<in>set ps. ratio x w < c" by (auto simp add: not_le[symmetric])
    with n gcm show ?thesis by simp
  next
    assume "\<exists>m. nlargest1 result = [m] \<and> m \<in> set result \<and> (\<forall>y\<in>set result. y \<le> m)"
    then obtain r m where m: "nlargest1 result = [(r, m)]" "(r, m) \<in> set result"
        "\<forall>y\<in>set result. y \<le> (r, m)" by auto
    from m(2) set have rm: "r = ratio m w" "m \<in> set ps" "c \<le> ratio m w" by auto
    have "\<forall>x\<in>set ps. c \<le> ratio x w \<longrightarrow> (ratio x w, x) \<le> (ratio m w, m)"
      using m(3) set rm(1) by auto
    with m(1) rm gcm show ?thesis by simp
  qed
qed

section \<open>Fuzzy matcher: the best match\<close>

lemma find_best_match_cases:
  "(find_best_match uq qs = None \<and> (\<forall>x\<in>set (map lower qs). ratio x (lower uq) < 65 / 100)) \<or>
   (\<exists>m. find_best_match uq qs = Some m \<and> m \<in> set (map lower qs) \<and> 65 / 100 \<le> ratio m (lower uq) \<and>
        (\<forall>x\<in>set (map lower qs). 65 / 100 \<le> ratio x (lower uq) \<longrightarrow>
           (ratio x (lower uq), x) \<le> (ratio m (lower uq), m)))"
  using get_close_matches_cases[of "lower uq" "map lower qs" "65 / 100"]
  by (auto simp add: find_best_match_def Let_def)

text \<open>
  Claim C2, as amended. \<open>find_best_match\<close> lowercases the user's text and every candidate;
  the ratio of every candidate lies between 0 and 1; the result is \<open>None\<close> exactly when no
  candidate reaches 0.65, and otherwise it is a lowercased candidate whose ratio is the
  maximum (at least 0.65). Among the candidates that tie at the maximum it is the greatest
  in the order of strings, wherever it stands in the input: the claim's tie-break by input
  order does not hold, as the closed counterexample after the witness shows.
\<close>

theorem find_best_match_result:
  "(\<forall>x. 0 \<le> ratio x (lower uq) \<and> ratio x (lower uq) \<le> 1) \<and>
   (find_best_match uq qs = None \<longleftrightarrow> (\<forall>x\<in>set (map lower qs). ratio x (lower uq) < 65 / 100)) \<and>
   (\<forall>m. find_best_match uq qs = Some m \<longrightarrow>
        m \<in> set (map lower qs) \<and> 65 / 100 \<le> ratio m (lower uq) \<and>
        (\<forall>x\<in>set (map lower qs). ratio x (lower uq) \<le> ratio m (lower uq) \<and>
            (ratio x (lower uq) = ratio m (lower uq) \<longrightarrow> x \<le> m)))"
proof (intro conjI allI impI)
  fix x
  show "0 \<le> ratio x (lower uq)" "ratio x (lower uq) \<le> 1" using ratio_range[of x "lower uq"] by simp_all
next
  show "find_best_match uq qs = None \<longleftrightarrow> (\<forall>x\<in>set (map lower qs). ratio x (lower uq) < 65 / 100)"
    using find_best_match_cases[of uq qs] by (auto simp add: not_less[symmetric] simp del: set_map)
next
  fix m
  assume "find_best_match uq qs = Some m"
  with find_best_match_cases[of uq qs] have m: "m \<in> set (map lower qs)" "65 / 100 \<le> ratio m (lower uq)"
    "\<forall>x\<in>set (map lower qs). 65 / 100 \<le> ratio x (lower uq) \<longrightarrow>
           (ratio x (lower uq), x) \<le> (ratio m (lower uq), m)"
    by auto
  show "m \<in> set (map lower qs)" by (rule m(1))
  show "65 / 100 \<le> ratio m (lower uq)" by (rule m(2))
  show "\<forall>x\<in>set (map lower qs). ratio x (lower uq) \<le> ratio m (lower uq) \<and>
            (ratio x (lower uq) = ratio m (lower uq) \<longrightarrow> x \<le> m)"
  proof
    fix x
    assume x: "x \<in> set (map lower qs)"
    show "ratio x (lower uq) \<le> ratio m (lower uq) \<and> (ratio x (lower uq) = ratio m (lower uq) \<longrightarrow> x \<le> m)"
    proof (cases "65 / 100 \<le> ratio x (lower uq)")
      case True
      with m(3) x have "(ratio x (lower uq), x) \<le> (ratio m (lower uq), m)" by blast
      then show ?thesis by (auto simp add: less_eq_prod_def)
    next
      case False
      with m(2) show ?thesis by simp
    qed
  qed
qed

theorem find_best_match_result_witness:
  "find_best_match ''what is your name'' [''What is your name?'', ''How old are you?''] =
     Some ''what is your name?'' \<and>
   65 / 100 \<le> ratio ''what is your name?'' ''what is your name'' \<and>
   find_best_match ''zzz qqq'' [''What is your name?'', ''How old are you?''] = None \<and>
   ratio ''how old are you?'' ''zzz qqq'' < 65 / 100"
proof -
  have l1: "lower ''what is your name'' = ''what is your name''" by code_simp
  have l2: "lower ''zzz qqq'' = ''zzz qqq''" by code_simp
  have l3: "map lower [''What is your name?'', ''How old are you?''] = [''what is your name?'', ''how old are you?'']"
    by code_simp
  have m: "find_best_match ''what is your name'' [''What is your name?'', ''How old are you?''] =
     Some ''what is your name?''" by code_simp
  have n: "find_best_match ''zzz qqq'' [''What is your name?'', ''How old are you?''] = None" by code_simp
  from find_best_match_result[of "''what is your name''" "[''What is your name?'', ''How old are you?'']"] m
  have a: "65 / 100 \<le> ratio ''what is your name?'' ''what is your name''"
    unfolding l1 by blast
  from find_best_match_result[of "''zzz qqq''" "[''What is your name?'', ''How old are you?'']"] n
  have b: "ratio ''how old are you?'' ''zzz qqq'' < 65 / 100"
    unfolding l2 l3 by simp
  from m a n b show ?thesis by simp
qed

theorem find_best_match_tie_counterexample:
  "ratio (lower ''abcx'') (lower ''abcd'') = 3 / 4 \<and>
   ratio (lower ''abcy'') (lower ''abcd'') = 3 / 4 \<and>
   find_best_match ''abcd'' [''abcx'', ''abcy''] = Some ''abcy'' \<and>
   find_best_match ''abcd'' [''abcx'', ''abcy''] \<noteq> Some ''abcx''"
proof -
  have 1: "ratio (lower ''abcx'') (lower ''abcd'') = 3 / 4" by code_simp
  have 2: "ratio (lower ''abcy'') (lower ''abcd'') = 3 / 4" by code_simp
  have 3: "find_best_match ''abcd'' [''abcx'', ''abcy''] = Some ''abcy''" by code_simp
  from 1 2 3 show ?thesis by simp
qed

section \<open>Matching a known question and looking up its answer\<close>

lemma get_answer_first:
  "\<exists>e\<in>set kb. lower (question e) = lower q \<Longrightarrow>
   \<exists>pre e' post. kb = pre @ e' # post \<and> (\<forall>x\<in>set pre. lower (question x) \<noteq> lower q) \<and>
      lower (question e') = lower q \<and> get_answer_for_question q kb = Some (answer e')"
proof (induction kb)
  case Nil
  then show ?case by simp
next
  case (Cons e kb)
  show ?case
  proof (cases "lower (question e) = lower q")
    case True
    then have "e # kb = [] @ e # kb \<and> (\<forall>x\<in>set []. lower (question x) \<noteq> lower q) \<and>
      lower (question e) = lower q \<and> get_answer_for_question q (e # kb) = Some (answer e)"
      by simp
    then show ?thesis by blast
  next
    case False
    with Cons.prems have "\<exists>e\<in>set kb. lower (question e) = lower q" by auto
    from Cons.IH[OF this] obtain pre e' post where p: "kb = pre @ e' # post"
      "\<forall>x\<in>set pre. lower (question x) \<noteq> lower q" "lower (question e') = lower q"
      "get_answer_for_question q kb = Some (answer e')" by blast
    have "e # kb = (e # pre) @ e' # post \<and> (\<forall>x\<in>set (e # pre). lower (question x) \<noteq> lower q) \<and>
      lower (question e') = lower q \<and> get_answer_for_question q (e # kb) = Some (answer e')"
      using p False by simp
    then show ?thesis by blast
  qed
qed

lemma find_best_match_known:
  assumes "q \<in> set qs"
  shows "find_best_match q qs = Some (lower q)"
proof -
  have mem: "lower q \<in> set (map lower qs)" using assms by simp
  have one: "ratio (lower q) (lower q) = 1" by (rule ratio_self)
  from find_best_match_cases[of q qs] show ?thesis
  proof
    assume "find_best_match q qs = None \<and> (\<forall>x\<in>set (map lower qs). ratio x (lower q) < 65 / 100)"
    with mem have "ratio (lower q) (lower q) < 65 / 100" by blast
    with one show ?thesis by simp
  next
    assume "\<exists>m. find_best_match q qs = Some m \<and> m \<in> set (map lower qs) \<and> 65 / 100 \<le> ratio m (lower q) \<and>
        (\<forall>x\<in>set (map lower qs). 65 / 100 \<le> ratio x (lower q) \<longrightarrow>
           (ratio x (lower q), x) \<le> (ratio m (lower q), m))"
    then obtain m where m: "find_best_match q qs = Some m"
      "\<forall>x\<in>set (map lower qs). 65 / 100 \<le> ratio x (lower q) \<longrightarrow>
           (ratio x (lower q), x) \<le> (ratio m (lower q), m)" by blast
    from m(2) mem one have "(1, lower q) \<le> (ratio m (lower q), m)" by force
    then have "1 \<le> ratio m (lower q)" by (auto simp add: less_eq_prod_def)
    with ratio_range[of m "lower q"] have "ratio m (lower q) = 1" by simp
    then have "m = lower q" by (simp add: ratio_one_iff)
    with m(1) show ?thesis by simp
  qed
qed

text \<open>
  Claim C10. For every knowledge base and every entry of it: a question is similar to
  itself with ratio 1, so \<open>find_best_match\<close> of the question against the questions of the
  base returns the lowercased question, and \<open>get_answer_for_question\<close> of that match returns
  the answer of the first entry whose question equals it up to case. For every user text a
  match that is found has an answer in the same base.
\<close>

theorem match_then_lookup:
  "(\<forall>e\<in>set kb.
      ratio (lower (question e)) (lower (question e)) = 1 \<and>
      find_best_match (question e) (map question kb) = Some (lower (question e)) \<and>
      (\<exists>pre e' post. kb = pre @ e' # post \<and>
          (\<forall>x\<in>set pre. lower (question x) \<noteq> lower (question e)) \<and>
          lower (question e') = lower (question e) \<and>
          get_answer_for_question (lower (question e)) kb = Some (answer e'))) \<and>
   (\<forall>uq m. find_best_match uq (map question kb) = Some m \<longrightarrow> get_answer_for_question m kb \<noteq> None) \<and>
   (\<forall>uq. chat_answer uq kb \<noteq> None)"
proof (intro conjI ballI allI impI)
  fix e assume e: "e \<in> set kb"
  show "ratio (lower (question e)) (lower (question e)) = 1" by (rule ratio_self)
  show "find_best_match (question e) (map question kb) = Some (lower (question e))"
    using e by (intro find_best_match_known) simp
  have "\<exists>x\<in>set kb. lower (question x) = lower (lower (question e))"
    using e by (auto simp add: lower_idem)
  from get_answer_first[OF this]
  show "\<exists>pre e' post. kb = pre @ e' # post \<and>
          (\<forall>x\<in>set pre. lower (question x) \<noteq> lower (question e)) \<and>
          lower (question e') = lower (question e) \<and>
          get_answer_for_question (lower (question e)) kb = Some (answer e')"
    by (simp add: lower_idem)
next
  fix uq m
  assume "find_best_match uq (map question kb) = Some m"
  with find_best_match_cases[of uq "map question kb"] have "m \<in> set (map lower (map question kb))"
    by auto
  then obtain e where "e \<in> set kb" "m = lower (question e)" by auto
  then have "\<exists>x\<in>set kb. lower (question x) = lower m" by (auto simp add: lower_idem)
  from get_answer_first[OF this] show "get_answer_for_question m kb \<noteq> None" by auto
next
  fix uq
  show "chat_answer uq kb \<noteq> None"
  proof (cases "find_best_match uq (map question kb)")
    case None
    then show ?thesis by (simp add: chat_answer_def)
  next
    case (Some m)
    with find_best_match_cases[of uq "map question kb"] have "m \<in> set (map lower (map question kb))"
      by auto
    then obtain e where "e \<in> set kb" "m = lower (question e)" by auto
    then have "\<exists>x\<in>set kb. lower (question x) = lower m" by (auto simp add: lower_idem)
    from get_answer_first[OF this] have "get_answer_for_question m kb \<noteq> None" by auto
    with Some show ?thesis by (simp add: chat_answer_def)
  qed
qed

theorem match_then_lookup_witness:
  "find_best_match ''What is your name?''
      (map question [\<lparr>question = ''How old are you?'', answer = ''Two''\<rparr>,
                     \<lparr>question = ''What is your name?'', answer = ''Bot''\<rparr>]) =
     Some ''what is your name?'' \<and>
   get_answer_for_question ''what is your name?''
      [\<lparr>question = ''How old are you?'', answer = ''Two''\<rparr>,
       \<lparr>question = ''What is your name?'', answer = ''Bot''\<rparr>] = Some ''Bot''"
proof -
  have l: "lower ''What is your name?'' = ''what is your name?''" by code_simp
  have g: "get_answer_for_question ''what is your name?''
      [\<lparr>question = ''How old are you?'', answer = ''Two''\<rparr>,
       \<lparr>question = ''What is your name?'', answer = ''Bot''\<rparr>] = Some ''Bot''" by code_simp
  from match_then_lookup[of "[\<lparr>question = ''How old are you?'', answer = ''Two''\<rparr>,
       \<lparr>question = ''What is your name?'', answer = ''Bot''\<rparr>]"]
  have "find_best_match ''What is your name?''
      (map question [\<lparr>question = ''How old are you?'', answer = ''Two''\<rparr>,
                     \<lparr>question = ''What is your name?'', answer = ''Bot''\<rparr>]) =
     Some (lower ''What is your name?'')" by simp
  with l g show ?thesis by simp
qed

end
